theory Spec2Isabelle
  imports Complex_Main "HOL-Library.Char_ord" "HOL-Library.List_Lexorder" "HOL-Library.Log_Nat"
begin

section \<open>JavaScript numbers\<close>

text \<open>
  A JavaScript number is an IEEE-754 binary64 value. Every finite one is a rational
  number, and the amounts of this program are modelled by the rational they are equal
  to; a rational that is not such a value, like the one written 0.1, stands for the
  number literal, which JavaScript reads as the nearest binary64 value. \<open>fl\<close> is that
  reading, round to nearest with ties to the even significand: the value is scaled by
  the power of two \<open>q\<close> of its last place, 52 places below its leading bit and never
  below \<open>2\<^sup>-\<^sup>1\<^sup>0\<^sup>7\<^sup>4\<close>, rounded to an integer and scaled back. Every arithmetic operation
  of JavaScript is the exact operation followed by \<open>fl\<close>.

  Values beyond the range of binary64 (magnitudes from about \<open>1.8 \<times> 10\<^sup>3\<^sup>0\<^sup>8\<close> on, where
  JavaScript yields \<^verbatim>\<open>Infinity\<close>) and \<^verbatim>\<open>NaN\<close> are not modelled.
\<close>

text \<open>\<open>ilog2 a\<close> is the exponent \<open>e\<close> of the leading bit of a positive \<open>a\<close>: \<open>2\<^sup>e \<le> a < 2\<^sup>e\<^sup>+\<^sup>1\<close>.\<close>

definition ilog2 :: "rat \<Rightarrow> int" where
  "ilog2 a =
     (let (n, d) = quotient_of a; e = bitlen n - bitlen d
      in if 2 powi e \<le> a then e else e - 1)"

text \<open>Rounding to the nearest integer, a tie going to the even one.\<close>

definition rne :: "rat \<Rightarrow> int" where
  "rne y =
     (let f = \<lfloor>y\<rfloor>; r = y - of_int f
      in if r < 1 / 2 then f else if 1 / 2 < r then f + 1 else if even f then f else f + 1)"

definition fl :: "rat \<Rightarrow> rat" where
  "fl x =
     (if x = 0 then 0
      else (let a = \<bar>x\<bar>; q = max (ilog2 a - 52) (- 1074)
            in sgn x * (of_int (rne (a / 2 powi q)) * 2 powi q)))"

text \<open>The operators \<^verbatim>\<open>*\<close> and \<^verbatim>\<open>+\<close> on numbers.\<close>

definition js_times :: "rat \<Rightarrow> rat \<Rightarrow> rat" where
  "js_times x y = fl (fl x * fl y)"

definition js_plus :: "rat \<Rightarrow> rat \<Rightarrow> rat" where
  "js_plus x y = fl (fl x + fl y)"

text \<open>
  \<^verbatim>\<open>Number(x.toFixed(2))\<close>: \<^verbatim>\<open>toFixed\<close> takes the sign off, picks the integer \<open>n\<close> with
  \<open>n / 100\<close> nearest to the magnitude of the binary64 value, the larger one of two
  equally near, and prints it with two decimals, which \<^verbatim>\<open>Number\<close> reads back as the
  binary64 value nearest to \<open>n / 100\<close>; from \<open>10\<^sup>2\<^sup>1\<close> on \<^verbatim>\<open>toFixed\<close> prints the number
  itself.
\<close>

definition Number_toFixed2 :: "rat \<Rightarrow> rat" where
  "Number_toFixed2 x =
     (let v = fl x
      in if 10 ^ 21 \<le> \<bar>v\<bar> then v
         else if v < 0 then - fl (of_int \<lfloor>(- v) * 100 + 1 / 2\<rfloor> / 100)
         else fl (of_int \<lfloor>v * 100 + 1 / 2\<rfloor> / 100))"

text \<open>
  The unit roundoff of binary64, and closeness of a computed value \<open>v\<close> to an exact
  amount \<open>t\<close> up to the relative error \<open>e\<close>.
\<close>

definition eps :: rat where
  "eps = 1 / 2 ^ 53"

definition near :: "rat \<Rightarrow> rat \<Rightarrow> rat \<Rightarrow> bool" where
  "near e v t = (\<bar>v - t\<bar> \<le> e * t)"

section \<open>Numbers as text\<close>

text \<open>Decimal digits of a natural number, as \<^verbatim>\<open>String(n)\<close> prints them.\<close>

fun dec_digits :: "nat \<Rightarrow> string" where
  "dec_digits n =
     (if n < 10 then [''0123456789'' ! n]
      else dec_digits (n div 10) @ [''0123456789'' ! (n mod 10)])"

declare dec_digits.simps [simp del]

text \<open>\<^verbatim>\<open>String(k)\<close> for an integer.\<close>

definition String_int :: "int \<Rightarrow> string" where
  "String_int k = (if k < 0 then CHR ''-'' # dec_digits (nat (- k)) else dec_digits (nat k))"

text \<open>\<^verbatim>\<open>s.padStart(w, "0")\<close>\<close>

definition padStart0 :: "nat \<Rightarrow> string \<Rightarrow> string" where
  "padStart0 w s = replicate (w - length s) CHR ''0'' @ s"

text \<open>\<^verbatim>\<open>parts.join(sep)\<close>\<close>

fun join :: "string \<Rightarrow> string list \<Rightarrow> string" where
  "join sep [] = []"
| "join sep [x] = x"
| "join sep (x # y # ys) = x @ sep @ join sep (y # ys)"

section \<open>Replacement editor (owner dashboard)\<close>

text \<open>
  The owner dashboard keeps the replacement editor in React state. One editor line is the
  source's \<^verbatim>\<open>ReplaceLine\<close>; one catalogue entry is an element of \<^verbatim>\<open>menuAll\<close>.
  Quantities are integers, counted up and down by one; amounts of money are numbers.
\<close>

record ReplaceLine =
  rl_id :: string
  rl_menu_item_id :: string
  rl_name :: string
  rl_unit_price :: rat
  rl_qty :: int

record menu_entry =
  m_id :: string
  m_name :: string
  m_price :: rat

text \<open>\<^verbatim>\<open>Array.prototype.find\<close>: the first element that satisfies the predicate.\<close>

fun find_first :: "('a \<Rightarrow> bool) \<Rightarrow> 'a list \<Rightarrow> 'a option" where
  "find_first p [] = None"
| "find_first p (x # xs) = (if p x then Some x else find_first p xs)"

text \<open>
  The four editing operations, as the updater each one hands to \<^verbatim>\<open>setReplaceLines\<close>
  (\<open>prev\<close> is the current list). \<^verbatim>\<open>repAdd\<close> first looks the item up in \<^verbatim>\<open>menuAll\<close>
  and does nothing when it is not there.
\<close>

definition repInc :: "string \<Rightarrow> ReplaceLine list \<Rightarrow> ReplaceLine list" where
  "repInc menuItemId prev =
     map (\<lambda>l. if rl_menu_item_id l = menuItemId then l\<lparr>rl_qty := rl_qty l + 1\<rparr> else l) prev"



definition repAdd :: "menu_entry list \<Rightarrow> string \<Rightarrow> ReplaceLine list \<Rightarrow> ReplaceLine list" where
  "repAdd menuAll menuItemId prev =
     (case find_first (\<lambda>m. m_id m = menuItemId) menuAll of
        None \<Rightarrow> prev
      | Some it \<Rightarrow>
          (case find_first (\<lambda>l. rl_menu_item_id l = menuItemId) prev of
             Some existing \<Rightarrow>
               map (\<lambda>l. if rl_menu_item_id l = menuItemId then l\<lparr>rl_qty := rl_qty l + 1\<rparr> else l) prev
           | None \<Rightarrow>
               prev @ [\<lparr>rl_id = m_id it, rl_menu_item_id = m_id it, rl_name = m_name it,
                        rl_unit_price = m_price it, rl_qty = 1\<rparr>]))"


section \<open>The hosted backend, as the pages use it\<close>

text \<open>
  Modelled from the spec: the backend client (\<^verbatim>\<open>lib/supabase\<close> and the hosted service
  behind it) is not part of the sources. The spec describes it as executing filtered
  reads, inserts and updates against named tables, returning \<open>(data, error)\<close> pairs,
  never retrying and exposing no transactions. Here the tables \<^verbatim>\<open>orders\<close> and
  \<^verbatim>\<open>order_lines\<close> are lists of rows; every request is recorded in \<open>requests\<close>, in the
  order issued; \<open>faults\<close> scripts the backend's answers: the head of the list is the
  error (if any) of the next request, and a request that errs changes no table.
  \<open>new_order_id\<close> is the id the backend gives to the next order row it inserts and
  \<open>clock\<close> the current time as an ISO string. \<open>alerts\<close> collects what the page shows
  with \<^verbatim>\<open>alert(...)\<close>.
\<close>

datatype payment = CASH | GCASH

record order_row =
  o_id :: string
  o_branch_id :: string
  o_created_at :: string
  o_created_by :: "string option"
  o_payment_type :: payment
  o_total_amount :: rat
  o_status :: "string option"
  o_replaces :: "string option"
  o_replaced_by :: "string option"
  o_voided_at :: "string option"
  o_voided_by :: "string option"
  o_void_reason :: "string option"

record line_row =
  ol_order_id :: string
  ol_menu_item_id :: string
  ol_qty :: int
  ol_unit_price :: rat
  ol_line_total :: rat

text \<open>The object given to \<^verbatim>\<open>from("orders").insert(...)\<close>; a column left out is \<open>None\<close>.\<close>

record order_insert =
  ins_branch_id :: string
  ins_created_by :: "string option"
  ins_payment_type :: payment
  ins_status :: string
  ins_total_amount :: rat
  ins_replaces :: "string option"

datatype request =
    AuthGetSession
  | AuthGetUser
  | SelectOrderSingle string
  | SelectOrderLines string
  | InsertOrder order_insert
  | InsertOrderLines "line_row list"
  | DeleteOrderLines string
  | UpdateOrderTotal string rat
  | UpdateOrderStatus string string
  | UpdateOrderVoided string string string string string

text \<open>
  The messages shown with \<^verbatim>\<open>alert\<close>, by the place that shows them:
  \<open>ErrorMessage m\<close> is \<^verbatim>\<open>alert(err.message)\<close> in a \<^verbatim>\<open>catch\<close> of the owner page,
  \<open>ReasonTooShort\<close> is "Please enter a void reason (at least 3 characters).",
  \<open>ReplacementEmpty\<close> is "Replacement cannot be empty. Add at least 1 item.",
  \<open>DraftSaved\<close> is "Draft saved.", \<open>ReplacementFinalized\<close> is "Replacement finalized.",
  \<open>NoBranchAssigned\<close> is "No branch assigned to this cashier.",
  \<open>OrderSaved\<close> is "Order saved" and \<open>FailedToSaveOrder m\<close> is
  "Failed to save order: " followed by the error's message.
\<close>

datatype message =
    ErrorMessage string
  | ReasonTooShort
  | ReplacementEmpty
  | DraftSaved
  | ReplacementFinalized
  | NoBranchAssigned
  | OrderSaved
  | FailedToSaveOrder string

record world =
  orders :: "order_row list"
  order_lines :: "line_row list"
  menu_names :: "(string \<times> string) list"
  session_user :: "string option"
  new_order_id :: string
  clock :: string
  faults :: "string option list"
  requests :: "request list"
  alerts :: "message list"

definition is_write :: "request \<Rightarrow> bool" where
  "is_write r = (case r of
       InsertOrder p \<Rightarrow> True
     | InsertOrderLines ls \<Rightarrow> True
     | DeleteOrderLines i \<Rightarrow> True
     | UpdateOrderTotal i t \<Rightarrow> True
     | UpdateOrderStatus i s \<Rightarrow> True
     | UpdateOrderVoided i a b c d \<Rightarrow> True
     | _ \<Rightarrow> False)"

definition writes :: "world \<Rightarrow> request list" where
  "writes w = filter is_write (requests w)"

definition alert :: "message \<Rightarrow> world \<Rightarrow> world" where
  "alert m w = w\<lparr>alerts := alerts w @ [m]\<rparr>"

text \<open>
  One round trip: the request is recorded and the scripted answer taken. The result is
  the error message, or \<open>None\<close> when the backend accepts the request.
\<close>

definition call :: "request \<Rightarrow> world \<Rightarrow> string option \<times> world" where
  "call r w =
     (case faults w of
        [] \<Rightarrow> (None, w\<lparr>requests := requests w @ [r]\<rparr>)
      | f # fs \<Rightarrow> (f, w\<lparr>faults := fs, requests := requests w @ [r]\<rparr>))"

text \<open>
  \<^verbatim>\<open>from("orders").select(...).eq("id", oid).single()\<close>: the row with that id;
  \<^verbatim>\<open>single()\<close> answers with an error unless exactly one row matches.
\<close>

definition single_row_error :: string where
  "single_row_error = ''JSON object requested, multiple (or no) rows returned''"

definition select_order_single :: "string \<Rightarrow> world \<Rightarrow> (string + order_row) \<times> world" where
  "select_order_single oid w =
     (case call (SelectOrderSingle oid) w of
        (Some e, w') \<Rightarrow> (Inl e, w')
      | (None, w') \<Rightarrow>
          (case filter (\<lambda>r. o_id r = oid) (orders w') of
             [r] \<Rightarrow> (Inr r, w')
           | _ \<Rightarrow> (Inl single_row_error, w')))"

text \<open>
  \<^verbatim>\<open>from("order_lines").select("menu_item_id, qty, unit_price, line_total, menu_items(name)")
  .eq("order_id", oid)\<close>: the lines of the order, each with the name of its menu item when
  the join finds one.
\<close>

definition select_order_lines ::
  "string \<Rightarrow> world \<Rightarrow> (string + (line_row \<times> string option) list) \<times> world" where
  "select_order_lines oid w =
     (case call (SelectOrderLines oid) w of
        (Some e, w') \<Rightarrow> (Inl e, w')
      | (None, w') \<Rightarrow>
          (Inr (map (\<lambda>l. (l, map_of (menu_names w') (ol_menu_item_id l)))
                  (filter (\<lambda>l. ol_order_id l = oid) (order_lines w'))), w'))"

text \<open>
  \<^verbatim>\<open>from("orders").insert(p).select("id").single()\<close>: a new row with a fresh id and the
  insertion time; the columns the payload leaves out are null. The answer is the new id.
\<close>

definition new_order_row :: "string \<Rightarrow> string \<Rightarrow> order_insert \<Rightarrow> order_row" where
  "new_order_row i t p =
     \<lparr>o_id = i, o_branch_id = ins_branch_id p, o_created_at = t, o_created_by = ins_created_by p,
      o_payment_type = ins_payment_type p, o_total_amount = ins_total_amount p,
      o_status = Some (ins_status p), o_replaces = ins_replaces p, o_replaced_by = None,
      o_voided_at = None, o_voided_by = None, o_void_reason = None\<rparr>"

definition insert_order :: "order_insert \<Rightarrow> world \<Rightarrow> (string + string) \<times> world" where
  "insert_order p w =
     (case call (InsertOrder p) w of
        (Some e, w') \<Rightarrow> (Inl e, w')
      | (None, w') \<Rightarrow>
          (Inr (new_order_id w'),
           w'\<lparr>orders := orders w' @ [new_order_row (new_order_id w') (clock w') p]\<rparr>))"

definition insert_order_lines :: "line_row list \<Rightarrow> world \<Rightarrow> string option \<times> world" where
  "insert_order_lines ls w =
     (case call (InsertOrderLines ls) w of
        (Some e, w') \<Rightarrow> (Some e, w')
      | (None, w') \<Rightarrow> (None, w'\<lparr>order_lines := order_lines w' @ ls\<rparr>))"

definition delete_order_lines :: "string \<Rightarrow> world \<Rightarrow> string option \<times> world" where
  "delete_order_lines oid w =
     (case call (DeleteOrderLines oid) w of
        (Some e, w') \<Rightarrow> (Some e, w')
      | (None, w') \<Rightarrow>
          (None, w'\<lparr>order_lines := filter (\<lambda>l. ol_order_id l \<noteq> oid) (order_lines w')\<rparr>))"

definition update_order_total :: "string \<Rightarrow> rat \<Rightarrow> world \<Rightarrow> string option \<times> world" where
  "update_order_total oid t w =
     (case call (UpdateOrderTotal oid t) w of
        (Some e, w') \<Rightarrow> (Some e, w')
      | (None, w') \<Rightarrow>
          (None, w'\<lparr>orders := map (\<lambda>r. if o_id r = oid then r\<lparr>o_total_amount := t\<rparr> else r)
                                   (orders w')\<rparr>))"

definition update_order_status :: "string \<Rightarrow> string \<Rightarrow> world \<Rightarrow> string option \<times> world" where
  "update_order_status oid s w =
     (case call (UpdateOrderStatus oid s) w of
        (Some e, w') \<Rightarrow> (Some e, w')
      | (None, w') \<Rightarrow>
          (None, w'\<lparr>orders := map (\<lambda>r. if o_id r = oid then r\<lparr>o_status := Some s\<rparr> else r)
                                   (orders w')\<rparr>))"

definition update_order_voided ::
  "string \<Rightarrow> string \<Rightarrow> string \<Rightarrow> string \<Rightarrow> string \<Rightarrow> world \<Rightarrow> string option \<times> world" where
  "update_order_voided oid at_time by_user reason new_id w =
     (case call (UpdateOrderVoided oid at_time by_user reason new_id) w of
        (Some e, w') \<Rightarrow> (Some e, w')
      | (None, w') \<Rightarrow>
          (None, w'\<lparr>orders :=
             map (\<lambda>r. if o_id r = oid
                       then r\<lparr>o_status := Some ''VOIDED'', o_voided_at := Some at_time,
                              o_voided_by := Some by_user, o_void_reason := Some reason,
                              o_replaced_by := Some new_id\<rparr>
                       else r) (orders w')\<rparr>))"

text \<open>
  \<^verbatim>\<open>auth.getSession()\<close> and \<^verbatim>\<open>auth.getUser()\<close>: the id of the signed-in user. The pages
  ignore the error of these two calls and look at the data only, which has no user when
  the call errs.
\<close>

definition auth_get_session :: "world \<Rightarrow> string option \<times> world" where
  "auth_get_session w =
     (case call AuthGetSession w of
        (Some e, w') \<Rightarrow> (None, w')
      | (None, w') \<Rightarrow> (session_user w', w'))"

definition auth_get_user :: "world \<Rightarrow> string option \<times> world" where
  "auth_get_user w =
     (case call AuthGetUser w of
        (Some e, w') \<Rightarrow> (None, w')
      | (None, w') \<Rightarrow> (session_user w', w'))"

text \<open>JavaScript truthiness of a \<^verbatim>\<open>string | null\<close>: null and the empty string are falsy.\<close>

definition falsy :: "string option \<Rightarrow> bool" where
  "falsy v = (case v of None \<Rightarrow> True | Some s \<Rightarrow> s = [])"

section \<open>The void-and-replace workflow (owner dashboard)\<close>

text \<open>
  The React state of the owner dashboard that the workflow reads and writes.
  \<^verbatim>\<open>menuAll\<close> is declared with \<^verbatim>\<open>useState([])\<close> and the page never calls its setter.
\<close>

record owner_state =
  replaceMode :: bool
  replaceOldId :: "string option"
  replaceNewId :: "string option"
  voidReason :: string
  replaceSaving :: bool
  replaceLines :: "ReplaceLine list"
  replaceBranchLabel :: string
  menuAll :: "menu_entry list"
  branches :: "(string \<times> string) list"

text \<open>
  \<^verbatim>\<open>branchNameById\<close> is a \<^verbatim>\<open>Map\<close> filled from \<^verbatim>\<open>branches\<close> in order, so a later entry
  with the same id replaces an earlier one.
\<close>

definition branchNameById :: "(string \<times> string) list \<Rightarrow> string \<Rightarrow> string option" where
  "branchNameById bs = map_of (rev bs)"

text \<open>
  A \<open>char\<close> stands for a UTF-16 code unit below 256. \<^verbatim>\<open>String.prototype.trim\<close> strips
  white space and line terminators from both ends; the ones below 256 are tab, line
  feed, vertical tab, form feed, carriage return, space and the no-break space U+00A0.
\<close>

definition is_space :: "char \<Rightarrow> bool" where
  "is_space c = ((of_char c :: nat) \<in> {9, 10, 11, 12, 13, 32, 160})"

definition trim :: "string \<Rightarrow> string" where
  "trim s = rev (dropWhile is_space (rev (dropWhile is_space s)))"

text \<open>\<^verbatim>\<open>replaceLines.reduce((sum, l) => sum + l.unit_price * l.qty, 0)\<close>\<close>

definition replaceTotal :: "ReplaceLine list \<Rightarrow> rat" where
  "replaceTotal ls =
     foldl (\<lambda>sum l. js_plus sum (js_times (rl_unit_price l) (of_int (rl_qty l)))) 0 ls"

subsection \<open>startVoidAndReplace\<close>

text \<open>
  The body of the \<^verbatim>\<open>try\<close> block: \<open>Inl m\<close> is \<^verbatim>\<open>throw new Error(m)\<close>, \<open>Inr st\<close> the state
  after the setters at its end.
\<close>

definition startVoidAndReplace_try ::
  "string \<Rightarrow> owner_state \<Rightarrow> world \<Rightarrow> (string + owner_state) \<times> world" where
  "startVoidAndReplace_try oldOrderId st w =
     (case select_order_single oldOrderId w of
        (Inl e1, w1) \<Rightarrow> (Inl e1, w1)
      | (Inr old, w1) \<Rightarrow>
          (case select_order_lines oldOrderId w1 of
             (Inl e2, w2) \<Rightarrow> (Inl e2, w2)
           | (Inr lines, w2) \<Rightarrow>
               (case insert_order
                       \<lparr>ins_branch_id = o_branch_id old, ins_created_by = None,
                        ins_payment_type = o_payment_type old, ins_status = ''DRAFT'',
                        ins_total_amount = o_total_amount old, ins_replaces = Some oldOrderId\<rparr> w2 of
                  (Inl e3, w3) \<Rightarrow> (Inl e3, w3)
                | (Inr newId, w3) \<Rightarrow>
                    (let newLinesDb =
                           map (\<lambda>(l, n). \<lparr>ol_order_id = newId, ol_menu_item_id = ol_menu_item_id l,
                                          ol_qty = ol_qty l, ol_unit_price = ol_unit_price l,
                                          ol_line_total = ol_line_total l\<rparr>) lines;
                         (e4, w4) = (if newLinesDb \<noteq> [] then insert_order_lines newLinesDb w3
                                     else (None, w3))
                     in case e4 of
                          Some e \<Rightarrow> (Inl e, w4)
                        | None \<Rightarrow>
                            (let editorLines =
                                   map (\<lambda>(l, n). \<lparr>rl_id = ol_menu_item_id l,
                                                  rl_menu_item_id = ol_menu_item_id l,
                                                  rl_name = (case n of Some nm \<Rightarrow> nm | None \<Rightarrow> ''Unknown''),
                                                  rl_unit_price = ol_unit_price l,
                                                  rl_qty = ol_qty l\<rparr>) lines
                             in (Inr (st\<lparr>replaceMode := True, replaceOldId := Some oldOrderId,
                                         replaceNewId := Some newId, replaceLines := editorLines,
                                         voidReason := [],
                                         replaceBranchLabel :=
                                           (case branchNameById (branches st) (o_branch_id old) of
                                              Some nm \<Rightarrow> nm | None \<Rightarrow> o_branch_id old)\<rparr>), w4))))))"

text \<open>
  \<open>ok\<close> is the answer to \<^verbatim>\<open>window.confirm\<close>. A thrown error is shown with \<^verbatim>\<open>alert\<close>;
  the \<^verbatim>\<open>finally\<close> block clears \<^verbatim>\<open>replaceSaving\<close> on both paths.
\<close>

definition startVoidAndReplace ::
  "bool \<Rightarrow> string \<Rightarrow> owner_state \<Rightarrow> world \<Rightarrow> owner_state \<times> world" where
  "startVoidAndReplace ok oldOrderId st w =
     (if \<not> ok then (st, w)
      else (case startVoidAndReplace_try oldOrderId (st\<lparr>replaceSaving := True\<rparr>) w of
              (Inl m, w') \<Rightarrow> (st\<lparr>replaceSaving := False\<rparr>, alert (ErrorMessage m) w')
            | (Inr st', w') \<Rightarrow> (st'\<lparr>replaceSaving := False\<rparr>, w')))"

subsection \<open>saveReplacementDraft\<close>

text \<open>The rows \<^verbatim>\<open>payload\<close> built from the editor lines for the order \<open>newId\<close>.\<close>

definition draft_payload :: "string \<Rightarrow> ReplaceLine list \<Rightarrow> line_row list" where
  "draft_payload newId ls =
     map (\<lambda>l. \<lparr>ol_order_id = newId, ol_menu_item_id = rl_menu_item_id l, ol_qty = rl_qty l,
               ol_unit_price = rl_unit_price l,
               ol_line_total = js_times (rl_unit_price l) (of_int (rl_qty l))\<rparr>) ls"

text \<open>The \<^verbatim>\<open>try\<close> block; \<open>Some m\<close> is \<^verbatim>\<open>throw new Error(m)\<close>.\<close>

definition saveReplacementDraft_try ::
  "string \<Rightarrow> ReplaceLine list \<Rightarrow> world \<Rightarrow> string option \<times> world" where
  "saveReplacementDraft_try newId ls w =
     (case delete_order_lines newId w of
        (Some e1, w1) \<Rightarrow> (Some e1, w1)
      | (None, w1) \<Rightarrow>
          (let payload = draft_payload newId ls;
               (e2, w2) = (if payload \<noteq> [] then insert_order_lines payload w1 else (None, w1))
           in case e2 of
                Some e \<Rightarrow> (Some e, w2)
              | None \<Rightarrow>
                  (case update_order_total newId (replaceTotal ls) w2 of
                     (Some e3, w3) \<Rightarrow> (Some e3, w3)
                   | (None, w3) \<Rightarrow> (None, alert DraftSaved w3))))"

text \<open>
  The function catches what its \<^verbatim>\<open>try\<close> block throws, shows it, and returns normally
  on both paths.
\<close>

definition saveReplacementDraft :: "owner_state \<Rightarrow> world \<Rightarrow> owner_state \<times> world" where
  "saveReplacementDraft st w =
     (case replaceNewId st of
        None \<Rightarrow> (st, w)
      | Some newId \<Rightarrow>
          (if newId = [] then (st, w)
           else (case saveReplacementDraft_try newId (replaceLines st) w of
                   (Some m, w') \<Rightarrow> (st\<lparr>replaceSaving := False\<rparr>, alert (ErrorMessage m) w')
                 | (None, w') \<Rightarrow> (st\<lparr>replaceSaving := False\<rparr>, w'))))"

subsection \<open>finalizeReplacement\<close>

text \<open>
  The \<^verbatim>\<open>try\<close> block. \<^verbatim>\<open>refreshAll()\<close> at its end only reads from the backend, catches
  its own errors and sets dashboard fields that are not part of \<open>owner_state\<close>; it is
  left out.
\<close>

definition finalizeReplacement_try ::
  "string \<Rightarrow> string \<Rightarrow> owner_state \<Rightarrow> world \<Rightarrow> (string + owner_state) \<times> world" where
  "finalizeReplacement_try oldId newId st w =
     (case auth_get_session w of
        (None, w0) \<Rightarrow> (Inl ''Login required'', w0)
      | (Some ownerId, w0) \<Rightarrow>
          (if ownerId = [] then (Inl ''Login required'', w0)
           else (case saveReplacementDraft st w0 of
                   (st1, w1) \<Rightarrow>
                     (case update_order_status newId ''PAID'' w1 of
                        (Some e1, w2) \<Rightarrow> (Inl e1, w2)
                      | (None, w2) \<Rightarrow>
                          (case update_order_voided oldId (clock w2) ownerId
                                  (trim (voidReason st)) newId w2 of
                             (Some e2, w3) \<Rightarrow> (Inl e2, w3)
                           | (None, w3) \<Rightarrow>
                               (Inr (st1\<lparr>replaceMode := False, replaceOldId := None,
                                         replaceNewId := None, replaceLines := [],
                                         voidReason := []\<rparr>),
                                alert ReplacementFinalized w3))))))"

text \<open>
  The guards come first, in the source's order: a missing (or empty) order id returns
  without a message; then the two validations, each with its message; then the
  confirmation dialogue, whose answer is \<open>ok\<close>.
\<close>

definition finalizeReplacement :: "bool \<Rightarrow> owner_state \<Rightarrow> world \<Rightarrow> owner_state \<times> world" where
  "finalizeReplacement ok st w =
     (case (replaceOldId st, replaceNewId st) of
        (Some oldId, Some newId) \<Rightarrow>
          (if oldId = [] \<or> newId = [] then (st, w)
           else if length (trim (voidReason st)) < 3 then (st, alert ReasonTooShort w)
           else if replaceLines st = [] then (st, alert ReplacementEmpty w)
           else if \<not> ok then (st, w)
           else (case finalizeReplacement_try oldId newId (st\<lparr>replaceSaving := True\<rparr>) w of
                   (Inl m, w') \<Rightarrow> (st\<lparr>replaceSaving := False\<rparr>, alert (ErrorMessage m) w')
                 | (Inr st', w') \<Rightarrow> (st'\<lparr>replaceSaving := False\<rparr>, w')))
      | _ \<Rightarrow> (st, w))"

text \<open>
  The page renders the button that calls \<^verbatim>\<open>finalizeReplacement\<close> only while
  \<^verbatim>\<open>replaceMode\<close> is set, and sets and clears the two order ids together with
  \<^verbatim>\<open>replaceMode\<close>: the editor is open on an old order and its draft.
\<close>

definition editor_open :: "owner_state \<Rightarrow> bool" where
  "editor_open st =
     (replaceMode st \<and> \<not> falsy (replaceOldId st) \<and> \<not> falsy (replaceNewId st))"

subsection \<open>cancelReplacement\<close>

definition cancelReplacement :: "bool \<Rightarrow> owner_state \<Rightarrow> owner_state" where
  "cancelReplacement ok st =
     (if \<not> ok then st
      else st\<lparr>replaceMode := False, replaceOldId := None, replaceNewId := None,
              replaceLines := [], voidReason := []\<rparr>)"

section \<open>Order entry (cashier page)\<close>

record CartLine =
  cl_id :: string
  cl_name :: string
  cl_price :: rat
  cl_qty :: int

record cashier_state =
  cart :: "CartLine list"
  payment :: payment
  saving :: bool
  branchId :: "string option"

text \<open>\<^verbatim>\<open>cart.reduce((sum, l) => sum + l.price * l.qty, 0)\<close>\<close>

definition total :: "CartLine list \<Rightarrow> rat" where
  "total c = foldl (\<lambda>sum l. js_plus sum (js_times (cl_price l) (of_int (cl_qty l)))) 0 c"

text \<open>The rows \<^verbatim>\<open>lines\<close> built from the cart for the order \<open>order_id\<close>.\<close>

definition cart_lines :: "string \<Rightarrow> CartLine list \<Rightarrow> line_row list" where
  "cart_lines order_id c =
     map (\<lambda>l. \<lparr>ol_order_id = order_id, ol_menu_item_id = cl_id l, ol_qty = cl_qty l,
               ol_unit_price = Number_toFixed2 (cl_price l),
               ol_line_total = Number_toFixed2 (js_times (cl_price l) (of_int (cl_qty l)))\<rparr>) c"

text \<open>
  The \<^verbatim>\<open>try\<close> block of \<^verbatim>\<open>placeOrder\<close>, entered with a branch id; \<open>Inl m\<close> is
  \<^verbatim>\<open>throw new Error(m)\<close>, \<open>Inr st\<close> the state after \<^verbatim>\<open>clear()\<close>.
\<close>

definition placeOrder_try ::
  "string \<Rightarrow> cashier_state \<Rightarrow> world \<Rightarrow> (string + cashier_state) \<times> world" where
  "placeOrder_try branch st w =
     (case auth_get_user w of
        (None, w0) \<Rightarrow> (Inl ''Login required'', w0)
      | (Some user_id, w0) \<Rightarrow>
          (let totalAmount = Number_toFixed2 (total (cart st))
           in case insert_order
                     \<lparr>ins_branch_id = branch, ins_created_by = Some user_id,
                      ins_payment_type = payment st, ins_status = ''NEW'',
                      ins_total_amount = totalAmount, ins_replaces = None\<rparr> w0 of
                (Inl orderErr, w1) \<Rightarrow> (Inl orderErr, w1)
              | (Inr order_id, w1) \<Rightarrow>
                  (case insert_order_lines (cart_lines order_id (cart st)) w1 of
                     (Some linesErr, w2) \<Rightarrow> (Inl linesErr, w2)
                   | (None, w2) \<Rightarrow> (Inr (st\<lparr>cart := []\<rparr>), alert OrderSaved w2))))"

text \<open>
  An empty cart returns at once, without a message; a missing (or empty) branch id is
  reported with \<^verbatim>\<open>alert\<close>. Both come before any request. A thrown error is shown with
  \<^verbatim>\<open>e?.message || e.toString()\<close>, which for an error with an empty message is the text
  \<^verbatim>\<open>Error\<close>.
\<close>

definition placeOrder :: "cashier_state \<Rightarrow> world \<Rightarrow> cashier_state \<times> world" where
  "placeOrder st w =
     (if cart st = [] then (st, w)
      else (case branchId st of
              None \<Rightarrow> (st, alert NoBranchAssigned w)
            | Some branch \<Rightarrow>
                (if branch = [] then (st, alert NoBranchAssigned w)
                 else (case placeOrder_try branch (st\<lparr>saving := True\<rparr>) w of
                         (Inl m, w') \<Rightarrow>
                           (st\<lparr>saving := False\<rparr>,
                            alert (FailedToSaveOrder (if m = [] then ''Error'' else m)) w')
                       | (Inr st', w') \<Rightarrow> (st'\<lparr>saving := False\<rparr>, w')))))"

text \<open>An amount of whole centavos: a multiple of 0.01.\<close>

definition is_centavos :: "rat \<Rightarrow> bool" where
  "is_centavos p = (of_int \<lfloor>p * 100\<rfloor> = p * 100)"

text \<open>
  A cart of ordinary size whose prices are whole centavos: no price is negative, every
  quantity is a positive integer below \<open>2\<^sup>5\<^sup>3\<close>, there are at most 1000 lines and the
  exact total is at most \<open>10\<^sup>1\<^sup>0\<close>.
\<close>

definition whole_centavo_cart :: "CartLine list \<Rightarrow> bool" where
  "whole_centavo_cart c =
     (list_all (\<lambda>l. is_centavos (cl_price l) \<and> 0 \<le> cl_price l
                    \<and> 1 \<le> cl_qty l \<and> cl_qty l < 2 ^ 53) c
      \<and> length c \<le> 1000
      \<and> (\<Sum>l\<leftarrow>c. cl_price l * of_int (cl_qty l)) \<le> 10 ^ 10)"

section \<open>The admin password-reset endpoint\<close>

text \<open>
  What the handler receives: the \<^verbatim>\<open>authorization\<close> header (\<open>None\<close> when absent) and the
  result of \<^verbatim>\<open>req.json()\<close>, which is \<open>Inl m\<close> when parsing throws an error with message
  \<open>m\<close>, \<open>Inr None\<close> for the JSON value \<^verbatim>\<open>null\<close> and otherwise the two fields the handler
  reads, each \<open>None\<close> when missing. The handler casts both fields to strings.
\<close>

record body_fields =
  mode :: "string option"
  newPassword :: "string option"

record post_request =
  authorization :: "string option"
  json_body :: "string + body_fields option"

text \<open>
  What the handler's surroundings answer during one request: the two environment
  variables, \<^verbatim>\<open>viewer.auth.getUser()\<close> (error, id of the user), the \<^verbatim>\<open>profiles\<close> lookup
  (error, role; the role is \<open>None\<close> when no row is found), the \<^verbatim>\<open>app_settings\<close> lookup
  (error, value) and \<^verbatim>\<open>auth.admin.updateUserById\<close> (error).
\<close>

record post_env =
  NEXT_PUBLIC_SUPABASE_URL :: "string option"
  NEXT_PUBLIC_SUPABASE_ANON_KEY :: "string option"
  userErr :: "string option"
  user_id :: "string option"
  profErr :: "string option"
  prof_role :: "string option"
  sErr :: "string option"
  s_value :: "string option"
  updErr :: "string option"

datatype response_body = ErrorBody string | OkTrue

record response =
  status :: nat
  body :: response_body

definition json_error :: "string \<Rightarrow> nat \<Rightarrow> response" where
  "json_error m s = \<lparr>status = s, body = ErrorBody m\<rparr>"

text \<open>
  \<^verbatim>\<open>toLowerCase\<close> on the code units below 256 (a header value holds no others): the
  letters A to Z and the capital letters of Latin-1, U+00C0 to U+00DE without the
  multiplication sign U+00D7, move up by 32; every other code unit stays.
\<close>

definition lower_char :: "char \<Rightarrow> char" where
  "lower_char c =
     (let n = (of_char c :: nat)
      in if (65 \<le> n \<and> n \<le> 90) \<or> (192 \<le> n \<and> n \<le> 222 \<and> n \<noteq> 215) then char_of (n + 32) else c)"

definition toLowerCase :: "string \<Rightarrow> string" where
  "toLowerCase s = map lower_char s"

definition startsWith :: "string \<Rightarrow> string \<Rightarrow> bool" where
  "startsWith s p = (take (length p) s = p)"

definition getBearer :: "post_request \<Rightarrow> string option" where
  "getBearer req =
     (let h = (case authorization req of None \<Rightarrow> [] | Some v \<Rightarrow> v)
      in if \<not> startsWith (toLowerCase h) ''bearer '' then None
         else Some (trim (drop 7 h)))"

text \<open>
  The end of the handler, once the target user is known: the credential update and the
  answer to its outcome.
\<close>

definition updateUserById :: "post_env \<Rightarrow> string \<Rightarrow> string \<Rightarrow> response \<times> (string \<times> string) list" where
  "updateUserById env targetUserId pw =
     (case updErr env of
        Some m \<Rightarrow> (json_error m 400, [(targetUserId, pw)])
      | None \<Rightarrow> (\<lparr>status = 200, body = OkTrue\<rparr>, [(targetUserId, pw)]))"

text \<open>
  The handler. The second component lists the calls of \<^verbatim>\<open>updateUserById\<close> it made, as
  (target user, new password). An exception inside the \<^verbatim>\<open>try\<close> block, here a body that
  is not JSON, is answered with 500 and the exception's message.
\<close>

definition POST :: "post_env \<Rightarrow> post_request \<Rightarrow> response \<times> (string \<times> string) list" where
  "POST env req =
     (let token = getBearer req in
      if falsy token then (json_error ''Missing auth token'' 401, [])
      else if falsy (NEXT_PUBLIC_SUPABASE_URL env) \<or> falsy (NEXT_PUBLIC_SUPABASE_ANON_KEY env)
        then (json_error ''Missing public env vars'' 500, [])
      else if userErr env \<noteq> None then (json_error ''Invalid session'' 401, [])
      else (case user_id env of
              None \<Rightarrow> (json_error ''Invalid session'' 401, [])
            | Some callerId \<Rightarrow>
                (case profErr env of
                   Some m \<Rightarrow> (json_error m 500, [])
                 | None \<Rightarrow>
                     if prof_role env \<noteq> Some ''owner'' then (json_error ''Forbidden'' 403, [])
                     else (case json_body req of
                             Inl m \<Rightarrow> (json_error m 500, [])
                           | Inr b \<Rightarrow>
                               (case (case b of None \<Rightarrow> None | Some f \<Rightarrow> mode f,
                                      case b of None \<Rightarrow> None | Some f \<Rightarrow> newPassword f) of
                                  (Some md, Some pw) \<Rightarrow>
                                    if md = [] \<or> pw = []
                                      then (json_error ''Missing mode or newPassword'' 400, [])
                                    else if length pw < 8
                                      then (json_error ''Password must be at least 8 characters'' 400, [])
                                    else if md = ''cashier''
                                      then (case sErr env of
                                              Some m \<Rightarrow> (json_error m 500, [])
                                            | None \<Rightarrow>
                                                (case s_value env of
                                                   None \<Rightarrow>
                                                     (json_error ''cashier_user_id not set in app_settings'' 500, [])
                                                 | Some v \<Rightarrow>
                                                     if v = []
                                                     then (json_error ''cashier_user_id not set in app_settings'' 500, [])
                                                     else updateUserById env v pw))
                                    else updateUserById env callerId pw
                                | _ \<Rightarrow> (json_error ''Missing mode or newPassword'' 400, []))))))"

text \<open>
  The checks of the handler as conditions on its inputs. A bearer token is given when the
  \<^verbatim>\<open>authorization\<close> header is present, its first seven characters are \<^verbatim>\<open>bearer\<close> in
  any mix of cases and a space, and what follows them is not white space only. Both
  environment variables are set; the token denotes a valid session; the caller's
  profile was found without error and has the role owner.
\<close>

definition has_token :: "post_request \<Rightarrow> bool" where
  "has_token req =
     (case authorization req of
        None \<Rightarrow> False
      | Some h \<Rightarrow> toLowerCase (take 7 h) = ''bearer '' \<and> \<not> list_all is_space (drop 7 h))"

definition configured :: "post_env \<Rightarrow> bool" where
  "configured env =
     (\<not> falsy (NEXT_PUBLIC_SUPABASE_URL env) \<and> \<not> falsy (NEXT_PUBLIC_SUPABASE_ANON_KEY env))"

definition valid_session :: "post_env \<Rightarrow> bool" where
  "valid_session env = (userErr env = None \<and> user_id env \<noteq> None)"

definition caller_is_owner :: "post_env \<Rightarrow> bool" where
  "caller_is_owner env = (profErr env = None \<and> prof_role env = Some ''owner'')"

section \<open>CSV export (owner dashboard)\<close>

text \<open>The dashboard's \<^verbatim>\<open>Order\<close> and \<^verbatim>\<open>Line\<close>; \<open>ln_menu_items\<close> is the joined item name.\<close>

record Order =
  ord_id :: string
  ord_branch_id :: string
  ord_created_at :: string
  ord_payment_type :: payment
  ord_total_amount :: rat
  ord_status :: "string option"

record Line =
  ln_order_id :: string
  ln_menu_item_id :: string
  ln_qty :: int
  ln_line_total :: rat
  ln_menu_items :: "string option"

text \<open>
  \<^verbatim>\<open>x.toFixed(2)\<close> as text: the sign, the integer \<open>n\<close> nearest to \<open>100 \<times> \<bar>x\<bar>\<close> for the
  binary64 value \<open>x\<close> (the larger of two equally near) printed with at least three
  digits, and a point before the last two. From \<open>10\<^sup>2\<^sup>1\<close> on JavaScript prints exponent
  notation instead; this model keeps printing digits there.
\<close>

definition toFixed2 :: "rat \<Rightarrow> string" where
  "toFixed2 x =
     (let v = fl x;
          n = nat \<lfloor>\<bar>v\<bar> * 100 + 1 / 2\<rfloor>;
          m = padStart0 3 (dec_digits n)
      in (if v < 0 then ''-'' else []) @ take (length m - 2) m @ ''.'' @ drop (length m - 2) m)"

definition payment_text :: "payment \<Rightarrow> string" where
  "payment_text p = (case p of CASH \<Rightarrow> ''CASH'' | GCASH \<Rightarrow> ''GCASH'')"

text \<open>
  \<^verbatim>\<open>escapeCsv\<close> on the text of its argument: a value with a double quote, a comma or a
  line feed is put in double quotes, with every double quote inside doubled.
\<close>

definition escapeCsv :: "string \<Rightarrow> string" where
  "escapeCsv s =
     (if CHR ''\"'' \<in> set s \<or> CHR '','' \<in> set s \<or> CHR 0x0A \<in> set s
      then ''\"'' @ concat (map (\<lambda>c. if c = CHR ''\"'' then ''\"\"'' else [c]) s) @ ''\"''
      else s)"

text \<open>
  \<^verbatim>\<open>linesByOrder\<close>: the loop that groups the lines by order id, each group in the order
  of \<^verbatim>\<open>lines\<close>.
\<close>

definition linesByOrder :: "Line list \<Rightarrow> string \<Rightarrow> Line list option" where
  "linesByOrder ls =
     foldl (\<lambda>m l. m(ln_order_id l \<mapsto> (case m (ln_order_id l) of None \<Rightarrow> [] | Some arr \<Rightarrow> arr) @ [l]))
       Map.empty ls"

definition header :: "string list" where
  "header = [''order_created_at'', ''branch'', ''payment_type'', ''order_total'', ''item_name'',
             ''qty'', ''line_total'']"

text \<open>
  \<^verbatim>\<open>[...orders].sort((a, b) => (a.created_at < b.created_at ? 1 : -1))\<close>: newest first.
  The comparator never answers 0, so where two orders have the same timestamp the
  order JavaScript leaves them in is implementation-defined; this model sorts by
  insertion and puts the later element of the input first.
\<close>

fun insert_desc :: "Order \<Rightarrow> Order list \<Rightarrow> Order list" where
  "insert_desc a [] = [a]"
| "insert_desc a (b # bs) =
     (if ord_created_at a < ord_created_at b then b # insert_desc a bs else a # b # bs)"

definition ordersSorted :: "Order list \<Rightarrow> Order list" where
  "ordersSorted os = foldl (\<lambda>acc a. insert_desc a acc) [] os"

text \<open>
  The two array literals of the loop body, before \<^verbatim>\<open>join(",")\<close>: the row of an order
  without lines, and the row of one line of an order.
\<close>

definition placeholder_fields :: "Order \<Rightarrow> string \<Rightarrow> string list" where
  "placeholder_fields ord branch =
     [escapeCsv (ord_id ord), escapeCsv (ord_created_at ord), escapeCsv branch,
      escapeCsv (payment_text (ord_payment_type ord)),
      escapeCsv (toFixed2 (ord_total_amount ord)), [], [], []]"

definition line_fields :: "Order \<Rightarrow> string \<Rightarrow> Line \<Rightarrow> string list" where
  "line_fields ord branch l =
     [escapeCsv (ord_id ord), escapeCsv (ord_created_at ord), escapeCsv branch,
      escapeCsv (payment_text (ord_payment_type ord)),
      escapeCsv (toFixed2 (ord_total_amount ord)),
      escapeCsv (case ln_menu_items l of Some nm \<Rightarrow> nm | None \<Rightarrow> ''Unknown''),
      escapeCsv (String_int (ln_qty l)),
      escapeCsv (toFixed2 (ln_line_total l))]"

text \<open>The field arrays of the data rows of one order, and of all orders, in output order.\<close>

definition order_fields :: "(string \<times> string) list \<Rightarrow> Line list \<Rightarrow> Order \<Rightarrow> string list list" where
  "order_fields bs ls ord =
     (let branch = (case branchNameById bs (ord_branch_id ord) of
                      Some nm \<Rightarrow> nm | None \<Rightarrow> ord_branch_id ord);
          ol = (case linesByOrder ls (ord_id ord) of Some arr \<Rightarrow> arr | None \<Rightarrow> [])
      in if ol = [] then [placeholder_fields ord branch]
         else map (line_fields ord branch) ol)"

definition data_fields :: "(string \<times> string) list \<Rightarrow> Order list \<Rightarrow> Line list \<Rightarrow> string list list" where
  "data_fields bs os ls = concat (map (order_fields bs ls) (ordersSorted os))"

text \<open>
  \<^verbatim>\<open>exportCsv\<close>: the file name and the text given to \<^verbatim>\<open>downloadTextFile\<close>. The first row
  is the joined header, each further row a joined field array.
\<close>

definition exportCsv ::
  "(string \<times> string) list \<Rightarrow> Order list \<Rightarrow> Line list \<Rightarrow> string \<Rightarrow> string \<Rightarrow> string \<times> string" where
  "exportCsv bs os ls startDate endDate =
     (let rows = join '','' header # map (join '','') (data_fields bs os ls);
          fn = ''superbecks_sales_'' @ startDate @ ''_to_'' @ endDate @ ''.csv''
      in (fn, join [CHR 0x0A] rows))"

text \<open>
  The value that a header name describes, for the row of a line (\<open>Some l\<close>) or the row of
  an order without lines (\<open>None\<close>).
\<close>

definition described_value :: "string \<Rightarrow> Order \<Rightarrow> string \<Rightarrow> Line option \<Rightarrow> string" where
  "described_value name ord branch l =
     (if name = ''order_created_at'' then escapeCsv (ord_created_at ord)
      else if name = ''branch'' then escapeCsv branch
      else if name = ''payment_type'' then escapeCsv (payment_text (ord_payment_type ord))
      else if name = ''order_total'' then escapeCsv (toFixed2 (ord_total_amount ord))
      else if name = ''item_name''
        then (case l of None \<Rightarrow> []
              | Some x \<Rightarrow> escapeCsv (case ln_menu_items x of Some nm \<Rightarrow> nm | None \<Rightarrow> ''Unknown''))
      else if name = ''qty'' then (case l of None \<Rightarrow> [] | Some x \<Rightarrow> escapeCsv (String_int (ln_qty x)))
      else if name = ''line_total''
        then (case l of None \<Rightarrow> [] | Some x \<Rightarrow> escapeCsv (toFixed2 (ln_line_total x)))
      else [])"

section \<open>The time-range utility\<close>

subsection \<open>Reading the date strings\<close>

text \<open>\<^verbatim>\<open>s.split(sep)\<close> for a separator of one character.\<close>

fun split_on :: "char \<Rightarrow> string \<Rightarrow> string list" where
  "split_on sep [] = [[]]"
| "split_on sep (c # cs) =
     (if c = sep then [] # split_on sep cs
      else (case split_on sep cs of
              p # ps \<Rightarrow> (c # p) # ps
            | [] \<Rightarrow> [[c]]))"

definition is_digit :: "char \<Rightarrow> bool" where
  "is_digit c = (48 \<le> (of_char c :: nat) \<and> (of_char c :: nat) \<le> 57)"

definition digit_val :: "char \<Rightarrow> nat" where
  "digit_val c = (of_char c :: nat) - 48"

text \<open>
  \<^verbatim>\<open>Number(s)\<close> on the strings a field of a \<^verbatim>\<open>YYYY-MM-DD\<close> date can be: a non-empty string
  of decimal digits is its value. For any other string the result is \<open>None\<close>, which
  stands for "not modelled" (JavaScript answers NaN for most of them, and a number for
  some, such as the empty string or a string with an exponent).
\<close>

definition Number_digits :: "string \<Rightarrow> nat option" where
  "Number_digits s =
     (if s \<noteq> [] \<and> list_all is_digit s
      then Some (foldl (\<lambda>a c. 10 * a + digit_val c) 0 s) else None)"

datatype date_error = RangeError | NotModelled

text \<open>
  One element of the destructuring \<^verbatim>\<open>[y, m, d] = s.split("-").map(Number)\<close>: the number
  at index \<open>i\<close>, or \<open>Inr None\<close> (\<^verbatim>\<open>undefined\<close>, which \<^verbatim>\<open>Date.UTC\<close> reads as NaN) when the
  string has fewer parts.
\<close>

definition field_number :: "string list \<Rightarrow> nat \<Rightarrow> date_error + int option" where
  "field_number parts i =
     (if i < length parts
      then (case Number_digits (parts ! i) of
              None \<Rightarrow> Inl NotModelled
            | Some n \<Rightarrow> Inr (Some (int n)))
      else Inr None)"

definition ymd_numbers :: "string \<Rightarrow> date_error + (int option \<times> int option \<times> int option)" where
  "ymd_numbers s =
     (let parts = split_on CHR ''-'' s
      in case (field_number parts 0, field_number parts 1, field_number parts 2) of
           (Inr y, Inr m, Inr d) \<Rightarrow> Inr (y, m, d)
         | _ \<Rightarrow> Inl NotModelled)"

subsection \<open>Date.UTC and toISOString\<close>

text \<open>
  The built-in date functions, after the ECMAScript specification, on integer time
  values; \<open>None\<close> is NaN. \<open>DayFromYear\<close> is the day number of 1 January,
  \<open>month_starts\<close> the day within the year on which each month starts, \<open>MakeDay\<close>
  normalises a month outside 0..11 into the year, \<open>MakeFullYear\<close> maps the years 0 to 99
  to 1900 to 1999, and \<open>TimeClip\<close> rejects instants beyond 8.64e15 ms from the epoch.
\<close>

definition msPerDay :: int where
  "msPerDay = 86400000"

definition DayFromYear :: "int \<Rightarrow> int" where
  "DayFromYear y =
     365 * (y - 1970) + (y - 1969) div 4 - (y - 1901) div 100 + (y - 1601) div 400"

definition InLeapYear :: "int \<Rightarrow> bool" where
  "InLeapYear y = (y mod 4 = 0 \<and> (y mod 100 \<noteq> 0 \<or> y mod 400 = 0))"

definition month_starts :: "bool \<Rightarrow> int list" where
  "month_starts leap =
     (if leap then [0, 31, 60, 91, 121, 152, 182, 213, 244, 274, 305, 335]
      else [0, 31, 59, 90, 120, 151, 181, 212, 243, 273, 304, 334])"

definition MakeDay :: "int \<Rightarrow> int \<Rightarrow> int \<Rightarrow> int" where
  "MakeDay year month date =
     (let ym = year + month div 12; mn = month mod 12
      in DayFromYear ym + month_starts (InLeapYear ym) ! nat mn + date - 1)"

definition MakeFullYear :: "int \<Rightarrow> int" where
  "MakeFullYear year = (if 0 \<le> year \<and> year \<le> 99 then 1900 + year else year)"

definition TimeClip :: "int \<Rightarrow> int option" where
  "TimeClip t = (if \<bar>t\<bar> > 8640000000000000 then None else Some t)"

text \<open>\<^verbatim>\<open>Date.UTC(year, month, date, 0, 0, 0)\<close>\<close>

definition Date_UTC :: "int option \<Rightarrow> int option \<Rightarrow> int option \<Rightarrow> int option" where
  "Date_UTC year month date =
     (case (year, month, date) of
        (Some y, Some m, Some d) \<Rightarrow> TimeClip (MakeDay (MakeFullYear y) m d * msPerDay)
      | _ \<Rightarrow> None)"

text \<open>
  The year of a day number: the year \<open>y\<close> with \<open>DayFromYear y \<le> d < DayFromYear (y + 1)\<close>,
  found from an estimate that is off by at most one.
\<close>

definition YearFromDay :: "int \<Rightarrow> int" where
  "YearFromDay d =
     (let y = 1970 + (400 * d) div 146097
      in if d < DayFromYear y then y - 1
         else if DayFromYear (y + 1) \<le> d then y + 1
         else y)"

text \<open>Month (0..11) and day of the month (from 1) of a day within its year.\<close>

definition MonthFromDay :: "bool \<Rightarrow> int \<Rightarrow> nat" where
  "MonthFromDay leap dayWithinYear =
     length (filter (\<lambda>s. s \<le> dayWithinYear) (month_starts leap)) - 1"

definition pad_int :: "nat \<Rightarrow> int \<Rightarrow> string" where
  "pad_int w k = padStart0 w (dec_digits (nat k))"

definition year_text :: "int \<Rightarrow> string" where
  "year_text y =
     (if 0 \<le> y \<and> y \<le> 9999 then pad_int 4 y
      else (if y < 0 then ''-'' else ''+'') @ pad_int 6 \<bar>y\<bar>)"

text \<open>
  \<^verbatim>\<open>new Date(v).toISOString()\<close>: the constructor clips the value, and \<^verbatim>\<open>toISOString\<close>
  throws a RangeError (\<open>None\<close> here) on an invalid date.
\<close>

definition toISOString :: "int option \<Rightarrow> string option" where
  "toISOString v =
     (case Option.bind v TimeClip of
        None \<Rightarrow> None
      | Some t \<Rightarrow>
          (let d = t div msPerDay;
               y = YearFromDay d;
               dayWithinYear = d - DayFromYear y;
               mo = MonthFromDay (InLeapYear y) dayWithinYear;
               dt = dayWithinYear - month_starts (InLeapYear y) ! mo + 1
           in Some (year_text y @ ''-'' @ pad_int 2 (int mo + 1) @ ''-'' @ pad_int 2 dt @ ''T''
                    @ pad_int 2 (t div 3600000 mod 24) @ '':'' @ pad_int 2 (t div 60000 mod 60)
                    @ '':'' @ pad_int 2 (t div 1000 mod 60) @ ''.'' @ pad_int 3 (t mod 1000)
                    @ ''Z'')))"

subsection \<open>phDateRangeToUtcIso\<close>

record utc_range =
  startUtc :: string
  endUtc :: string

definition phDateRangeToUtcIso :: "string \<Rightarrow> string \<Rightarrow> date_error + utc_range" where
  "phDateRangeToUtcIso startDate endDateInclusive =
     (case ymd_numbers startDate of
        Inl e \<Rightarrow> Inl e
      | Inr (sy, sm, sd) \<Rightarrow>
          (case ymd_numbers endDateInclusive of
             Inl e \<Rightarrow> Inl e
           | Inr (ey, em, ed) \<Rightarrow>
               (let offsetMin = 8 * 60;
                    startPhMs = Date_UTC sy (map_option (\<lambda>m. m - 1) sm) sd;
                    endPhMsInclusive = Date_UTC ey (map_option (\<lambda>m. m - 1) em) ed;
                    endPhExclusiveMs = map_option (\<lambda>t. t + 24 * 60 * 60 * 1000) endPhMsInclusive;
                    startUtcMs = map_option (\<lambda>t. t - offsetMin * 60 * 1000) startPhMs;
                    endUtcMs = map_option (\<lambda>t. t - offsetMin * 60 * 1000) endPhExclusiveMs
                in case (toISOString startUtcMs, toISOString endUtcMs) of
                     (Some a, Some b) \<Rightarrow> Inr \<lparr>startUtc = a, endUtc = b\<rparr>
                   | _ \<Rightarrow> Inl RangeError)))"

subsection \<open>Calendar dates\<close>

text \<open>
  The calendar the claims speak of: the length of each month, the valid dates, the day
  before and the day after a date, and the \<^verbatim>\<open>YYYY-MM-DD\<close> text of a date.
\<close>

definition days_in_month :: "int \<Rightarrow> int \<Rightarrow> int" where
  "days_in_month y m =
     (if m = 2 then (if InLeapYear y then 29 else 28)
      else if m = 4 \<or> m = 6 \<or> m = 9 \<or> m = 11 then 30 else 31)"

definition valid_date :: "int \<times> int \<times> int \<Rightarrow> bool" where
  "valid_date x = (case x of (y, m, d) \<Rightarrow> 1 \<le> m \<and> m \<le> 12 \<and> 1 \<le> d \<and> d \<le> days_in_month y m)"

definition next_day :: "int \<times> int \<times> int \<Rightarrow> int \<times> int \<times> int" where
  "next_day x =
     (case x of (y, m, d) \<Rightarrow>
        if d < days_in_month y m then (y, m, d + 1)
        else if m < 12 then (y, m + 1, 1)
        else (y + 1, 1, 1))"

definition prev_day :: "int \<times> int \<times> int \<Rightarrow> int \<times> int \<times> int" where
  "prev_day x =
     (case x of (y, m, d) \<Rightarrow>
        if 1 < d then (y, m, d - 1)
        else if 1 < m then (y, m - 1, days_in_month y (m - 1))
        else (y - 1, 12, 31))"

definition ymd_text :: "int \<times> int \<times> int \<Rightarrow> string" where
  "ymd_text x = (case x of (y, m, d) \<Rightarrow> pad_int 4 y @ ''-'' @ pad_int 2 m @ ''-'' @ pad_int 2 d)"

text \<open>
  Midnight at the start of a date in the business time zone (UTC+8), as the ISO text of
  the UTC instant: 16:00 of the day before.
\<close>

definition local_midnight_utc :: "int \<times> int \<times> int \<Rightarrow> string" where
  "local_midnight_utc x = ymd_text (prev_day x) @ ''T16:00:00.000Z''"

section \<open>Example states\<close>

text \<open>
  A shop with one paid-for order \<open>old-1\<close> (two portions of item \<open>m2\<close> at 30), the
  dashboard before and while that order is being replaced, and the backend once the draft
  \<open>new-1\<close> exists. The argument of \<open>draft_world\<close> is the script of backend answers.
\<close>

definition idle_state :: owner_state where
  "idle_state =
     \<lparr>replaceMode = False, replaceOldId = None, replaceNewId = None, voidReason = [],
      replaceSaving = False, replaceLines = [], replaceBranchLabel = [], menuAll = [],
      branches = [(''b1'', ''Main'')]\<rparr>"

definition editing_state :: owner_state where
  "editing_state =
     \<lparr>replaceMode = True, replaceOldId = Some ''old-1'', replaceNewId = Some ''new-1'',
      voidReason = ''wrong item'', replaceSaving = False,
      replaceLines = [\<lparr>rl_id = ''m1'', rl_menu_item_id = ''m1'', rl_name = ''Burger'',
                       rl_unit_price = 45, rl_qty = 1\<rparr>],
      replaceBranchLabel = ''Main'', menuAll = [], branches = [(''b1'', ''Main'')]\<rparr>"

definition shop_world :: world where
  "shop_world =
     \<lparr>orders = [\<lparr>o_id = ''old-1'', o_branch_id = ''b1'', o_created_at = ''2024-03-01T02:00:00.000Z'',
                 o_created_by = Some ''cashier-1'', o_payment_type = CASH, o_total_amount = 60,
                 o_status = Some ''NEW'', o_replaces = None, o_replaced_by = None,
                 o_voided_at = None, o_voided_by = None, o_void_reason = None\<rparr>],
      order_lines = [\<lparr>ol_order_id = ''old-1'', ol_menu_item_id = ''m2'', ol_qty = 2,
                      ol_unit_price = 30, ol_line_total = 60\<rparr>],
      menu_names = [(''m1'', ''Burger''), (''m2'', ''Fries'')],
      session_user = Some ''owner-1'', new_order_id = ''new-1'',
      clock = ''2024-03-02T04:00:00.000Z'', faults = [], requests = [], alerts = []\<rparr>"

definition draft_world :: "string option list \<Rightarrow> world" where
  "draft_world fs =
     \<lparr>orders = [\<lparr>o_id = ''old-1'', o_branch_id = ''b1'', o_created_at = ''2024-03-01T02:00:00.000Z'',
                 o_created_by = Some ''cashier-1'', o_payment_type = CASH, o_total_amount = 60,
                 o_status = Some ''NEW'', o_replaces = None, o_replaced_by = None,
                 o_voided_at = None, o_voided_by = None, o_void_reason = None\<rparr>,
                \<lparr>o_id = ''new-1'', o_branch_id = ''b1'', o_created_at = ''2024-03-02T04:00:00.000Z'',
                 o_created_by = None, o_payment_type = CASH, o_total_amount = 60,
                 o_status = Some ''DRAFT'', o_replaces = Some ''old-1'', o_replaced_by = None,
                 o_voided_at = None, o_voided_by = None, o_void_reason = None\<rparr>],
      order_lines = [\<lparr>ol_order_id = ''old-1'', ol_menu_item_id = ''m2'', ol_qty = 2,
                      ol_unit_price = 30, ol_line_total = 60\<rparr>,
                     \<lparr>ol_order_id = ''new-1'', ol_menu_item_id = ''m2'', ol_qty = 2,
                      ol_unit_price = 30, ol_line_total = 60\<rparr>],
      menu_names = [(''m1'', ''Burger''), (''m2'', ''Fries'')],
      session_user = Some ''owner-1'', new_order_id = ''new-2'',
      clock = ''2024-03-02T05:00:00.000Z'', faults = fs, requests = [], alerts = []\<rparr>"

text \<open>
  The cashier page with a cart, and the backend before the order is placed. The prices of
  \<open>fine_cart\<close> are not whole centavos.
\<close>

definition cashier_with :: "CartLine list \<Rightarrow> string option \<Rightarrow> cashier_state" where
  "cashier_with c b = \<lparr>cart = c, payment = CASH, saving = False, branchId = b\<rparr>"

definition scenario_cart :: "CartLine list" where
  "scenario_cart =
     [\<lparr>cl_id = ''A'', cl_name = ''Item A'', cl_price = 50, cl_qty = 2\<rparr>,
      \<lparr>cl_id = ''B'', cl_name = ''Item B'', cl_price = 20, cl_qty = 1\<rparr>]"

definition fine_cart :: "CartLine list" where
  "fine_cart =
     [\<lparr>cl_id = ''A'', cl_name = ''Item A'', cl_price = 10004 / 1000, cl_qty = 1\<rparr>,
      \<lparr>cl_id = ''B'', cl_name = ''Item B'', cl_price = 10004 / 1000, cl_qty = 1\<rparr>]"

definition till_world :: world where
  "till_world =
     \<lparr>orders = [], order_lines = [], menu_names = [(''A'', ''Item A''), (''B'', ''Item B'')],
      session_user = Some ''cashier-1'', new_order_id = ''ord-1'',
      clock = ''2024-03-01T02:00:00.000Z'', faults = [], requests = [], alerts = []\<rparr>"

text \<open>A well-configured endpoint called by the owner, and a well-formed request.\<close>

definition good_env :: post_env where
  "good_env =
     \<lparr>NEXT_PUBLIC_SUPABASE_URL = Some ''https://db.example'',
      NEXT_PUBLIC_SUPABASE_ANON_KEY = Some ''anon-key'', userErr = None,
      user_id = Some ''owner-1'', profErr = None, prof_role = Some ''owner'', sErr = None,
      s_value = Some ''cashier-1'', updErr = None\<rparr>"

definition good_request :: post_request where
  "good_request =
     \<lparr>authorization = Some ''Bearer abc.def'',
      json_body = Inr (Some \<lparr>mode = Some ''cashier'', newPassword = Some ''s3cret-pass''\<rparr>)\<rparr>"

text \<open>One order of the dashboard with one line, and its branch.\<close>

definition sample_order :: Order where
  "sample_order =
     \<lparr>ord_id = ''o1'', ord_branch_id = ''b1'', ord_created_at = ''2024-03-01T02:00:00+00:00'',
      ord_payment_type = GCASH, ord_total_amount = 120, ord_status = Some ''NEW''\<rparr>"

definition sample_line :: Line where
  "sample_line =
     \<lparr>ln_order_id = ''o1'', ln_menu_item_id = ''A'', ln_qty = 2, ln_line_total = 100,
      ln_menu_items = Some ''Burger, large''\<rparr>"

section \<open>Rounding to binary64\<close>

text \<open>
  The exponent found by \<open>ilog2\<close> is the one of the leading bit; rounding to an integer
  is off by at most a half; so \<open>fl\<close> is off by at most half a unit in the last place,
  which for a normal number is a relative error of at most \<open>2\<^sup>-\<^sup>5\<^sup>3\<close>; and a number with
  a significand below \<open>2\<^sup>5\<^sup>3\<close>, such as an integer of that size, is its own rounding.
\<close>

lemma bitlen_powi:
  assumes "0 < n"
  shows "(2::rat) powi (bitlen n - 1) \<le> of_int n" "of_int n < (2::rat) powi (bitlen n)"
proof -
  from bitlen_bounds [OF assms]
  have b: "2 ^ nat (bitlen n - 1) \<le> n" "n < 2 ^ nat (bitlen n)"
    by simp_all
  from assms have p: "1 \<le> bitlen n"
    using bitlen_eq_zero_iff [of n] bitlen_nonneg [of n] by linarith
  have "(2::rat) powi (bitlen n - 1) = of_int (2 ^ nat (bitlen n - 1))"
    using p by (simp add: power_int_def)
  also have "\<dots> \<le> of_int n"
    using b(1) by (simp only: of_int_le_iff)
  finally show "(2::rat) powi (bitlen n - 1) \<le> of_int n" .
  have "(of_int n :: rat) < of_int (2 ^ nat (bitlen n))"
    using b(2) by (simp only: of_int_less_iff)
  also have "\<dots> = (2::rat) powi (bitlen n)"
    using p by (simp add: power_int_def)
  finally show "of_int n < (2::rat) powi (bitlen n)" .
qed

lemma powi2_pos: "0 < (2::rat) powi e"
  by simp

lemma powi2_less: "(2::rat) powi i < 2 powi j \<longleftrightarrow> i < j"
proof
  assume l: "(2::rat) powi i < 2 powi j"
  show "i < j"
  proof (rule ccontr)
    assume "\<not> i < j"
    then have "(2::rat) powi j \<le> 2 powi i"
      by (intro power_int_increasing) simp_all
    with l show False
      by simp
  qed
next
  assume "i < j"
  then show "(2::rat) powi i < 2 powi j"
    by (intro power_int_strict_increasing) simp_all
qed

lemma powi2_le: "(2::rat) powi i \<le> 2 powi j \<longleftrightarrow> i \<le> j"
  using powi2_less [of j i] by (simp add: not_less [symmetric])

lemma powi2_add: "(2::rat) powi (i + j) = 2 powi i * 2 powi j"
  by (simp add: power_int_add)

lemma powi2_diff: "(2::rat) powi (i - j) = 2 powi i / 2 powi j"
  by (simp add: power_int_diff)

lemma ilog2_bounds:
  assumes "0 < a"
  shows "2 powi (ilog2 a) \<le> a" "a < 2 powi (ilog2 a + 1)"
proof -
  obtain n d where qd: "quotient_of a = (n, d)"
    by (cases "quotient_of a") auto
  then have d: "0 < d" and a: "a = of_int n / of_int d"
    using quotient_of_denom_pos [OF qd] quotient_of_div [OF qd] by simp_all
  from assms a d have n: "0 < n"
    by (simp add: zero_less_divide_iff)
  let ?e = "bitlen n - bitlen d"
  have dr: "(0::rat) < of_int d"
    using d by simp
  have up: "a < 2 powi (?e + 1)"
  proof -
    have "a < 2 powi (bitlen n) / of_int d"
      unfolding a using bitlen_powi(2) [OF n] dr by (simp add: divide_strict_right_mono)
    also have "\<dots> \<le> 2 powi (bitlen n) / 2 powi (bitlen d - 1)"
    proof (rule divide_left_mono [OF bitlen_powi(1) [OF d]])
      show "(0::rat) \<le> 2 powi bitlen n"
        by simp
      show "0 < rat_of_int d * 2 powi (bitlen d - 1)"
        using dr by simp
    qed
    also have "\<dots> = 2 powi (?e + 1)"
      by (simp add: powi2_diff [symmetric] algebra_simps)
    finally show ?thesis .
  qed
  have lo: "2 powi (?e - 1) < a"
  proof -
    have "(2::rat) powi (?e - 1) = 2 powi (bitlen n - 1) / 2 powi (bitlen d)"
      by (simp add: powi2_diff [symmetric] algebra_simps)
    also have "\<dots> < 2 powi (bitlen n - 1) / of_int d"
    proof (rule divide_strict_left_mono [OF bitlen_powi(2) [OF d]])
      show "(0::rat) < 2 powi (bitlen n - 1)"
        by simp
      show "0 < 2 powi bitlen d * rat_of_int d"
        using dr by simp
    qed
    also have "\<dots> \<le> a"
      unfolding a using bitlen_powi(1) [OF n] dr by (simp add: divide_right_mono)
    finally show ?thesis .
  qed
  have il: "ilog2 a = (if 2 powi ?e \<le> a then ?e else ?e - 1)"
    by (simp add: ilog2_def qd Let_def)
  show "2 powi (ilog2 a) \<le> a"
    using lo by (simp add: il)
  show "a < 2 powi (ilog2 a + 1)"
    using up by (auto simp: il not_le)
qed

lemma ilog2_unique:
  assumes "2 powi e \<le> a" "a < 2 powi (e + 1)"
  shows "ilog2 a = e"
proof -
  have a: "0 < a"
    using assms(1) powi2_pos [of e] by linarith
  note b = ilog2_bounds [OF a]
  from b(1) assms(2) have "(2::rat) powi (ilog2 a) < 2 powi (e + 1)"
    by linarith
  then have 1: "ilog2 a < e + 1"
    by (simp only: powi2_less)
  from assms(1) b(2) have "(2::rat) powi e < 2 powi (ilog2 a + 1)"
    by linarith
  then have "e < ilog2 a + 1"
    by (simp only: powi2_less)
  with 1 show ?thesis
    by linarith
qed

lemma rne_err: "\<bar>of_int (rne y) - y\<bar> \<le> 1 / 2"
proof -
  have "of_int \<lfloor>y\<rfloor> \<le> y" "y < of_int \<lfloor>y\<rfloor> + 1"
    by linarith+
  then show ?thesis
    by (auto simp: rne_def Let_def abs_le_iff)
qed

lemma rne_int: "rne (of_int z) = z"
  by (simp add: rne_def)

lemma fl_0: "fl 0 = 0"
  by (simp add: fl_def)

lemma fl_minus: "fl (- x) = - fl x"
  by (simp add: fl_def Let_def)

lemma fl_eq:
  assumes "2 powi e \<le> \<bar>x\<bar>" "\<bar>x\<bar> < 2 powi (e + 1)"
  shows "fl x = sgn x * (of_int (rne (\<bar>x\<bar> / 2 powi (max (e - 52) (- 1074)))) * 2 powi (max (e - 52) (- 1074)))"
proof -
  have "x \<noteq> 0"
  proof
    assume "x = 0"
    with assms(1) powi2_pos [of e] show False
      by simp
  qed
  then show ?thesis
    by (simp add: fl_def Let_def ilog2_unique [OF assms])
qed

lemma fl_abs_err:
  assumes "2 powi e \<le> \<bar>x\<bar>" "\<bar>x\<bar> < 2 powi (e + 1)" "- 1022 \<le> e"
  shows "\<bar>fl x - x\<bar> \<le> 2 powi (e - 53)"
proof -
  let ?P = "(2::rat) powi (e - 52)"
  let ?m = "rne (\<bar>x\<bar> / ?P)"
  have P: "0 < ?P"
    by simp
  have q: "max (e - 52) (- 1074) = e - 52"
    using assms(3) by simp
  have f: "fl x = sgn x * (of_int ?m * ?P)"
    using fl_eq [OF assms(1,2)] by (simp only: q)
  have x: "x = sgn x * \<bar>x\<bar>"
    by (simp add: sgn_mult_abs)
  have xn: "x \<noteq> 0"
  proof
    assume "x = 0"
    with assms(1) powi2_pos [of e] show False
      by simp
  qed
  have "fl x - x = sgn x * (of_int ?m * ?P - \<bar>x\<bar>)"
    by (subst f, subst (2) x) (simp only: right_diff_distrib)
  then have "\<bar>fl x - x\<bar> = \<bar>of_int ?m * ?P - \<bar>x\<bar>\<bar>"
    using xn by (simp add: abs_mult abs_sgn_eq)
  also have "of_int ?m * ?P - \<bar>x\<bar> = ?P * (of_int ?m - \<bar>x\<bar> / ?P)"
    using P by (simp add: field_simps)
  also have "\<bar>\<dots>\<bar> = ?P * \<bar>of_int ?m - \<bar>x\<bar> / ?P\<bar>"
    using P by (simp add: abs_mult)
  also have "\<dots> \<le> ?P * (1 / 2)"
    using rne_err [of "\<bar>x\<bar> / ?P"] P by (intro mult_left_mono) simp_all
  also have "\<dots> = 2 powi (e - 53)"
  proof -
    have "(2::rat) powi (e - 52) = 2 powi (e - 53 + 1)"
      by simp
    also have "\<dots> = 2 powi (e - 53) * 2"
      by (simp only: powi2_add power_int_1_right)
    finally show ?thesis
      by simp
  qed
  finally show ?thesis .
qed

lemma fl_rel_err:
  assumes "2 powi (- 1022) \<le> \<bar>x\<bar>"
  shows "\<bar>fl x - x\<bar> \<le> \<bar>x\<bar> / 2 ^ 53"
proof -
  have a: "0 < \<bar>x\<bar>"
    using assms powi2_pos [of "- 1022"] by linarith
  note b = ilog2_bounds [OF a]
  let ?e = "ilog2 \<bar>x\<bar>"
  from assms b(2) have "(2::rat) powi (- 1022) < 2 powi (?e + 1)"
    by linarith
  then have e: "- 1022 \<le> ?e"
    by (simp only: powi2_less)
  have "\<bar>fl x - x\<bar> \<le> 2 powi (?e - 53)"
    by (rule fl_abs_err [OF b e])
  also have "\<dots> = 2 powi ?e / 2 ^ 53"
    by (simp only: powi2_diff power_int_numeral)
  also have "\<dots> \<le> \<bar>x\<bar> / 2 ^ 53"
    using b(1) by (simp add: divide_right_mono)
  finally show ?thesis .
qed

lemma fl_repr:
  assumes m: "\<bar>m\<bar> < 2 ^ 53" and q: "- 1074 \<le> q"
  shows "fl (of_int m * 2 powi q) = of_int m * 2 powi q"
proof (cases "m = 0")
  case True
  then show ?thesis
    by (simp add: fl_0)
next
  case False
  let ?x = "rat_of_int m * 2 powi q"
  have ax: "\<bar>?x\<bar> = of_int \<bar>m\<bar> * 2 powi q"
    by (simp add: abs_mult)
  have pos: "0 < \<bar>?x\<bar>"
    using False by simp
  let ?e = "ilog2 \<bar>?x\<bar>"
  note b = ilog2_bounds [OF pos]
  have "rat_of_int \<bar>m\<bar> < of_int (2 ^ 53)"
    using m by (simp only: of_int_less_iff)
  then have "rat_of_int \<bar>m\<bar> < 2 powi 53"
    by simp
  then have "\<bar>?x\<bar> < 2 powi 53 * 2 powi q"
    unfolding ax using powi2_pos [of q] by (simp only: mult_strict_right_mono)
  also have "\<dots> = 2 powi (53 + q)"
    by (simp only: powi2_add)
  finally have "(2::rat) powi ?e < 2 powi (53 + q)"
    using b(1) by linarith
  then have "?e < 53 + q"
    by (simp only: powi2_less)
  with q have le: "max (?e - 52) (- 1074) \<le> q"
    by simp
  define qq where "qq = max (?e - 52) (- 1074)"
  define k where "k = nat (q - qq)"
  define am where "am = rat_of_int \<bar>m\<bar>"
  have "(2::rat) powi q = 2 powi (qq + int k)"
    using le by (simp add: qq_def k_def)
  also have "\<dots> = 2 powi qq * 2 ^ k"
    by (simp only: powi2_add power_int_of_nat)
  finally have pq: "(2::rat) powi q = 2 powi qq * 2 ^ k" .
  have axq: "\<bar>?x\<bar> = am * 2 ^ k * 2 powi qq"
  proof -
    have "\<bar>?x\<bar> = am * 2 powi q"
      unfolding am_def by (rule ax)
    also have "\<dots> = am * (2 powi qq * 2 ^ k)"
      by (simp only: pq)
    finally show ?thesis
      by (simp only: mult_ac)
  qed
  have "\<bar>?x\<bar> / 2 powi qq = am * 2 ^ k"
    by (simp only: axq) simp
  also have "\<dots> = of_int (\<bar>m\<bar> * 2 ^ k)"
    by (simp add: am_def)
  finally have "rne (\<bar>?x\<bar> / 2 powi qq) = \<bar>m\<bar> * 2 ^ k"
    by (simp only: rne_int)
  moreover have "fl ?x = sgn ?x * (of_int (rne (\<bar>?x\<bar> / 2 powi qq)) * 2 powi qq)"
    using fl_eq [OF b] by (simp only: qq_def)
  ultimately have "fl ?x = sgn ?x * (of_int (\<bar>m\<bar> * 2 ^ k) * 2 powi qq)"
    by (simp only:)
  also have "of_int (\<bar>m\<bar> * 2 ^ k) * 2 powi qq = \<bar>?x\<bar>"
    by (simp only: axq) (simp add: am_def)
  also have "sgn ?x * \<bar>?x\<bar> = ?x"
    by (simp only: sgn_mult_abs)
  finally show ?thesis .
qed

lemma fl_int:
  assumes "\<bar>m\<bar> < 2 ^ 53"
  shows "fl (of_int m) = of_int m"
  using fl_repr [OF assms, of 0] by simp

lemma fl_numeral: "numeral k < (2 ^ 53 :: int) \<Longrightarrow> fl (numeral k) = numeral k"
  using fl_int [of "numeral k"] by simp

lemma fl_1: "fl 1 = 1"
  using fl_int [of 1] by simp

lemma tiny: "(2::rat) powi (- 1022) \<le> 1 / 200"
proof -
  have "(2::rat) powi (- 1022) \<le> 2 powi (- 8)"
    by (simp only: powi2_le)
  also have "\<dots> \<le> 1 / 200"
    by simp
  finally show ?thesis .
qed

lemma floor_rat_numeral: "\<lfloor>(numeral a / numeral b :: rat)\<rfloor> = numeral a div numeral b"
  using floor_divide_of_int_eq [of "numeral a" "numeral b", where ?'a = rat] by simp

text \<open>Small whole amounts are multiplied and added exactly.\<close>

lemma js_whole:
  "js_times 45 1 = 45" "js_plus 0 45 = 45"
  by (simp_all add: js_times_def js_plus_def fl_numeral fl_1 fl_0)

section \<open>The guards of finalizeReplacement\<close>

lemmas backend_defs = call_def delete_order_lines_def insert_order_lines_def
  update_order_total_def update_order_status_def update_order_voided_def auth_get_session_def
  auth_get_user_def select_order_single_def select_order_lines_def insert_order_def alert_def

lemma finalize_guard:
  assumes "length (trim (voidReason st)) < 3 \<or> replaceLines st = []"
  shows "finalizeReplacement ok st w =
           (st, if falsy (replaceOldId st) \<or> falsy (replaceNewId st) then w
                else alert (if length (trim (voidReason st)) < 3 then ReasonTooShort
                            else ReplacementEmpty) w)"
  using assms
  by (auto simp: finalizeReplacement_def falsy_def split: option.splits)

lemma trim_reason: "trim ''wrong item'' = ''wrong item''"
  by (simp add: trim_def is_space_def)

text \<open>
  \<^verbatim>\<open>trim\<close> strips the no-break space as it strips the space: a reason of two letters
  between no-break spaces has length 2 once trimmed.
\<close>

lemma trim_no_break_space:
  "trim [CHR 0xA0, CHR ''a'', CHR ''b'', CHR 0xA0] = ''ab''"
  "trim ''  x '' = ''x''"
  by (simp_all add: trim_def is_space_def)

text \<open>
  With the editor closed (an order id missing) the function returns at its first line,
  before the validations: nothing is sent and nothing is shown. The page offers no way to
  call it in that state.
\<close>

lemma finalizeReplacement_closed_editor:
  assumes "falsy (replaceOldId st) \<or> falsy (replaceNewId st)"
  shows "finalizeReplacement ok st w = (st, w)"
  using assms
  by (auto simp: finalizeReplacement_def falsy_def split: option.splits)

text \<open>
  C1: for every call of \<open>finalizeReplacement\<close> from the open replacement editor with a
  trimmed void reason shorter than 3, or with no replacement line, the editor state is
  unchanged, no backend request at all is issued (so no delete, insert or update) and
  the tables are as before, and exactly one message is shown, the validation failure:
  the one about the void reason if the reason is too short, else the one about the
  empty replacement.
\<close>

theorem finalizeReplacement_validation:
  assumes "editor_open st"
    and "length (trim (voidReason st)) < 3 \<or> replaceLines st = []"
  shows "fst (finalizeReplacement ok st w) = st
       \<and> requests (snd (finalizeReplacement ok st w)) = requests w
       \<and> writes (snd (finalizeReplacement ok st w)) = writes w
       \<and> orders (snd (finalizeReplacement ok st w)) = orders w
       \<and> order_lines (snd (finalizeReplacement ok st w)) = order_lines w
       \<and> alerts (snd (finalizeReplacement ok st w)) =
           alerts w @ [if length (trim (voidReason st)) < 3 then ReasonTooShort
                       else ReplacementEmpty]"
  using assms(1)
  by (simp add: finalize_guard [OF assms(2)] alert_def writes_def editor_open_def)

theorem finalizeReplacement_validation_witness:
  "editor_open (editing_state\<lparr>voidReason := [CHR 0xA0, CHR ''a'', CHR ''b'', CHR 0xA0]\<rparr>)
   \<and> length (trim (voidReason
        (editing_state\<lparr>voidReason := [CHR 0xA0, CHR ''a'', CHR ''b'', CHR 0xA0]\<rparr>))) = 2
   \<and> fst (finalizeReplacement True
        (editing_state\<lparr>voidReason := [CHR 0xA0, CHR ''a'', CHR ''b'', CHR 0xA0]\<rparr>)
        (draft_world [])) =
       editing_state\<lparr>voidReason := [CHR 0xA0, CHR ''a'', CHR ''b'', CHR 0xA0]\<rparr>
   \<and> requests (snd (finalizeReplacement True
        (editing_state\<lparr>voidReason := [CHR 0xA0, CHR ''a'', CHR ''b'', CHR 0xA0]\<rparr>)
        (draft_world []))) = []
   \<and> alerts (snd (finalizeReplacement True
        (editing_state\<lparr>voidReason := [CHR 0xA0, CHR ''a'', CHR ''b'', CHR 0xA0]\<rparr>)
        (draft_world []))) = [ReasonTooShort]"
proof -
  let ?st = "editing_state\<lparr>voidReason := [CHR 0xA0, CHR ''a'', CHR ''b'', CHR 0xA0]\<rparr>"
  have opened: "editor_open ?st"
    by (simp add: editor_open_def editing_state_def falsy_def)
  have short: "length (trim (voidReason ?st)) = 2"
    by (simp add: trim_no_break_space)
  then have h: "length (trim (voidReason ?st)) < 3 \<or> replaceLines ?st = []"
    by simp
  have w0: "requests (draft_world []) = []" "alerts (draft_world []) = []"
    by (simp_all add: draft_world_def)
  from finalizeReplacement_validation [OF opened h, of True "draft_world []"] opened short w0
  show ?thesis
    by simp
qed

section \<open>A failed draft save inside finalizeReplacement\<close>

lemmas finalize_defs = finalizeReplacement_def finalizeReplacement_try_def
  saveReplacementDraft_def saveReplacementDraft_try_def draft_payload_def replaceTotal_def
  editing_state_def draft_world_def backend_defs trim_reason Let_def js_whole

text \<open>
  C2 says that a backend error inside the chained \<open>saveReplacementDraft\<close> aborts
  \<open>finalizeReplacement\<close> before the PAID and VOIDED updates. The code does not:
  \<open>saveReplacementDraft\<close> catches its own errors, so the caller never sees them. Here
  the session lookup and the delete succeed and the insert of the replacement lines
  fails. The error is shown, and then both status updates are still sent and accepted:
  the new order ends PAID with no lines and the old total, the old order VOIDED, the
  editor closed with the success message.
\<close>

theorem finalizeReplacement_continues_after_failed_save:
  "writes (snd (finalizeReplacement True editing_state
                  (draft_world [None, None, Some ''insert failed'']))) =
     [DeleteOrderLines ''new-1'',
      InsertOrderLines [\<lparr>ol_order_id = ''new-1'', ol_menu_item_id = ''m1'', ol_qty = 1,
                         ol_unit_price = 45, ol_line_total = 45\<rparr>],
      UpdateOrderStatus ''new-1'' ''PAID'',
      UpdateOrderVoided ''old-1'' ''2024-03-02T05:00:00.000Z'' ''owner-1'' ''wrong item'' ''new-1'']
   \<and> alerts (snd (finalizeReplacement True editing_state
                     (draft_world [None, None, Some ''insert failed'']))) =
     [ErrorMessage ''insert failed'', ReplacementFinalized]
   \<and> filter (\<lambda>l. ol_order_id l = ''new-1'')
       (order_lines (snd (finalizeReplacement True editing_state
                            (draft_world [None, None, Some ''insert failed''])))) = []
   \<and> map (\<lambda>r. (o_id r, o_status r, o_total_amount r))
       (orders (snd (finalizeReplacement True editing_state
                       (draft_world [None, None, Some ''insert failed''])))) =
     [(''old-1'', Some ''VOIDED'', 60), (''new-1'', Some ''PAID'', 60)]
   \<and> replaceMode (fst (finalizeReplacement True editing_state
                          (draft_world [None, None, Some ''insert failed'']))) = False"
proof (intro conjI)
  show "writes (snd (finalizeReplacement True editing_state
                  (draft_world [None, None, Some ''insert failed'']))) =
     [DeleteOrderLines ''new-1'',
      InsertOrderLines [\<lparr>ol_order_id = ''new-1'', ol_menu_item_id = ''m1'', ol_qty = 1,
                         ol_unit_price = 45, ol_line_total = 45\<rparr>],
      UpdateOrderStatus ''new-1'' ''PAID'',
      UpdateOrderVoided ''old-1'' ''2024-03-02T05:00:00.000Z'' ''owner-1'' ''wrong item'' ''new-1'']"
    by (simp add: finalize_defs writes_def is_write_def)
  show "alerts (snd (finalizeReplacement True editing_state
                     (draft_world [None, None, Some ''insert failed'']))) =
     [ErrorMessage ''insert failed'', ReplacementFinalized]"
    by (simp add: finalize_defs)
  show "filter (\<lambda>l. ol_order_id l = ''new-1'')
       (order_lines (snd (finalizeReplacement True editing_state
                            (draft_world [None, None, Some ''insert failed''])))) = []"
    by (simp add: finalize_defs)
  show "map (\<lambda>r. (o_id r, o_status r, o_total_amount r))
       (orders (snd (finalizeReplacement True editing_state
                       (draft_world [None, None, Some ''insert failed''])))) =
     [(''old-1'', Some ''VOIDED'', 60), (''new-1'', Some ''PAID'', 60)]"
    by (simp add: finalize_defs)
  show "replaceMode (fst (finalizeReplacement True editing_state
                          (draft_world [None, None, Some ''insert failed'']))) = False"
    by (simp add: finalize_defs)
qed

text \<open>
  An error of one of the two status updates, which \<open>finalizeReplacement\<close> issues itself,
  does abort it: when the PAID update fails, the VOIDED update is not sent, the error is
  shown and the editor stays open.
\<close>

lemma finalizeReplacement_aborts_on_own_error:
  "writes (snd (finalizeReplacement True editing_state
                  (draft_world [None, None, None, None, Some ''update failed'']))) =
     [DeleteOrderLines ''new-1'',
      InsertOrderLines [\<lparr>ol_order_id = ''new-1'', ol_menu_item_id = ''m1'', ol_qty = 1,
                         ol_unit_price = 45, ol_line_total = 45\<rparr>],
      UpdateOrderTotal ''new-1'' 45,
      UpdateOrderStatus ''new-1'' ''PAID'']
   \<and> alerts (snd (finalizeReplacement True editing_state
                     (draft_world [None, None, None, None, Some ''update failed'']))) =
     [DraftSaved, ErrorMessage ''update failed'']
   \<and> replaceMode (fst (finalizeReplacement True editing_state
                          (draft_world [None, None, None, None, Some ''update failed''])))"
  by (simp add: finalize_defs writes_def is_write_def)

section \<open>What each backend request does\<close>

lemma call_effect:
  assumes "call r w = (e, w')"
  shows "orders w' = orders w" "order_lines w' = order_lines w" "menu_names w' = menu_names w"
    "session_user w' = session_user w" "new_order_id w' = new_order_id w" "clock w' = clock w"
    "alerts w' = alerts w" "requests w' = requests w @ [r]"
  using assms by (auto simp: call_def split: list.splits)

lemma select_order_single_effect:
  assumes "select_order_single oid w = (res, w')"
  shows "orders w' = orders w" "order_lines w' = order_lines w" "menu_names w' = menu_names w"
    "new_order_id w' = new_order_id w" "clock w' = clock w" "alerts w' = alerts w"
    "requests w' = requests w @ [SelectOrderSingle oid]"
    "res = Inr old \<Longrightarrow> filter (\<lambda>r. o_id r = oid) (orders w) = [old]"
proof -
  obtain e w1 where c: "call (SelectOrderSingle oid) w = (e, w1)"
    by (cases "call (SelectOrderSingle oid) w") auto
  note eff = call_effect [OF c]
  from assms c have w': "w' = w1"
    by (auto simp: select_order_single_def split: option.splits list.splits)
  with eff show "orders w' = orders w" "order_lines w' = order_lines w" "menu_names w' = menu_names w"
    "new_order_id w' = new_order_id w" "clock w' = clock w" "alerts w' = alerts w"
    "requests w' = requests w @ [SelectOrderSingle oid]"
    by simp_all
  assume "res = Inr old"
  with assms c eff(1) show "filter (\<lambda>r. o_id r = oid) (orders w) = [old]"
    by (auto simp: select_order_single_def split: option.splits list.splits)
qed

lemma select_order_lines_effect:
  assumes "select_order_lines oid w = (res, w')"
  shows "orders w' = orders w" "order_lines w' = order_lines w" "menu_names w' = menu_names w"
    "new_order_id w' = new_order_id w" "clock w' = clock w" "alerts w' = alerts w"
    "requests w' = requests w @ [SelectOrderLines oid]"
    "res = Inr ls \<Longrightarrow> map fst ls = filter (\<lambda>l. ol_order_id l = oid) (order_lines w)"
proof -
  obtain e w1 where c: "call (SelectOrderLines oid) w = (e, w1)"
    by (cases "call (SelectOrderLines oid) w") auto
  note eff = call_effect [OF c]
  from assms c have w': "w' = w1"
    by (auto simp: select_order_lines_def split: option.splits)
  with eff show "orders w' = orders w" "order_lines w' = order_lines w" "menu_names w' = menu_names w"
    "new_order_id w' = new_order_id w" "clock w' = clock w" "alerts w' = alerts w"
    "requests w' = requests w @ [SelectOrderLines oid]"
    by simp_all
  assume "res = Inr ls"
  with assms c eff(2) show "map fst ls = filter (\<lambda>l. ol_order_id l = oid) (order_lines w)"
    by (auto simp: select_order_lines_def comp_def split: option.splits)
qed

lemma insert_order_effect:
  assumes "insert_order p w = (res, w')"
  shows "order_lines w' = order_lines w" "new_order_id w' = new_order_id w" "clock w' = clock w"
    "alerts w' = alerts w" "requests w' = requests w @ [InsertOrder p]"
    "res = Inr i \<Longrightarrow> i = new_order_id w \<and> orders w' = orders w @ [new_order_row (new_order_id w) (clock w) p]"
    "res = Inl m \<Longrightarrow> orders w' = orders w"
proof -
  obtain e w1 where c: "call (InsertOrder p) w = (e, w1)"
    by (cases "call (InsertOrder p) w") auto
  note eff = call_effect [OF c]
  from assms c eff show "order_lines w' = order_lines w" "new_order_id w' = new_order_id w"
    "clock w' = clock w" "alerts w' = alerts w" "requests w' = requests w @ [InsertOrder p]"
    by (auto simp: insert_order_def split: option.splits)
  show "res = Inr i \<Longrightarrow> i = new_order_id w \<and> orders w' = orders w @ [new_order_row (new_order_id w) (clock w) p]"
    using assms c eff by (auto simp: insert_order_def split: option.splits)
  show "res = Inl m \<Longrightarrow> orders w' = orders w"
    using assms c eff by (auto simp: insert_order_def split: option.splits)
qed

lemma insert_order_lines_effect:
  assumes "insert_order_lines ls w = (res, w')"
  shows "orders w' = orders w" "new_order_id w' = new_order_id w" "clock w' = clock w"
    "alerts w' = alerts w" "requests w' = requests w @ [InsertOrderLines ls]"
    "res = None \<Longrightarrow> order_lines w' = order_lines w @ ls"
    "res = Some m \<Longrightarrow> order_lines w' = order_lines w"
proof -
  obtain e w1 where c: "call (InsertOrderLines ls) w = (e, w1)"
    by (cases "call (InsertOrderLines ls) w") auto
  note eff = call_effect [OF c]
  from assms c eff show "orders w' = orders w" "new_order_id w' = new_order_id w"
    "clock w' = clock w" "alerts w' = alerts w" "requests w' = requests w @ [InsertOrderLines ls]"
    by (auto simp: insert_order_lines_def split: option.splits)
  show "res = None \<Longrightarrow> order_lines w' = order_lines w @ ls"
    using assms c eff by (auto simp: insert_order_lines_def split: option.splits)
  show "res = Some m \<Longrightarrow> order_lines w' = order_lines w"
    using assms c eff by (auto simp: insert_order_lines_def split: option.splits)
qed


lemma delete_order_lines_effect:
  assumes "delete_order_lines oid w = (res, w')"
  shows "orders w' = orders w" "alerts w' = alerts w"
    "requests w' = requests w @ [DeleteOrderLines oid]"
    "res = None \<Longrightarrow> order_lines w' = filter (\<lambda>l. ol_order_id l \<noteq> oid) (order_lines w)"
    "res = Some m \<Longrightarrow> order_lines w' = order_lines w"
proof -
  obtain e w1 where c: "call (DeleteOrderLines oid) w = (e, w1)"
    by (cases "call (DeleteOrderLines oid) w") auto
  note eff = call_effect [OF c]
  from assms c eff show "orders w' = orders w" "alerts w' = alerts w"
    "requests w' = requests w @ [DeleteOrderLines oid]"
    by (auto simp: delete_order_lines_def split: option.splits)
  show "res = None \<Longrightarrow> order_lines w' = filter (\<lambda>l. ol_order_id l \<noteq> oid) (order_lines w)"
    using assms c eff by (auto simp: delete_order_lines_def split: option.splits)
  show "res = Some m \<Longrightarrow> order_lines w' = order_lines w"
    using assms c eff by (auto simp: delete_order_lines_def split: option.splits)
qed

lemma update_order_total_effect:
  assumes "update_order_total oid t w = (res, w')"
  shows "order_lines w' = order_lines w" "alerts w' = alerts w"
    "requests w' = requests w @ [UpdateOrderTotal oid t]"
    "res = None \<Longrightarrow> orders w' =
       map (\<lambda>r. if o_id r = oid then r\<lparr>o_total_amount := t\<rparr> else r) (orders w)"
    "res = Some m \<Longrightarrow> orders w' = orders w"
proof -
  obtain e w1 where c: "call (UpdateOrderTotal oid t) w = (e, w1)"
    by (cases "call (UpdateOrderTotal oid t) w") auto
  note eff = call_effect [OF c]
  from assms c eff show "order_lines w' = order_lines w" "alerts w' = alerts w"
    "requests w' = requests w @ [UpdateOrderTotal oid t]"
    by (auto simp: update_order_total_def split: option.splits)
  show "res = None \<Longrightarrow> orders w' =
       map (\<lambda>r. if o_id r = oid then r\<lparr>o_total_amount := t\<rparr> else r) (orders w)"
    using assms c eff by (auto simp: update_order_total_def split: option.splits)
  show "res = Some m \<Longrightarrow> orders w' = orders w"
    using assms c eff by (auto simp: update_order_total_def split: option.splits)
qed

section \<open>Starting a replacement copies the order\<close>

lemma copy_payload:
  "map (\<lambda>(l, n). \<lparr>ol_order_id = newId, ol_menu_item_id = ol_menu_item_id l, ol_qty = ol_qty l,
                   ol_unit_price = ol_unit_price l, ol_line_total = ol_line_total l\<rparr>) ls =
   map (\<lambda>l. l\<lparr>ol_order_id := newId\<rparr>) (map fst ls)"
  by (induction ls) (auto simp: case_prod_beta)

lemma startVoidAndReplace_try_alerts:
  assumes "startVoidAndReplace_try oid st w = (res, w')"
  shows "alerts w' = alerts w"
proof -
  obtain r1 w1 where s1: "select_order_single oid w = (r1, w1)"
    by (cases "select_order_single oid w") auto
  obtain r2 w2 where s2: "select_order_lines oid w1 = (r2, w2)"
    by (cases "select_order_lines oid w1") auto
  note e1 = select_order_single_effect(6) [OF s1]
  note e2 = select_order_lines_effect(6) [OF s2]
  show ?thesis
  proof (cases r1)
    case (Inl m)
    with assms s1 e1 show ?thesis
      by (simp add: startVoidAndReplace_try_def)
  next
    case old: (Inr old)
    show ?thesis
    proof (cases r2)
      case (Inl m)
      with assms s1 s2 old e1 e2 show ?thesis
        by (simp add: startVoidAndReplace_try_def)
    next
      case ls: (Inr ls)
      let ?p = "\<lparr>ins_branch_id = o_branch_id old, ins_created_by = None,
                 ins_payment_type = o_payment_type old, ins_status = ''DRAFT'',
                 ins_total_amount = o_total_amount old, ins_replaces = Some oid\<rparr>"
      obtain r3 w3 where s3: "insert_order ?p w2 = (r3, w3)"
        by (cases "insert_order ?p w2") auto
      note e3 = insert_order_effect(4) [OF s3]
      show ?thesis
      proof (cases r3)
        case (Inl m)
        with assms s1 s2 s3 old ls e1 e2 e3 show ?thesis
          by (simp add: startVoidAndReplace_try_def)
      next
        case newId: (Inr newId)
        let ?pl = "map (\<lambda>(l, n). \<lparr>ol_order_id = newId, ol_menu_item_id = ol_menu_item_id l,
                      ol_qty = ol_qty l, ol_unit_price = ol_unit_price l,
                      ol_line_total = ol_line_total l\<rparr>) ls"
        obtain r4 w4 where s4: "insert_order_lines ?pl w3 = (r4, w4)"
          by (cases "insert_order_lines ?pl w3") auto
        note e4 = insert_order_lines_effect(4) [OF s4]
        from assms s1 s2 s3 s4 old ls newId e1 e2 e3 e4 show ?thesis
          by (auto simp: startVoidAndReplace_try_def Let_def split: if_splits option.splits)
      qed
    qed
  qed
qed


lemma editor_payload:
  "map (\<lambda>l. (rl_menu_item_id l, rl_qty l, rl_unit_price l))
     (map (\<lambda>(l, n). \<lparr>rl_id = ol_menu_item_id l, rl_menu_item_id = ol_menu_item_id l,
                       rl_name = (case n of Some nm \<Rightarrow> nm | None \<Rightarrow> ''Unknown''),
                       rl_unit_price = ol_unit_price l, rl_qty = ol_qty l\<rparr>) ls) =
   map (\<lambda>l. (ol_menu_item_id l, ol_qty l, ol_unit_price l)) (map fst ls)"
  by (induction ls) (auto simp: case_prod_beta)

lemma startVoidAndReplace_try_Inr:
  assumes "startVoidAndReplace_try oid st w = (Inr st', w')"
  shows "\<exists>old. filter (\<lambda>r. o_id r = oid) (orders w) = [old]
         \<and> orders w' = orders w @
              [new_order_row (new_order_id w) (clock w)
                 \<lparr>ins_branch_id = o_branch_id old, ins_created_by = None,
                  ins_payment_type = o_payment_type old, ins_status = ''DRAFT'',
                  ins_total_amount = o_total_amount old, ins_replaces = Some oid\<rparr>]
         \<and> order_lines w' = order_lines w @
              map (\<lambda>l. l\<lparr>ol_order_id := new_order_id w\<rparr>)
                (filter (\<lambda>l. ol_order_id l = oid) (order_lines w))
         \<and> replaceMode st' \<and> replaceOldId st' = Some oid \<and> replaceNewId st' = Some (new_order_id w)
         \<and> map (\<lambda>l. (rl_menu_item_id l, rl_qty l, rl_unit_price l)) (replaceLines st') =
             map (\<lambda>l. (ol_menu_item_id l, ol_qty l, ol_unit_price l))
               (filter (\<lambda>l. ol_order_id l = oid) (order_lines w))"
proof -
  obtain r1 w1 where s1: "select_order_single oid w = (r1, w1)"
    by (cases "select_order_single oid w") auto
  obtain r2 w2 where s2: "select_order_lines oid w1 = (r2, w2)"
    by (cases "select_order_lines oid w1") auto
  note e1 = select_order_single_effect [OF s1]
  note e2 = select_order_lines_effect [OF s2]
  from assms s1 obtain old where old: "r1 = Inr old"
    by (cases r1) (auto simp: startVoidAndReplace_try_def)
  from assms s1 s2 old obtain ls where ls: "r2 = Inr ls"
    by (cases r2) (auto simp: startVoidAndReplace_try_def)
  let ?p = "\<lparr>ins_branch_id = o_branch_id old, ins_created_by = None,
             ins_payment_type = o_payment_type old, ins_status = ''DRAFT'',
             ins_total_amount = o_total_amount old, ins_replaces = Some oid\<rparr>"
  obtain r3 w3 where s3: "insert_order ?p w2 = (r3, w3)"
    by (cases "insert_order ?p w2") auto
  note e3 = insert_order_effect [OF s3]
  from assms s1 s2 s3 old ls obtain newId where newId: "r3 = Inr newId"
    by (cases r3) (auto simp: startVoidAndReplace_try_def)
  have nid: "newId = new_order_id w"
    using e3(6) [OF newId] e2(4) e1(4) by simp
  have ords: "orders w3 = orders w @ [new_order_row (new_order_id w) (clock w) ?p]"
    using e3(6) [OF newId] e2(1,4,5) e1(1,4,5) by simp
  have lns3: "order_lines w3 = order_lines w"
    using e3(1) e2(2) e1(2) by simp
  have oldl: "map fst ls = filter (\<lambda>l. ol_order_id l = oid) (order_lines w)"
    using e2(8) [OF ls] e1(2) by simp
  have flt: "filter (\<lambda>r. o_id r = oid) (orders w) = [old]"
    using e1(8) [OF old] .
  let ?pl = "map (\<lambda>(l, n). \<lparr>ol_order_id = newId, ol_menu_item_id = ol_menu_item_id l,
                ol_qty = ol_qty l, ol_unit_price = ol_unit_price l,
                ol_line_total = ol_line_total l\<rparr>) ls"
  let ?ed = "map (\<lambda>(l, n). \<lparr>rl_id = ol_menu_item_id l, rl_menu_item_id = ol_menu_item_id l,
                       rl_name = (case n of Some nm \<Rightarrow> nm | None \<Rightarrow> ''Unknown''),
                       rl_unit_price = ol_unit_price l, rl_qty = ol_qty l\<rparr>) ls"
  have pl: "?pl = map (\<lambda>l. l\<lparr>ol_order_id := new_order_id w\<rparr>)
                    (filter (\<lambda>l. ol_order_id l = oid) (order_lines w))"
    using copy_payload [of newId ls] oldl nid by simp
  have ed: "map (\<lambda>l. (rl_menu_item_id l, rl_qty l, rl_unit_price l)) ?ed =
            map (\<lambda>l. (ol_menu_item_id l, ol_qty l, ol_unit_price l))
               (filter (\<lambda>l. ol_order_id l = oid) (order_lines w))"
    using editor_payload [of ls] oldl by simp
  have tables_state: "orders w' = orders w3
        \<and> order_lines w' = order_lines w3 @ ?pl
        \<and> replaceMode st' \<and> replaceOldId st' = Some oid \<and> replaceNewId st' = Some newId
        \<and> replaceLines st' = ?ed"
  proof (cases "ls = []")
    case True
    with assms s1 s2 s3 old ls newId show ?thesis
      by (auto simp: startVoidAndReplace_try_def)
  next
    case False
    obtain r4 w4 where s4: "insert_order_lines ?pl w3 = (r4, w4)"
      by (cases "insert_order_lines ?pl w3") auto
    note e4 = insert_order_lines_effect [OF s4]
    from assms s1 s2 s3 s4 old ls newId False have r4: "r4 = None"
      by (cases r4) (auto simp: startVoidAndReplace_try_def)
    from assms s1 s2 s3 s4 old ls newId False r4
    have "w' = w4" and "st' = st\<lparr>replaceMode := True, replaceOldId := Some oid,
            replaceNewId := Some newId, replaceLines := ?ed, voidReason := [],
            replaceBranchLabel := (case branchNameById (branches st) (o_branch_id old) of
                                     Some nm \<Rightarrow> nm | None \<Rightarrow> o_branch_id old)\<rparr>"
      by (auto simp: startVoidAndReplace_try_def)
    with e4(1) e4(6) [OF r4] show ?thesis
      by simp
  qed
  from tables_state ords lns3 pl ed nid flt show ?thesis
    by simp
qed

text \<open>
  C3. After a successful \<open>startVoidAndReplace oldOrderId\<close> (the dialogue was confirmed
  and no error was shown), the old order exists once, the \<open>orders\<close> table has gained
  exactly one row, which carries the old order's branch, payment type and total, the
  status DRAFT and \<open>replaces = oldOrderId\<close>, and the \<open>order_lines\<close> table has gained
  exactly the old order's lines, each unchanged in menu item, quantity, unit price and
  line total and attached to the new order's id. The editor is open on the new id with
  one line per copied line.
\<close>

theorem startVoidAndReplace_copies_order:
  assumes run: "startVoidAndReplace ok oldOrderId st w = (st', w')"
    and confirmed: "ok"
    and no_error_shown: "alerts w' = alerts w"
  shows "\<exists>old. filter (\<lambda>r. o_id r = oldOrderId) (orders w) = [old]
         \<and> orders w' = orders w @
              [\<lparr>o_id = new_order_id w, o_branch_id = o_branch_id old, o_created_at = clock w,
                o_created_by = None, o_payment_type = o_payment_type old,
                o_total_amount = o_total_amount old, o_status = Some ''DRAFT'',
                o_replaces = Some oldOrderId, o_replaced_by = None, o_voided_at = None,
                o_voided_by = None, o_void_reason = None\<rparr>]
         \<and> order_lines w' = order_lines w @
              map (\<lambda>l. l\<lparr>ol_order_id := new_order_id w\<rparr>)
                (filter (\<lambda>l. ol_order_id l = oldOrderId) (order_lines w))
         \<and> replaceMode st' \<and> replaceOldId st' = Some oldOrderId
         \<and> replaceNewId st' = Some (new_order_id w)
         \<and> map (\<lambda>l. (rl_menu_item_id l, rl_qty l, rl_unit_price l)) (replaceLines st') =
             map (\<lambda>l. (ol_menu_item_id l, ol_qty l, ol_unit_price l))
               (filter (\<lambda>l. ol_order_id l = oldOrderId) (order_lines w))"
proof -
  obtain res w1 where t: "startVoidAndReplace_try oldOrderId (st\<lparr>replaceSaving := True\<rparr>) w = (res, w1)"
    by (cases "startVoidAndReplace_try oldOrderId (st\<lparr>replaceSaving := True\<rparr>) w") auto
  have a1: "alerts w1 = alerts w"
    using startVoidAndReplace_try_alerts [OF t] .
  show ?thesis
  proof (cases res)
    case (Inl m)
    with run confirmed t have "w' = alert (ErrorMessage m) w1"
      by (simp add: startVoidAndReplace_def)
    with a1 no_error_shown show ?thesis
      by (simp add: alert_def)
  next
    case (Inr st1)
    with run confirmed t have eq: "w' = w1" "st' = st1\<lparr>replaceSaving := False\<rparr>"
      by (simp_all add: startVoidAndReplace_def)
    from t Inr have "startVoidAndReplace_try oldOrderId (st\<lparr>replaceSaving := True\<rparr>) w = (Inr st1, w1)"
      by simp
    from startVoidAndReplace_try_Inr [OF this] eq show ?thesis
      by (simp add: new_order_row_def)
  qed
qed

theorem startVoidAndReplace_copies_order_witness:
  "alerts (snd (startVoidAndReplace True ''old-1'' idle_state shop_world)) = alerts shop_world
   \<and> map (\<lambda>r. (o_id r, o_branch_id r, o_payment_type r, o_total_amount r, o_status r, o_replaces r))
        (orders (snd (startVoidAndReplace True ''old-1'' idle_state shop_world))) =
      [(''old-1'', ''b1'', CASH, 60, Some ''NEW'', None),
       (''new-1'', ''b1'', CASH, 60, Some ''DRAFT'', Some ''old-1'')]
   \<and> order_lines (snd (startVoidAndReplace True ''old-1'' idle_state shop_world)) =
      [\<lparr>ol_order_id = ''old-1'', ol_menu_item_id = ''m2'', ol_qty = 2, ol_unit_price = 30,
        ol_line_total = 60\<rparr>,
       \<lparr>ol_order_id = ''new-1'', ol_menu_item_id = ''m2'', ol_qty = 2, ol_unit_price = 30,
        ol_line_total = 60\<rparr>]
   \<and> replaceNewId (fst (startVoidAndReplace True ''old-1'' idle_state shop_world)) = Some ''new-1''"
proof -
  let ?r = "startVoidAndReplace True ''old-1'' idle_state shop_world"
  have run: "?r = (fst ?r, snd ?r)"
    by simp
  have quiet: "alerts (snd ?r) = alerts shop_world"
    by (simp add: startVoidAndReplace_def startVoidAndReplace_try_def backend_defs
        idle_state_def shop_world_def new_order_row_def Let_def)
  from startVoidAndReplace_copies_order [OF run TrueI quiet] obtain old where
    old: "filter (\<lambda>r. o_id r = ''old-1'') (orders shop_world) = [old]"
    and ords: "orders (snd ?r) = orders shop_world @
              [\<lparr>o_id = new_order_id shop_world, o_branch_id = o_branch_id old,
                o_created_at = clock shop_world, o_created_by = None,
                o_payment_type = o_payment_type old, o_total_amount = o_total_amount old,
                o_status = Some ''DRAFT'', o_replaces = Some ''old-1'', o_replaced_by = None,
                o_voided_at = None, o_voided_by = None, o_void_reason = None\<rparr>]"
    and lns: "order_lines (snd ?r) = order_lines shop_world @
              map (\<lambda>l. l\<lparr>ol_order_id := new_order_id shop_world\<rparr>)
                (filter (\<lambda>l. ol_order_id l = ''old-1'') (order_lines shop_world))"
    and nid: "replaceNewId (fst ?r) = Some (new_order_id shop_world)"
    by blast
  from old have old_eq: "old = hd (orders shop_world)"
    by (simp add: shop_world_def)
  from ords old_eq have
    "map (\<lambda>r. (o_id r, o_branch_id r, o_payment_type r, o_total_amount r, o_status r, o_replaces r))
        (orders (snd ?r)) =
      [(''old-1'', ''b1'', CASH, 60, Some ''NEW'', None),
       (''new-1'', ''b1'', CASH, 60, Some ''DRAFT'', Some ''old-1'')]"
    by (simp add: shop_world_def)
  moreover from lns have "order_lines (snd ?r) =
      [\<lparr>ol_order_id = ''old-1'', ol_menu_item_id = ''m2'', ol_qty = 2, ol_unit_price = 30,
        ol_line_total = 60\<rparr>,
       \<lparr>ol_order_id = ''new-1'', ol_menu_item_id = ''m2'', ol_qty = 2, ol_unit_price = 30,
        ol_line_total = 60\<rparr>]"
    by (simp add: shop_world_def)
  moreover from nid have "replaceNewId (fst ?r) = Some ''new-1''"
    by (simp add: shop_world_def)
  ultimately show ?thesis
    using quiet by simp
qed


text \<open>
  The replacement editor is opened by a successful \<open>startVoidAndReplace\<close>, on the order
  it was called for and the draft the backend created; \<open>cancelReplacement\<close> closes it.
\<close>

lemma startVoidAndReplace_opens_editor:
  assumes run: "startVoidAndReplace ok oldOrderId st w = (st', w')"
    and confirmed: "ok"
    and no_error_shown: "alerts w' = alerts w"
    and ids: "oldOrderId \<noteq> []" "new_order_id w \<noteq> []"
  shows "editor_open st'"
proof -
  obtain res w1 where t: "startVoidAndReplace_try oldOrderId (st\<lparr>replaceSaving := True\<rparr>) w = (res, w1)"
    by (cases "startVoidAndReplace_try oldOrderId (st\<lparr>replaceSaving := True\<rparr>) w") auto
  have a1: "alerts w1 = alerts w"
    using startVoidAndReplace_try_alerts [OF t] .
  show ?thesis
  proof (cases res)
    case (Inl m)
    with run confirmed t have "w' = alert (ErrorMessage m) w1"
      by (simp add: startVoidAndReplace_def)
    with a1 no_error_shown show ?thesis
      by (simp add: alert_def)
  next
    case (Inr st1)
    with run confirmed t have eq: "st' = st1\<lparr>replaceSaving := False\<rparr>"
      by (simp_all add: startVoidAndReplace_def)
    from t Inr have "startVoidAndReplace_try oldOrderId (st\<lparr>replaceSaving := True\<rparr>) w = (Inr st1, w1)"
      by simp
    from startVoidAndReplace_try_Inr [OF this] eq ids show ?thesis
      by (auto simp: editor_open_def falsy_def)
  qed
qed

lemma cancelReplacement_closes_editor:
  "\<not> editor_open (cancelReplacement True st)"
  by (simp add: cancelReplacement_def editor_open_def)

section \<open>Saving the draft twice\<close>

lemma saveReplacementDraft_try_result:
  assumes "saveReplacementDraft_try newId ls w = (res, w')"
  shows "res = None \<Longrightarrow>
           order_lines w' = filter (\<lambda>l. ol_order_id l \<noteq> newId) (order_lines w) @ draft_payload newId ls
           \<and> orders w' = map (\<lambda>r. if o_id r = newId then r\<lparr>o_total_amount := replaceTotal ls\<rparr> else r)
                            (orders w)
           \<and> alerts w' = alerts w @ [DraftSaved]"
    and "res = Some m \<Longrightarrow> alerts w' = alerts w"
proof -
  obtain r1 w1 where s1: "delete_order_lines newId w = (r1, w1)"
    by (cases "delete_order_lines newId w") auto
  note e1 = delete_order_lines_effect [OF s1]
  obtain r2 w2 where s2: "(if draft_payload newId ls \<noteq> [] then insert_order_lines (draft_payload newId ls) w1
                           else (None, w1)) = (r2, w2)"
    by (cases "(if draft_payload newId ls \<noteq> [] then insert_order_lines (draft_payload newId ls) w1
                else (None, w1))") auto
  have e2: "orders w2 = orders w1" "alerts w2 = alerts w1"
    "r2 = None \<Longrightarrow> order_lines w2 = order_lines w1 @ draft_payload newId ls"
    using s2 insert_order_lines_effect [of "draft_payload newId ls" w1 r2 w2]
    by (auto split: if_splits)
  obtain r3 w3 where s3: "update_order_total newId (replaceTotal ls) w2 = (r3, w3)"
    by (cases "update_order_total newId (replaceTotal ls) w2") auto
  note e3 = update_order_total_effect [OF s3]
  have "saveReplacementDraft_try newId ls w =
     (case r1 of Some e1 \<Rightarrow> (Some e1, w1)
      | None \<Rightarrow> (case r2 of Some e \<Rightarrow> (Some e, w2)
                  | None \<Rightarrow> (case r3 of Some e3 \<Rightarrow> (Some e3, w3)
                              | None \<Rightarrow> (None, alert DraftSaved w3))))"
  proof (cases r1)
    case (Some e1)
    then show ?thesis
      using s1 by (simp add: saveReplacementDraft_try_def)
  next
    case r1n: None
    show ?thesis
    proof (cases r2)
      case (Some e)
      then show ?thesis
        using s1 s2 r1n by (simp add: saveReplacementDraft_try_def Let_def)
    next
      case r2n: None
      then show ?thesis
        using s1 s2 s3 r1n by (cases r3) (simp_all add: saveReplacementDraft_try_def Let_def)
    qed
  qed
  with assms have unfold: "(res, w') =
     (case r1 of Some e1 \<Rightarrow> (Some e1, w1)
      | None \<Rightarrow> (case r2 of Some e \<Rightarrow> (Some e, w2)
                  | None \<Rightarrow> (case r3 of Some e3 \<Rightarrow> (Some e3, w3)
                              | None \<Rightarrow> (None, alert DraftSaved w3))))"
    by simp
  show "res = None \<Longrightarrow>
           order_lines w' = filter (\<lambda>l. ol_order_id l \<noteq> newId) (order_lines w) @ draft_payload newId ls
           \<and> orders w' = map (\<lambda>r. if o_id r = newId then r\<lparr>o_total_amount := replaceTotal ls\<rparr> else r)
                            (orders w)
           \<and> alerts w' = alerts w @ [DraftSaved]"
    using unfold e1 e2 e3 by (auto simp: alert_def split: option.splits)
  show "res = Some m \<Longrightarrow> alerts w' = alerts w"
    using unfold e1 e2 e3 by (auto simp: alert_def split: option.splits)
qed


lemma saveReplacementDraft_saved:
  assumes "saveReplacementDraft st w = (st1, w1)" and "alerts w1 = alerts w @ [DraftSaved]"
  shows "\<exists>newId. replaceNewId st = Some newId
           \<and> saveReplacementDraft_try newId (replaceLines st) w = (None, w1)
           \<and> replaceLines st1 = replaceLines st \<and> replaceNewId st1 = replaceNewId st"
proof (cases "replaceNewId st")
  case None
  with assms show ?thesis
    by (simp add: saveReplacementDraft_def)
next
  case (Some newId)
  obtain r w' where t: "saveReplacementDraft_try newId (replaceLines st) w = (r, w')"
    by (cases "saveReplacementDraft_try newId (replaceLines st) w") auto
  show ?thesis
  proof (cases "newId = []")
    case True
    with assms Some show ?thesis
      by (simp add: saveReplacementDraft_def)
  next
    case False
    show ?thesis
    proof (cases r)
      case None
      with assms Some False t show ?thesis
        by (auto simp: saveReplacementDraft_def)
    next
      case (Some m)
      with saveReplacementDraft_try_result(2) [OF t] have "alerts w' = alerts w"
        by simp
      with assms \<open>replaceNewId st = Some newId\<close> False t Some show ?thesis
        by (auto simp: saveReplacementDraft_def alert_def)
    qed
  qed
qed

lemma filter_draft_payload:
  "filter (\<lambda>l. ol_order_id l \<noteq> newId) (draft_payload newId ls) = []"
  "filter (\<lambda>l. ol_order_id l = newId) (draft_payload newId ls) = draft_payload newId ls"
  by (induction ls) (simp_all add: draft_payload_def)

lemma filter_eq_neq: "filter (\<lambda>l. ol_order_id l = n) (filter (\<lambda>l. ol_order_id l \<noteq> n) xs) = []"
  by (induction xs) simp_all

lemma map_total_twice:
  "map (\<lambda>r. if o_id r = n then r\<lparr>o_total_amount := t\<rparr> else r)
     (map (\<lambda>r. if o_id r = n then r\<lparr>o_total_amount := t\<rparr> else r) xs) =
   map (\<lambda>r. if o_id r = n then r\<lparr>o_total_amount := t\<rparr> else r) xs"
  by (induction xs) simp_all

lemma map_total_all:
  "list_all (\<lambda>r. o_id r = n \<longrightarrow> o_total_amount r = t)
     (map (\<lambda>r. if o_id r = n then r\<lparr>o_total_amount := t\<rparr> else r) xs)"
  by (induction xs) simp_all

text \<open>
  C4. When \<open>saveReplacementDraft\<close> is called twice in succession and both calls go
  through to "Draft saved", the second call changes neither table: the persisted order
  lines and the persisted orders (so the total) are the same after each call. After
  each of them the lines attached to the new order id are exactly the payload built
  from the in-memory lines, which the call leaves unchanged, and every order row with
  that id carries their total.
\<close>

theorem saveReplacementDraft_idempotent:
  assumes first: "saveReplacementDraft st w = (st1, w1)"
    and second: "saveReplacementDraft st1 w1 = (st2, w2)"
    and saved1: "alerts w1 = alerts w @ [DraftSaved]"
    and saved2: "alerts w2 = alerts w1 @ [DraftSaved]"
  shows "replaceLines st1 = replaceLines st
       \<and> order_lines w2 = order_lines w1 \<and> orders w2 = orders w1
       \<and> (\<exists>newId. replaceNewId st = Some newId
            \<and> filter (\<lambda>l. ol_order_id l = newId) (order_lines w1) = draft_payload newId (replaceLines st)
            \<and> list_all (\<lambda>r. o_id r = newId \<longrightarrow> o_total_amount r = replaceTotal (replaceLines st))
                 (orders w1))"
proof -
  from saveReplacementDraft_saved [OF first saved1] obtain newId where
    n: "replaceNewId st = Some newId"
    and t1: "saveReplacementDraft_try newId (replaceLines st) w = (None, w1)"
    and same: "replaceLines st1 = replaceLines st" "replaceNewId st1 = replaceNewId st"
    by blast
  from saveReplacementDraft_saved [OF second saved2] same n
  have t2: "saveReplacementDraft_try newId (replaceLines st) w1 = (None, w2)"
    by auto
  let ?P = "draft_payload newId (replaceLines st)"
  let ?T = "replaceTotal (replaceLines st)"
  from saveReplacementDraft_try_result(1) [OF t1]
  have l1: "order_lines w1 = filter (\<lambda>l. ol_order_id l \<noteq> newId) (order_lines w) @ ?P"
    and o1: "orders w1 = map (\<lambda>r. if o_id r = newId then r\<lparr>o_total_amount := ?T\<rparr> else r) (orders w)"
    by simp_all
  from saveReplacementDraft_try_result(1) [OF t2]
  have l2: "order_lines w2 = filter (\<lambda>l. ol_order_id l \<noteq> newId) (order_lines w1) @ ?P"
    and o2: "orders w2 = map (\<lambda>r. if o_id r = newId then r\<lparr>o_total_amount := ?T\<rparr> else r) (orders w1)"
    by simp_all
  have "order_lines w2 = order_lines w1"
    by (simp add: l2 l1 filter_draft_payload)
  moreover have "orders w2 = orders w1"
    by (simp add: o2 o1 map_total_twice)
  moreover have "filter (\<lambda>l. ol_order_id l = newId) (order_lines w1) = ?P"
    by (simp add: l1 filter_draft_payload filter_eq_neq)
  moreover have "list_all (\<lambda>r. o_id r = newId \<longrightarrow> o_total_amount r = ?T) (orders w1)"
    unfolding o1 by (rule map_total_all)
  ultimately show ?thesis
    using same n by simp
qed

theorem saveReplacementDraft_idempotent_witness:
  "alerts (snd (saveReplacementDraft editing_state (draft_world []))) =
     alerts (draft_world []) @ [DraftSaved]
   \<and> alerts (snd (saveReplacementDraft (fst (saveReplacementDraft editing_state (draft_world [])))
                     (snd (saveReplacementDraft editing_state (draft_world []))))) =
     alerts (snd (saveReplacementDraft editing_state (draft_world []))) @ [DraftSaved]
   \<and> order_lines (snd (saveReplacementDraft (fst (saveReplacementDraft editing_state (draft_world [])))
                          (snd (saveReplacementDraft editing_state (draft_world []))))) =
     order_lines (snd (saveReplacementDraft editing_state (draft_world [])))
   \<and> orders (snd (saveReplacementDraft (fst (saveReplacementDraft editing_state (draft_world [])))
                     (snd (saveReplacementDraft editing_state (draft_world []))))) =
     orders (snd (saveReplacementDraft editing_state (draft_world [])))
   \<and> filter (\<lambda>l. ol_order_id l = ''new-1'')
        (order_lines (snd (saveReplacementDraft editing_state (draft_world [])))) =
     [\<lparr>ol_order_id = ''new-1'', ol_menu_item_id = ''m1'', ol_qty = 1, ol_unit_price = 45,
       ol_line_total = 45\<rparr>]"
proof -
  let ?r1 = "saveReplacementDraft editing_state (draft_world [])"
  let ?r2 = "saveReplacementDraft (fst ?r1) (snd ?r1)"
  note defs = saveReplacementDraft_def saveReplacementDraft_try_def draft_payload_def
    replaceTotal_def editing_state_def draft_world_def backend_defs Let_def js_whole
  have first: "?r1 = (fst ?r1, snd ?r1)" and second: "?r2 = (fst ?r2, snd ?r2)"
    by simp_all
  have saved1: "alerts (snd ?r1) = alerts (draft_world []) @ [DraftSaved]"
    by (simp add: defs)
  have saved2: "alerts (snd ?r2) = alerts (snd ?r1) @ [DraftSaved]"
    by (simp add: defs)
  have payload: "filter (\<lambda>l. ol_order_id l = ''new-1'') (order_lines (snd ?r1)) =
     [\<lparr>ol_order_id = ''new-1'', ol_menu_item_id = ''m1'', ol_qty = 1, ol_unit_price = 45,
       ol_line_total = 45\<rparr>]"
    by (simp add: defs)
  from saveReplacementDraft_idempotent [OF first second saved1 saved2] saved1 saved2 payload
  show ?thesis
    by simp
qed

section \<open>Rounded arithmetic on amounts\<close>

text \<open>
  A computed value stays close to the exact amount it stands for: reading a number,
  multiplying by a quantity and adding each cost a relative error of at most
  \<open>2 \<times> eps\<close>, and \<^verbatim>\<open>Number(x.toFixed(2))\<close> of a value that is close enough to a whole
  number of centavos is the binary64 value of that amount.
\<close>

lemma eps_pos: "0 < eps"
  by (simp add: eps_def)

lemma fl_near_eps:
  assumes "1 / 200 \<le> v"
  shows "\<bar>fl v - v\<bar> \<le> eps * v"
proof -
  from assms have v: "0 < v" "\<bar>v\<bar> = v"
    by simp_all
  from assms tiny have "2 powi (- 1022) \<le> \<bar>v\<bar>"
    by linarith
  from fl_rel_err [OF this] show ?thesis
    by (simp only: v eps_def) simp
qed

lemma near_exact: "0 \<le> e \<Longrightarrow> 0 \<le> t \<Longrightarrow> near e t t"
  by (simp add: near_def)

lemma near_mono: "near e v t \<Longrightarrow> e \<le> e' \<Longrightarrow> 0 \<le> t \<Longrightarrow> near e' v t"
proof -
  assume n: "near e v t" and e: "e \<le> e'" and t: "0 \<le> t"
  from e t have "e * t \<le> e' * t"
    by (rule mult_right_mono)
  with n show ?thesis
    by (simp add: near_def)
qed

lemma near_add: "near e a s \<Longrightarrow> near e b t \<Longrightarrow> near e (a + b) (s + t)"
proof -
  assume "near e a s" "near e b t"
  then have "\<bar>a - s\<bar> \<le> e * s" "\<bar>b - t\<bar> \<le> e * t"
    by (simp_all add: near_def)
  moreover have "\<bar>a + b - (s + t)\<bar> \<le> \<bar>a - s\<bar> + \<bar>b - t\<bar>"
    by linarith
  ultimately show ?thesis
    by (simp add: near_def distrib_left)
qed

lemma near_mult: "near e v t \<Longrightarrow> 0 \<le> q \<Longrightarrow> near e (v * q) (t * q)"
proof -
  assume n: "near e v t" and q: "0 \<le> q"
  have "\<bar>v * q - t * q\<bar> = \<bar>v - t\<bar> * q"
    using q by (simp add: left_diff_distrib [symmetric] abs_mult)
  also have "\<dots> \<le> e * t * q"
    using n q by (simp add: near_def mult_right_mono)
  finally show ?thesis
    by (simp add: near_def mult.assoc)
qed

lemma near_bounds:
  assumes "near e v t" "0 \<le> e" "e \<le> 1 / 2" "0 \<le> t"
  shows "t / 2 \<le> v" "v \<le> 2 * t"
proof -
  from assms(1) have a: "\<bar>v - t\<bar> \<le> e * t"
    by (simp add: near_def)
  from assms(3,4) have "e * t \<le> (1 / 2) * t"
    by (rule mult_right_mono)
  with a show "t / 2 \<le> v" "v \<le> 2 * t"
    using assms(4) by linarith+
qed

lemma near_fl:
  assumes n: "near e v t" and e: "0 \<le> e" "e \<le> 1 / 2" and t: "t = 0 \<or> 1 / 100 \<le> t"
  shows "near (e + 2 * eps) (fl v) t"
proof (cases "t = 0")
  case True
  with n have "v = 0"
    by (simp add: near_def)
  with True show ?thesis
    by (simp add: near_def fl_0)
next
  case False
  with t have t100: "1 / 100 \<le> t"
    by simp
  then have t0: "0 \<le> t"
    by linarith
  note b = near_bounds [OF n e t0]
  from b(1) t100 have "1 / 200 \<le> v"
    by linarith
  from fl_near_eps [OF this] have "\<bar>fl v - v\<bar> \<le> eps * v" .
  also have "\<dots> \<le> eps * (2 * t)"
    using b(2) eps_pos by (simp add: mult_left_mono)
  finally have 1: "\<bar>fl v - v\<bar> \<le> 2 * eps * t"
    by (simp add: mult_ac)
  from n have 2: "\<bar>v - t\<bar> \<le> e * t"
    by (simp add: near_def)
  have "\<bar>fl v - t\<bar> \<le> \<bar>fl v - v\<bar> + \<bar>v - t\<bar>"
    by linarith
  with 1 2 show ?thesis
    by (simp add: near_def distrib_right)
qed

lemma is_centavosD: "is_centavos p \<Longrightarrow> p * 100 = of_int \<lfloor>p * 100\<rfloor>"
  unfolding is_centavos_def by (rule sym)

lemma is_centavosI: "p * 100 = of_int k \<Longrightarrow> is_centavos p"
  unfolding is_centavos_def by simp

lemma is_centavos_times_int: "is_centavos p \<Longrightarrow> is_centavos (p * of_int q)"
proof -
  assume "is_centavos p"
  then have k: "p * 100 = of_int \<lfloor>p * 100\<rfloor>"
    by (rule is_centavosD)
  have "p * of_int q * 100 = of_int (\<lfloor>p * 100\<rfloor> * q)"
    using k by (simp add: mult.assoc mult.left_commute mult.commute)
  then show ?thesis
    by (rule is_centavosI)
qed

lemma is_centavos_add: "is_centavos a \<Longrightarrow> is_centavos b \<Longrightarrow> is_centavos (a + b)"
proof -
  assume "is_centavos a" "is_centavos b"
  then have "a * 100 = of_int \<lfloor>a * 100\<rfloor>" "b * 100 = of_int \<lfloor>b * 100\<rfloor>"
    by (simp_all only: is_centavosD [symmetric])
  then have "(a + b) * 100 = of_int (\<lfloor>a * 100\<rfloor> + \<lfloor>b * 100\<rfloor>)"
    by (simp add: distrib_right)
  then show ?thesis
    by (rule is_centavosI)
qed

lemma is_centavos_0: "is_centavos 0"
  by (simp add: is_centavos_def)

lemma centavos_cases:
  assumes "is_centavos t" "0 \<le> t"
  shows "t = 0 \<or> 1 / 100 \<le> t"
proof -
  from assms(1) have k: "t * 100 = of_int \<lfloor>t * 100\<rfloor>"
    by (rule is_centavosD)
  from assms(2) have "0 \<le> \<lfloor>t * 100\<rfloor>"
    by simp
  then consider "\<lfloor>t * 100\<rfloor> = 0" | "1 \<le> \<lfloor>t * 100\<rfloor>"
    by linarith
  then show ?thesis
  proof cases
    case 1
    with k show ?thesis
      by simp
  next
    case 2
    then have "(1::rat) \<le> of_int \<lfloor>t * 100\<rfloor>"
      by linarith
    with k show ?thesis
      by simp
  qed
qed

lemma Number_toFixed2_near:
  assumes n: "near e x t" and e: "0 \<le> e" "e + 2 * eps \<le> 1 / 2"
    and c: "is_centavos t" "0 \<le> t"
    and small: "(e + 2 * eps) * (t * 100) < 1 / 2" and big: "t < 10 ^ 20"
  shows "Number_toFixed2 x = fl t"
proof -
  let ?v = "fl x"
  have e2: "e \<le> 1 / 2" "0 \<le> e + 2 * eps"
    using e eps_pos by linarith+
  have nv: "near (e + 2 * eps) ?v t"
    by (rule near_fl [OF n e(1) e2(1) centavos_cases [OF c]])
  note b = near_bounds [OF nv e2(2) e(2) c(2)]
  from b(1) c(2) have v0: "0 \<le> ?v"
    by linarith
  from b(2) big have v21: "\<bar>?v\<bar> < 10 ^ 21"
    using v0 by simp
  from c(1) have k: "t * 100 = of_int \<lfloor>t * 100\<rfloor>"
    by (rule is_centavosD)
  from nv have "\<bar>?v - t\<bar> \<le> (e + 2 * eps) * t"
    by (simp add: near_def)
  then have "\<bar>?v - t\<bar> * 100 \<le> (e + 2 * eps) * (t * 100)"
    by simp
  moreover have "\<bar>?v * 100 - t * 100\<bar> = \<bar>?v - t\<bar> * 100"
  proof -
    have eq: "?v * 100 - t * 100 = (?v - t) * 100"
      by (simp only: left_diff_distrib)
    have "\<bar>?v * 100 - t * 100\<bar> = \<bar>(?v - t) * 100\<bar>"
      by (simp only: eq)
    also have "\<dots> = \<bar>?v - t\<bar> * 100"
      by (simp only: abs_mult abs_numeral)
    finally show ?thesis .
  qed
  ultimately have d: "\<bar>?v * 100 - t * 100\<bar> < 1 / 2"
    using small by linarith
  have "\<lfloor>?v * 100 + 1 / 2\<rfloor> = \<lfloor>t * 100\<rfloor>"
  proof (rule floor_unique)
    show "of_int \<lfloor>t * 100\<rfloor> \<le> ?v * 100 + 1 / 2"
      using d k by linarith
    show "?v * 100 + 1 / 2 < of_int \<lfloor>t * 100\<rfloor> + 1"
      using d k by linarith
  qed
  then have "Number_toFixed2 x = fl (of_int \<lfloor>t * 100\<rfloor> / 100)"
    using v0 v21 by (simp add: Number_toFixed2_def Let_def)
  also have "of_int \<lfloor>t * 100\<rfloor> / 100 = t"
    by (subst k [symmetric]) simp
  finally show ?thesis .
qed

lemma eps_le: "eps \<le> 1 / 9000000000000000"
  by (simp add: eps_def)

lemma js_times_near:
  assumes c: "is_centavos p" "0 \<le> p" and q: "0 \<le> q" "q < 2 ^ 53"
  shows "near (4 * eps) (js_times p (of_int q)) (p * of_int q)"
proof -
  have "near 0 p p"
    using c(2) by (simp add: near_exact)
  from near_fl [OF this _ _ centavos_cases [OF c]]
  have "near (2 * eps) (fl p) p"
    by simp
  moreover have q0: "(0::rat) \<le> of_int q"
    using q(1) by simp
  ultimately have "near (2 * eps) (fl p * of_int q) (p * of_int q)"
    by (rule near_mult)
  moreover have "0 \<le> 2 * eps" "2 * eps \<le> 1 / 2"
    using eps_pos eps_le by linarith+
  moreover have "p * of_int q = 0 \<or> 1 / 100 \<le> p * of_int q"
    using c q0 by (intro centavos_cases is_centavos_times_int mult_nonneg_nonneg)
  ultimately have "near (2 * eps + 2 * eps) (fl (fl p * of_int q)) (p * of_int q)"
    by (rule near_fl)
  moreover have "fl (of_int q) = of_int q"
    using q by (intro fl_int) simp
  ultimately show ?thesis
    by (simp add: js_times_def)
qed

lemma fl_near:
  assumes "is_centavos t" "0 \<le> t"
  shows "near (2 * eps) (fl t) t"
proof -
  have "near 0 t t"
    using assms(2) by (simp add: near_exact)
  from near_fl [OF this _ _ centavos_cases [OF assms]] show ?thesis
    by simp
qed

lemma small_product:
  assumes "0 \<le> k" "k \<le> 4006" "0 \<le> t" "t \<le> 10 ^ 10"
  shows "(k * eps) * (t * 100) < 1 / 2"
proof -
  have "(k * eps) * (t * 100) \<le> (4006 * eps) * (t * 100)"
    using assms(2,3) eps_pos by (intro mult_right_mono) simp_all
  also have "\<dots> \<le> (4006 * eps) * (10 ^ 10 * 100)"
    using assms(4) eps_pos by (intro mult_left_mono) simp_all
  also have "\<dots> < 1 / 2"
    using eps_le by simp
  finally show ?thesis .
qed

lemma Number_toFixed2_exact:
  assumes n: "near (k * eps) x t" and k: "0 \<le> k" "k \<le> 4004"
    and c: "is_centavos t" "0 \<le> t" "t \<le> 10 ^ 10"
  shows "Number_toFixed2 x = fl t"
proof (rule Number_toFixed2_near [OF n _ _ c(1,2)])
  show "0 \<le> k * eps"
    using k(1) eps_pos by simp
  have "k * eps \<le> 4004 * eps"
    using k(2) eps_pos by simp
  then show "k * eps + 2 * eps \<le> 1 / 2"
    using eps_le by simp
  have "(k * eps + 2 * eps) * (t * 100) = ((k + 2) * eps) * (t * 100)"
    by (simp add: distrib_right)
  also have "\<dots> < 1 / 2"
    using k c by (intro small_product) simp_all
  finally show "(k * eps + 2 * eps) * (t * 100) < 1 / 2" .
  show "t < 10 ^ 20"
    using c(3) by simp
qed

lemma foldl_js_plus_near:
  assumes "\<forall>l \<in> set c. near (4 * eps) (f l) (g l) \<and> is_centavos (g l) \<and> 0 \<le> g l"
    and "near E s t" "is_centavos t" "0 \<le> t"
    and "4 * eps \<le> E" "E + 4 * eps * of_nat (length c) \<le> 1 / 4"
  shows "near (E + 4 * eps * of_nat (length c)) (foldl (\<lambda>s l. js_plus s (f l)) s c)
           (t + (\<Sum>l\<leftarrow>c. g l))"
  using assms
proof (induction c arbitrary: s t E)
  case Nil
  then show ?case
    by simp
next
  case (Cons l c)
  from Cons.prems(1) have l: "near (4 * eps) (f l) (g l)" "is_centavos (g l)" "0 \<le> g l"
    and rest: "\<forall>l \<in> set c. near (4 * eps) (f l) (g l) \<and> is_centavos (g l) \<and> 0 \<le> g l"
    by simp_all
  have len: "0 \<le> 4 * eps * of_nat (length c)"
    using eps_pos by simp
  from Cons.prems(6) have E4: "E + 4 * eps + 4 * eps * of_nat (length c) \<le> 1 / 4"
    by (simp add: algebra_simps)
  with len eps_pos have Eb: "E \<le> 1 / 4 - 4 * eps"
    by linarith
  have E0: "0 \<le> E"
    using Cons.prems(5) eps_pos by linarith
  have a1: "near (E + 2 * eps) (fl s) t"
    using Cons.prems(2) E0 _ centavos_cases [OF Cons.prems(3,4)]
    by (rule near_fl) (use Eb eps_pos in linarith)
  have "near (4 * eps + 2 * eps) (fl (f l)) (g l)"
    using l(1) _ _ centavos_cases [OF l(2,3)]
    by (rule near_fl) (use eps_pos eps_le in linarith)+
  then have a2: "near (E + 2 * eps) (fl (f l)) (g l)"
    by (rule near_mono) (use Cons.prems(5) l(3) in linarith)+
  from a1 a2 have a3: "near (E + 2 * eps) (fl s + fl (f l)) (t + g l)"
    by (rule near_add)
  have c': "is_centavos (t + g l)" "0 \<le> t + g l"
    using Cons.prems(3,4) l(2,3) by (simp_all add: is_centavos_add)
  have "near (E + 2 * eps + 2 * eps) (fl (fl s + fl (f l))) (t + g l)"
    using a3 _ _ centavos_cases [OF c']
    by (rule near_fl) (use E0 Eb eps_pos in linarith)+
  moreover have "E + 2 * eps + 2 * eps = E + 4 * eps"
    by simp
  ultimately have a4: "near (E + 4 * eps) (js_plus s (f l)) (t + g l)"
    by (simp only: js_plus_def)
  have "near (E + 4 * eps + 4 * eps * of_nat (length c))
          (foldl (\<lambda>s l. js_plus s (f l)) (js_plus s (f l)) c) (t + g l + (\<Sum>l\<leftarrow>c. g l))"
    using rest a4 c' _ E4
    by (rule Cons.IH) (use Cons.prems(5) eps_pos in linarith)
  then show ?case
    by (simp add: algebra_simps)
qed

lemma member_le_sum:
  assumes "\<forall>l \<in> set c. (0::rat) \<le> g l" "l \<in> set c"
  shows "g l \<le> (\<Sum>l\<leftarrow>c. g l)"
  using assms
proof (induction c)
  case Nil
  then show ?case
    by simp
next
  case (Cons a c)
  have "0 \<le> (\<Sum>l\<leftarrow>c. g l)"
    using Cons.prems(1) by (intro sum_list_nonneg) auto
  moreover have "0 \<le> g a"
    using Cons.prems(1) by simp
  ultimately show ?case
    using Cons by (cases "l = a") auto
qed

lemma whole_centavo_line:
  assumes "whole_centavo_cart c" "l \<in> set c"
  shows "is_centavos (cl_price l)" "0 \<le> cl_price l" "0 \<le> cl_qty l" "cl_qty l < 2 ^ 53"
    "is_centavos (cl_price l * of_int (cl_qty l))" "0 \<le> cl_price l * of_int (cl_qty l)"
    "cl_price l * of_int (cl_qty l) \<le> 10 ^ 10" "cl_price l \<le> 10 ^ 10"
proof -
  from assms have a: "is_centavos (cl_price l)" "0 \<le> cl_price l" "1 \<le> cl_qty l"
    "cl_qty l < 2 ^ 53"
    by (simp_all add: whole_centavo_cart_def list_all_iff)
  then show "is_centavos (cl_price l)" "0 \<le> cl_price l" "0 \<le> cl_qty l" "cl_qty l < 2 ^ 53"
    by simp_all
  show "is_centavos (cl_price l * of_int (cl_qty l))"
    using a(1) by (rule is_centavos_times_int)
  have q1: "(1::rat) \<le> of_int (cl_qty l)"
    using a(3) by simp
  then show nn: "0 \<le> cl_price l * of_int (cl_qty l)"
    using a(2) by simp
  have "\<forall>l \<in> set c. (0::rat) \<le> cl_price l * of_int (cl_qty l)"
    using assms(1) by (auto simp: whole_centavo_cart_def list_all_iff)
  from member_le_sum [OF this assms(2)] assms(1)
  show le: "cl_price l * of_int (cl_qty l) \<le> 10 ^ 10"
    by (simp add: whole_centavo_cart_def)
  have "cl_price l * 1 \<le> cl_price l * of_int (cl_qty l)"
    using a(2) q1 by (rule mult_left_mono [OF _ _, rotated]) 
  with le show "cl_price l \<le> 10 ^ 10"
    by simp
qed

lemma whole_centavo_sum:
  assumes "whole_centavo_cart c"
  shows "is_centavos (\<Sum>l\<leftarrow>c. cl_price l * of_int (cl_qty l))"
    "0 \<le> (\<Sum>l\<leftarrow>c. cl_price l * of_int (cl_qty l))"
    "(\<Sum>l\<leftarrow>c. cl_price l * of_int (cl_qty l)) \<le> 10 ^ 10"
    "length c \<le> 1000"
proof -
  have gen: "list_all (\<lambda>l. is_centavos (cl_price l)) c \<Longrightarrow>
        is_centavos (\<Sum>l\<leftarrow>c. cl_price l * of_int (cl_qty l))" for c
    by (induction c) (simp_all add: is_centavos_0 is_centavos_add is_centavos_times_int)
  have "list_all (\<lambda>l. is_centavos (cl_price l)) c"
    using assms by (simp add: whole_centavo_cart_def list_all_iff)
  then show "is_centavos (\<Sum>l\<leftarrow>c. cl_price l * of_int (cl_qty l))"
    by (rule gen)
  show "0 \<le> (\<Sum>l\<leftarrow>c. cl_price l * of_int (cl_qty l))"
    using whole_centavo_line(6) [OF assms] by (intro sum_list_nonneg) auto
  show "(\<Sum>l\<leftarrow>c. cl_price l * of_int (cl_qty l)) \<le> 10 ^ 10" "length c \<le> 1000"
    using assms by (simp_all add: whole_centavo_cart_def)
qed

lemma js_sum_exact:
  assumes c: "whole_centavo_cart c"
    and f: "\<forall>l \<in> set c. near (4 * eps) (f l) (cl_price l * of_int (cl_qty l))"
  shows "Number_toFixed2 (foldl (\<lambda>s l. js_plus s (f l)) 0 c) =
           fl (\<Sum>l\<leftarrow>c. cl_price l * of_int (cl_qty l))"
proof -
  let ?g = "\<lambda>l. cl_price l * rat_of_int (cl_qty l)"
  note s = whole_centavo_sum [OF c]
  have n: "(of_nat (length c) :: rat) \<le> 1000"
    using s(4) by simp
  have each: "\<forall>l \<in> set c. near (4 * eps) (f l) (?g l) \<and> is_centavos (?g l) \<and> 0 \<le> ?g l"
    using f whole_centavo_line(5,6) [OF c] by simp
  have z: "near (4 * eps) 0 0"
    by (simp add: near_def)
  have b: "4 * eps + 4 * eps * of_nat (length c) \<le> 1 / 4"
  proof -
    have "4 * eps * of_nat (length c) \<le> 4 * eps * 1000"
      using n eps_pos by (intro mult_left_mono) simp_all
    with eps_le show ?thesis
      by linarith
  qed
  from foldl_js_plus_near [OF each z is_centavos_0 _ _ b]
  have "near (4 * eps + 4 * eps * of_nat (length c)) (foldl (\<lambda>s l. js_plus s (f l)) 0 c)
          (0 + (\<Sum>l\<leftarrow>c. ?g l))"
    by simp
  moreover have "4 * eps + 4 * eps * of_nat (length c) = (4 + 4 * of_nat (length c)) * eps"
    by (simp add: algebra_simps)
  ultimately have "near ((4 + 4 * of_nat (length c)) * eps) (foldl (\<lambda>s l. js_plus s (f l)) 0 c)
          (\<Sum>l\<leftarrow>c. ?g l)"
    by simp
  from Number_toFixed2_exact [OF this _ _ s(1-3)] n show ?thesis
    by simp
qed

lemma total_exact:
  assumes "whole_centavo_cart c"
  shows "Number_toFixed2 (total c) = fl (\<Sum>l\<leftarrow>c. cl_price l * of_int (cl_qty l))"
  unfolding total_def
  using assms
proof (rule js_sum_exact)
  show "\<forall>l \<in> set c. near (4 * eps) (js_times (cl_price l) (of_int (cl_qty l)))
          (cl_price l * of_int (cl_qty l))"
    using whole_centavo_line(1-4) [OF assms] by (auto intro: js_times_near)
qed

lemma line_exact:
  assumes "whole_centavo_cart c" "l \<in> set c"
  shows "Number_toFixed2 (cl_price l) = fl (cl_price l)"
    and "Number_toFixed2 (js_times (cl_price l) (of_int (cl_qty l))) =
           fl (cl_price l * of_int (cl_qty l))"
proof -
  note w = whole_centavo_line [OF assms]
  have "near (0 * eps) (cl_price l) (cl_price l)"
    using w(2) by (simp add: near_exact)
  from Number_toFixed2_exact [OF this _ _ w(1,2,8)]
  show "Number_toFixed2 (cl_price l) = fl (cl_price l)"
    by simp
  have "near (4 * eps) (js_times (cl_price l) (of_int (cl_qty l))) (cl_price l * of_int (cl_qty l))"
    using w(1-4) by (rule js_times_near)
  from Number_toFixed2_exact [OF this _ _ w(5,6,7)]
  show "Number_toFixed2 (js_times (cl_price l) (of_int (cl_qty l))) =
           fl (cl_price l * of_int (cl_qty l))"
    by simp
qed

lemma cart_lines_exact:
  assumes "whole_centavo_cart c"
  shows "map ol_unit_price (cart_lines i c) = map (\<lambda>l. fl (cl_price l)) c"
    and "map ol_line_total (cart_lines i c) = map (\<lambda>l. fl (cl_price l * of_int (cl_qty l))) c"
  using line_exact [OF assms]
  by (simp_all add: cart_lines_def comp_def)

lemma sum_near:
  assumes "\<forall>l \<in> set c. near e (f l) (g l)"
  shows "near e (\<Sum>l\<leftarrow>c. f l) (\<Sum>l\<leftarrow>c. g l)"
  using assms
proof (induction c)
  case Nil
  then show ?case
    by (simp add: near_def)
next
  case (Cons a c)
  then show ?case
    by (simp add: near_add)
qed

lemma lines_sum_exact:
  assumes "whole_centavo_cart c"
  shows "Number_toFixed2 (\<Sum>r\<leftarrow>cart_lines i c. ol_line_total r) =
           fl (\<Sum>l\<leftarrow>c. cl_price l * of_int (cl_qty l))"
    and "Number_toFixed2 (foldl js_plus 0 (map ol_line_total (cart_lines i c))) =
           fl (\<Sum>l\<leftarrow>c. cl_price l * of_int (cl_qty l))"
proof -
  note s = whole_centavo_sum [OF assms]
  note m = cart_lines_exact(2) [OF assms, of i]
  have each: "\<forall>l \<in> set c. near (2 * eps) (fl (cl_price l * of_int (cl_qty l)))
                (cl_price l * of_int (cl_qty l))"
    using whole_centavo_line(5,6) [OF assms] by (auto intro: fl_near)
  have "(\<Sum>r\<leftarrow>cart_lines i c. ol_line_total r) = (\<Sum>l\<leftarrow>c. fl (cl_price l * of_int (cl_qty l)))"
    using m by (simp add: comp_def)
  moreover have "near (2 * eps) (\<Sum>l\<leftarrow>c. fl (cl_price l * of_int (cl_qty l)))
                   (\<Sum>l\<leftarrow>c. cl_price l * of_int (cl_qty l))"
    using each by (rule sum_near)
  ultimately have "near (2 * eps) (\<Sum>r\<leftarrow>cart_lines i c. ol_line_total r)
                     (\<Sum>l\<leftarrow>c. cl_price l * of_int (cl_qty l))"
    by simp
  from Number_toFixed2_exact [OF this _ _ s(1-3)]
  show "Number_toFixed2 (\<Sum>r\<leftarrow>cart_lines i c. ol_line_total r) =
           fl (\<Sum>l\<leftarrow>c. cl_price l * of_int (cl_qty l))"
    by simp
  have "foldl js_plus 0 (map ol_line_total (cart_lines i c)) =
        foldl (\<lambda>s l. js_plus s (fl (cl_price l * of_int (cl_qty l)))) 0 c"
    by (simp only: m foldl_map)
  moreover have "Number_toFixed2 (foldl (\<lambda>s l. js_plus s (fl (cl_price l * of_int (cl_qty l)))) 0 c) =
        fl (\<Sum>l\<leftarrow>c. cl_price l * of_int (cl_qty l))"
    using assms
  proof (rule js_sum_exact)
    show "\<forall>l \<in> set c. near (4 * eps) (fl (cl_price l * of_int (cl_qty l)))
            (cl_price l * of_int (cl_qty l))"
    proof
      fix l assume l: "l \<in> set c"
      with each have "near (2 * eps) (fl (cl_price l * of_int (cl_qty l)))
                        (cl_price l * of_int (cl_qty l))"
        by simp
      then show "near (4 * eps) (fl (cl_price l * of_int (cl_qty l)))
                   (cl_price l * of_int (cl_qty l))"
        by (rule near_mono) (use eps_pos whole_centavo_line(6) [OF assms l] in simp_all)
    qed
  qed
  ultimately show "Number_toFixed2 (foldl js_plus 0 (map ol_line_total (cart_lines i c))) =
           fl (\<Sum>l\<leftarrow>c. cl_price l * of_int (cl_qty l))"
    by simp
qed

section \<open>Placing an order\<close>

lemma auth_get_user_effect:
  assumes "auth_get_user w = (u, w')"
  shows "orders w' = orders w" "order_lines w' = order_lines w" "new_order_id w' = new_order_id w"
    "clock w' = clock w" "alerts w' = alerts w" "requests w' = requests w @ [AuthGetUser]"
proof -
  obtain e w1 where c: "call AuthGetUser w = (e, w1)"
    by (cases "call AuthGetUser w") auto
  note eff = call_effect [OF c]
  from assms c eff show "orders w' = orders w" "order_lines w' = order_lines w"
    "new_order_id w' = new_order_id w" "clock w' = clock w" "alerts w' = alerts w"
    "requests w' = requests w @ [AuthGetUser]"
    by (auto simp: auth_get_user_def split: option.splits)
qed

lemma placeOrder_try_result:
  assumes "placeOrder_try b st w = (res, w')"
  shows "res = Inl m \<Longrightarrow> alerts w' = alerts w"
    and "res = Inr st' \<Longrightarrow>
           (\<exists>user_id. orders w' = orders w @
               [new_order_row (new_order_id w) (clock w)
                  \<lparr>ins_branch_id = b, ins_created_by = Some user_id,
                   ins_payment_type = payment st, ins_status = ''NEW'',
                   ins_total_amount = Number_toFixed2 (total (cart st)), ins_replaces = None\<rparr>])
           \<and> order_lines w' = order_lines w @ cart_lines (new_order_id w) (cart st)
           \<and> alerts w' = alerts w @ [OrderSaved] \<and> st' = st\<lparr>cart := []\<rparr>"
proof -
  obtain u w0 where s0: "auth_get_user w = (u, w0)"
    by (cases "auth_get_user w") auto
  note e0 = auth_get_user_effect [OF s0]
  show "res = Inl m \<Longrightarrow> alerts w' = alerts w"
    and "res = Inr st' \<Longrightarrow>
           (\<exists>user_id. orders w' = orders w @
               [new_order_row (new_order_id w) (clock w)
                  \<lparr>ins_branch_id = b, ins_created_by = Some user_id,
                   ins_payment_type = payment st, ins_status = ''NEW'',
                   ins_total_amount = Number_toFixed2 (total (cart st)), ins_replaces = None\<rparr>])
           \<and> order_lines w' = order_lines w @ cart_lines (new_order_id w) (cart st)
           \<and> alerts w' = alerts w @ [OrderSaved] \<and> st' = st\<lparr>cart := []\<rparr>"
  proof (atomize (full), cases u)
    case None
    with assms s0 e0 show "(res = Inl m \<longrightarrow> alerts w' = alerts w) \<and>
      (res = Inr st' \<longrightarrow>
           (\<exists>user_id. orders w' = orders w @
               [new_order_row (new_order_id w) (clock w)
                  \<lparr>ins_branch_id = b, ins_created_by = Some user_id,
                   ins_payment_type = payment st, ins_status = ''NEW'',
                   ins_total_amount = Number_toFixed2 (total (cart st)), ins_replaces = None\<rparr>])
           \<and> order_lines w' = order_lines w @ cart_lines (new_order_id w) (cart st)
           \<and> alerts w' = alerts w @ [OrderSaved] \<and> st' = st\<lparr>cart := []\<rparr>)"
      by (auto simp: placeOrder_try_def)
  next
    case (Some user_id)
    let ?p = "\<lparr>ins_branch_id = b, ins_created_by = Some user_id,
               ins_payment_type = payment st, ins_status = ''NEW'',
               ins_total_amount = Number_toFixed2 (total (cart st)), ins_replaces = None\<rparr>"
    obtain r1 w1 where s1: "insert_order ?p w0 = (r1, w1)"
      by (cases "insert_order ?p w0") auto
    note e1 = insert_order_effect [OF s1]
    show "(res = Inl m \<longrightarrow> alerts w' = alerts w) \<and>
      (res = Inr st' \<longrightarrow>
           (\<exists>user_id. orders w' = orders w @
               [new_order_row (new_order_id w) (clock w)
                  \<lparr>ins_branch_id = b, ins_created_by = Some user_id,
                   ins_payment_type = payment st, ins_status = ''NEW'',
                   ins_total_amount = Number_toFixed2 (total (cart st)), ins_replaces = None\<rparr>])
           \<and> order_lines w' = order_lines w @ cart_lines (new_order_id w) (cart st)
           \<and> alerts w' = alerts w @ [OrderSaved] \<and> st' = st\<lparr>cart := []\<rparr>)"
    proof (cases r1)
      case (Inl orderErr)
      with assms s0 s1 Some e0 e1 show ?thesis
        by (auto simp: placeOrder_try_def)
    next
      case (Inr order_id)
      have oid: "order_id = new_order_id w"
        using e1(6) [OF Inr] e0 by simp
      have ords: "orders w1 = orders w @ [new_order_row (new_order_id w) (clock w) ?p]"
        using e1(6) [OF Inr] e0 by simp
      obtain r2 w2 where s2: "insert_order_lines (cart_lines order_id (cart st)) w1 = (r2, w2)"
        by (cases "insert_order_lines (cart_lines order_id (cart st)) w1") auto
      note e2 = insert_order_lines_effect [OF s2]
      show ?thesis
      proof (cases r2)
        case None
        from assms s0 s1 s2 Some Inr None
        have "res = Inr (st\<lparr>cart := []\<rparr>)" "w' = alert OrderSaved w2"
          by (simp_all add: placeOrder_try_def)
        with e2(1,4) e2(6) [OF None] e1(1,4) e0 ords oid show ?thesis
          by (auto simp: alert_def)
      next
        case (Some linesErr)
        from assms s0 s1 s2 \<open>u = Some user_id\<close> Inr Some
        have "res = Inl linesErr" "w' = w2"
          by (simp_all add: placeOrder_try_def)
        with e2(4) e1(4) e0 show ?thesis
          by simp
      qed
    qed
  qed
qed

lemma placeOrder_saved:
  assumes run: "placeOrder st w = (st', w')" and saved: "alerts w' = alerts w @ [OrderSaved]"
  shows "\<exists>b. branchId st = Some b \<and> placeOrder_try b (st\<lparr>saving := True\<rparr>) w = (Inr (st\<lparr>saving := True, cart := []\<rparr>), w')"
proof (cases "cart st = []")
  case True
  with run saved show ?thesis
    by (simp add: placeOrder_def)
next
  case nonempty: False
  show ?thesis
  proof (cases "branchId st")
    case None
    with run saved nonempty show ?thesis
      by (auto simp: placeOrder_def alert_def)
  next
    case (Some b)
    obtain res w1 where t: "placeOrder_try b (st\<lparr>saving := True\<rparr>) w = (res, w1)"
      by (cases "placeOrder_try b (st\<lparr>saving := True\<rparr>) w") auto
    show ?thesis
    proof (cases "b = []")
      case True
      with run saved nonempty Some show ?thesis
        by (auto simp: placeOrder_def alert_def)
    next
      case False
      show ?thesis
      proof (cases res)
        case (Inl m)
        with placeOrder_try_result(1) [OF t] have "alerts w1 = alerts w"
          by simp
        with run saved nonempty Some False t Inl show ?thesis
          by (auto simp: placeOrder_def alert_def)
      next
        case (Inr st1)
        with placeOrder_try_result(2) [OF t] have "st1 = st\<lparr>saving := True, cart := []\<rparr>"
          by simp
        with run nonempty Some False t Inr show ?thesis
          by (simp add: placeOrder_def)
      qed
    qed
  qed
qed

text \<open>
  \<^verbatim>\<open>Number(x.toFixed(2))\<close> rounds to 2 decimals: below \<open>10\<^sup>2\<^sup>1\<close> the result is the
  binary64 value of \<open>n / 100\<close> for an integer \<open>n\<close> with \<open>n / 100\<close> at most half a
  hundredth away from the number.
\<close>

lemma floor_half_near: "\<bar>of_int \<lfloor>y * 100 + 1 / 2\<rfloor> / 100 - y\<bar> \<le> 1 / 200" for y :: rat
proof -
  define z where "z = rat_of_int \<lfloor>y * 100 + 1 / 2\<rfloor> / 100"
  have k: "rat_of_int \<lfloor>y * 100 + 1 / 2\<rfloor> = z * 100"
    by (simp add: z_def)
  have "rat_of_int \<lfloor>y * 100 + 1 / 2\<rfloor> \<le> y * 100 + 1 / 2"
    "y * 100 + 1 / 2 < rat_of_int \<lfloor>y * 100 + 1 / 2\<rfloor> + 1"
    by linarith+
  then have "z * 100 \<le> y * 100 + 1 / 2" "y * 100 + 1 / 2 < z * 100 + 1"
    by (simp_all only: k)
  then have "\<bar>z - y\<bar> \<le> 1 / 200"
    by linarith
  then show ?thesis
    by (simp only: z_def)
qed

lemma Number_toFixed2_rounds:
  assumes "\<bar>fl x\<bar> < 10 ^ 21"
  shows "\<exists>n. Number_toFixed2 x = fl (of_int n / 100) \<and> \<bar>of_int n / 100 - fl x\<bar> \<le> 1 / 200"
proof (cases "fl x < 0")
  case True
  let ?k = "\<lfloor>(- fl x) * 100 + 1 / 2\<rfloor>"
  have "\<bar>rat_of_int ?k / 100 - (- fl x)\<bar> \<le> 1 / 200"
    by (rule floor_half_near)
  moreover have "rat_of_int (- ?k) / 100 = - (rat_of_int ?k / 100)"
    by simp
  ultimately have d: "\<bar>rat_of_int (- ?k) / 100 - fl x\<bar> \<le> 1 / 200"
    by linarith
  have "Number_toFixed2 x = - fl (rat_of_int ?k / 100)"
    using True assms by (simp add: Number_toFixed2_def Let_def)
  also have "\<dots> = fl (- (rat_of_int ?k / 100))"
    by (simp only: fl_minus)
  also have "- (rat_of_int ?k / 100) = rat_of_int (- ?k) / 100"
    by simp
  finally show ?thesis
    using d by blast
next
  case False
  let ?k = "\<lfloor>fl x * 100 + 1 / 2\<rfloor>"
  have d: "\<bar>rat_of_int ?k / 100 - fl x\<bar> \<le> 1 / 200"
    by (rule floor_half_near)
  have "Number_toFixed2 x = fl (rat_of_int ?k / 100)"
    using False assms by (simp add: Number_toFixed2_def Let_def)
  with d show ?thesis
    by blast
qed

text \<open>
  \<^verbatim>\<open>toFixed\<close> rounds the binary64 value, not the decimal literal: the number written
  1.005 lies below 1.005 and is rounded down.
\<close>

lemma Number_toFixed2_examples:
  "Number_toFixed2 (1005 / 1000) = 1"
  "Number_toFixed2 (2675 / 1000) = fl (267 / 100)"
  "Number_toFixed2 (1255 / 100) = fl (1255 / 100)"
  by code_simp+

text \<open>
  C6, as stated, ends: for any cart the persisted header total equals the rounded sum of
  the persisted lines' \<open>line_total\<close> values. The header total is rounded from the
  unrounded cart total, while each line total is rounded on its own, so the two differ
  when prices are not whole centavos. Two items at 10.004: the order is saved with the
  header total 20.01 (the binary64 value nearest to it) and the line totals 10 and 10,
  whose sum, exact or added up in JavaScript, rounds to 20.
\<close>

theorem placeOrder_total_counterexample:
  "alerts (snd (placeOrder (cashier_with fine_cart (Some ''b1'')) till_world)) = [OrderSaved]
   \<and> map o_total_amount (orders (snd (placeOrder (cashier_with fine_cart (Some ''b1'')) till_world))) =
       [fl (2001 / 100)]
   \<and> fl (2001 / 100) = 5632314283980227 / 281474976710656
   \<and> map ol_line_total (order_lines (snd (placeOrder (cashier_with fine_cart (Some ''b1'')) till_world))) =
       [10, 10]
   \<and> Number_toFixed2 (sum_list (map ol_line_total
         (order_lines (snd (placeOrder (cashier_with fine_cart (Some ''b1'')) till_world))))) = 20
   \<and> Number_toFixed2 (foldl js_plus 0 (map ol_line_total
         (order_lines (snd (placeOrder (cashier_with fine_cart (Some ''b1'')) till_world))))) = 20"
proof -
  have ne: "fine_cart \<noteq> []"
    by (simp add: fine_cart_def)
  have steps:
    "js_times (2501 / 250) 1 = 5631751334026805 / 562949953421312"
    "js_plus 0 (5631751334026805 / 562949953421312) = 5631751334026805 / 562949953421312"
    "js_plus (5631751334026805 / 562949953421312) (5631751334026805 / 562949953421312) =
       5631751334026805 / 281474976710656"
    "Number_toFixed2 (5631751334026805 / 281474976710656) = fl (2001 / 100)"
    "Number_toFixed2 (5631751334026805 / 562949953421312) = 10"
    by code_simp+
  have tot: "Number_toFixed2 (total fine_cart) = fl (2001 / 100)"
    by (simp add: total_def fine_cart_def steps)
  have v: "fl (2001 / 100) = 5632314283980227 / 281474976710656"
    by code_simp
  have lns: "map ol_line_total (cart_lines ''ord-1'' fine_cart) = [10, 10]"
    by (simp add: cart_lines_def fine_cart_def steps)
  have s1: "Number_toFixed2 (sum_list [10, 10]) = 20"
    by code_simp
  have s2: "Number_toFixed2 (foldl js_plus 0 [10, 10]) = 20"
    by code_simp
  note defs = placeOrder_def placeOrder_try_def cashier_with_def till_world_def
    backend_defs new_order_row_def Let_def ne tot lns
  have a: "alerts (snd (placeOrder (cashier_with fine_cart (Some ''b1'')) till_world)) = [OrderSaved]"
    by (simp add: defs)
  have b: "map o_total_amount (orders (snd (placeOrder (cashier_with fine_cart (Some ''b1'')) till_world))) =
       [fl (2001 / 100)]"
    by (simp add: defs)
  have c: "map ol_line_total (order_lines (snd (placeOrder (cashier_with fine_cart (Some ''b1'')) till_world))) =
       [10, 10]"
    by (simp add: defs)
  from a b c v s1 s2 show ?thesis
    by (simp only:)
qed

text \<open>
  C6, amended. For any order submitted by \<open>placeOrder\<close> (the run ends with "Order
  saved"), one header row is persisted whose \<open>total_amount\<close> is the sum of
  \<open>price \<times> qty\<close> over the cart lines, multiplied and added up as JavaScript does and
  rounded to 2 decimals, and one line per cart line is persisted under the header's id,
  with the cart line's item and quantity, \<open>unit_price\<close> the price rounded to 2 decimals
  and \<open>line_total\<close> the rounded \<open>price \<times> qty\<close>. When every cart price is a whole
  number of centavos, in a cart of ordinary size, nothing is lost to rounding: the
  header total is the exact total of the cart, every line carries its exact price and
  its exact \<open>price \<times> qty\<close> (each as the binary64 value nearest to it), and the header
  total equals the rounded sum of the persisted lines' \<open>line_total\<close> values, whether
  that sum is exact or added up in JavaScript.
\<close>

theorem placeOrder_total:
  assumes run: "placeOrder st w = (st', w')"
    and saved: "alerts w' = alerts w @ [OrderSaved]"
  shows "\<exists>header lines.
           orders w' = orders w @ [header] \<and> order_lines w' = order_lines w @ lines
         \<and> o_id header = new_order_id w \<and> o_status header = Some ''NEW''
         \<and> o_payment_type header = payment st \<and> Some (o_branch_id header) = branchId st
         \<and> o_total_amount header =
             Number_toFixed2
               (foldl (\<lambda>sum l. js_plus sum (js_times (cl_price l) (of_int (cl_qty l)))) 0 (cart st))
         \<and> map ol_order_id lines = map (\<lambda>l. o_id header) (cart st)
         \<and> map ol_menu_item_id lines = map cl_id (cart st)
         \<and> map ol_qty lines = map cl_qty (cart st)
         \<and> map ol_unit_price lines = map (\<lambda>l. Number_toFixed2 (cl_price l)) (cart st)
         \<and> map ol_line_total lines =
             map (\<lambda>l. Number_toFixed2 (js_times (cl_price l) (of_int (cl_qty l)))) (cart st)
         \<and> (whole_centavo_cart (cart st) \<longrightarrow>
               o_total_amount header = fl (\<Sum>l\<leftarrow>cart st. cl_price l * of_int (cl_qty l))
             \<and> map ol_unit_price lines = map (\<lambda>l. fl (cl_price l)) (cart st)
             \<and> map ol_line_total lines = map (\<lambda>l. fl (cl_price l * of_int (cl_qty l))) (cart st)
             \<and> o_total_amount header = Number_toFixed2 (\<Sum>r\<leftarrow>lines. ol_line_total r)
             \<and> o_total_amount header = Number_toFixed2 (foldl js_plus 0 (map ol_line_total lines)))"
proof -
  from placeOrder_saved [OF run saved] obtain b where
    b: "branchId st = Some b"
    and t: "placeOrder_try b (st\<lparr>saving := True\<rparr>) w = (Inr (st\<lparr>saving := True, cart := []\<rparr>), w')"
    by blast
  from placeOrder_try_result(2) [OF t] obtain user_id where
    ords: "orders w' = orders w @
               [new_order_row (new_order_id w) (clock w)
                  \<lparr>ins_branch_id = b, ins_created_by = Some user_id,
                   ins_payment_type = payment st, ins_status = ''NEW'',
                   ins_total_amount = Number_toFixed2 (total (cart st)), ins_replaces = None\<rparr>]"
    and lns: "order_lines w' = order_lines w @ cart_lines (new_order_id w) (cart st)"
    by auto
  let ?h = "new_order_row (new_order_id w) (clock w)
                  \<lparr>ins_branch_id = b, ins_created_by = Some user_id,
                   ins_payment_type = payment st, ins_status = ''NEW'',
                   ins_total_amount = Number_toFixed2 (total (cart st)), ins_replaces = None\<rparr>"
  let ?ls = "cart_lines (new_order_id w) (cart st)"
  have ht: "o_total_amount ?h = Number_toFixed2 (total (cart st))"
    by (simp add: new_order_row_def)
  have h: "o_id ?h = new_order_id w" "o_status ?h = Some ''NEW''" "o_payment_type ?h = payment st"
    "Some (o_branch_id ?h) = branchId st"
    "o_total_amount ?h =
       Number_toFixed2
         (foldl (\<lambda>sum l. js_plus sum (js_times (cl_price l) (of_int (cl_qty l)))) 0 (cart st))"
    by (simp_all add: new_order_row_def b total_def)
  have l: "map ol_order_id ?ls = map (\<lambda>l. o_id ?h) (cart st)"
    "map ol_menu_item_id ?ls = map cl_id (cart st)"
    "map ol_qty ?ls = map cl_qty (cart st)"
    "map ol_unit_price ?ls = map (\<lambda>l. Number_toFixed2 (cl_price l)) (cart st)"
    "map ol_line_total ?ls =
       map (\<lambda>l. Number_toFixed2 (js_times (cl_price l) (of_int (cl_qty l)))) (cart st)"
    by (simp_all add: cart_lines_def new_order_row_def comp_def)
  have c: "whole_centavo_cart (cart st) \<longrightarrow>
               o_total_amount ?h = fl (\<Sum>l\<leftarrow>cart st. cl_price l * of_int (cl_qty l))
             \<and> map ol_unit_price ?ls = map (\<lambda>l. fl (cl_price l)) (cart st)
             \<and> map ol_line_total ?ls = map (\<lambda>l. fl (cl_price l * of_int (cl_qty l))) (cart st)
             \<and> o_total_amount ?h = Number_toFixed2 (\<Sum>r\<leftarrow>?ls. ol_line_total r)
             \<and> o_total_amount ?h = Number_toFixed2 (foldl js_plus 0 (map ol_line_total ?ls))"
  proof
    assume cent: "whole_centavo_cart (cart st)"
    have c1: "o_total_amount ?h = fl (\<Sum>l\<leftarrow>cart st. cl_price l * of_int (cl_qty l))"
      by (simp add: new_order_row_def total_exact [OF cent])
    have c4: "o_total_amount ?h = Number_toFixed2 (\<Sum>r\<leftarrow>?ls. ol_line_total r)"
      by (simp only: c1 lines_sum_exact(1) [OF cent])
    have c5: "o_total_amount ?h = Number_toFixed2 (foldl js_plus 0 (map ol_line_total ?ls))"
      by (simp only: c1 lines_sum_exact(2) [OF cent])
    from c1 cart_lines_exact [OF cent, of "new_order_id w"] c4 c5
    show "o_total_amount ?h = fl (\<Sum>l\<leftarrow>cart st. cl_price l * of_int (cl_qty l))
             \<and> map ol_unit_price ?ls = map (\<lambda>l. fl (cl_price l)) (cart st)
             \<and> map ol_line_total ?ls = map (\<lambda>l. fl (cl_price l * of_int (cl_qty l))) (cart st)
             \<and> o_total_amount ?h = Number_toFixed2 (\<Sum>r\<leftarrow>?ls. ol_line_total r)
             \<and> o_total_amount ?h = Number_toFixed2 (foldl js_plus 0 (map ol_line_total ?ls))"
      by (intro conjI)
  qed
  from ords lns h l c show ?thesis
    by blast
qed

theorem placeOrder_total_witness:
  "alerts (snd (placeOrder (cashier_with scenario_cart (Some ''b1'')) till_world)) =
     alerts till_world @ [OrderSaved]
   \<and> whole_centavo_cart (cart (cashier_with scenario_cart (Some ''b1'')))
   \<and> map o_total_amount (orders (snd (placeOrder (cashier_with scenario_cart (Some ''b1'')) till_world))) =
       [120]
   \<and> map ol_unit_price (order_lines (snd (placeOrder (cashier_with scenario_cart (Some ''b1'')) till_world))) =
       [50, 20]
   \<and> map ol_line_total (order_lines (snd (placeOrder (cashier_with scenario_cart (Some ''b1'')) till_world))) =
       [100, 20]"
proof -
  let ?st = "cashier_with scenario_cart (Some ''b1'')"
  let ?r = "placeOrder ?st till_world"
  have ne: "scenario_cart \<noteq> []"
    by (simp add: scenario_cart_def)
  note defs = placeOrder_def placeOrder_try_def cashier_with_def till_world_def
    backend_defs new_order_row_def Let_def ne
  have run: "?r = (fst ?r, snd ?r)"
    by simp
  have saved: "alerts (snd ?r) = alerts till_world @ [OrderSaved]"
    by (simp add: defs)
  have cent: "whole_centavo_cart (cart ?st)"
    by (simp add: cashier_with_def scenario_cart_def whole_centavo_cart_def is_centavos_def)
  from placeOrder_total [OF run saved] cent obtain header lines where
    o: "orders (snd ?r) = orders till_world @ [header]"
    and l: "order_lines (snd ?r) = order_lines till_world @ lines"
    and t: "o_total_amount header = fl (\<Sum>l\<leftarrow>cart ?st. cl_price l * of_int (cl_qty l))"
    and up: "map ol_unit_price lines = map (\<lambda>l. fl (cl_price l)) (cart ?st)"
    and lt: "map ol_line_total lines = map (\<lambda>l. fl (cl_price l * of_int (cl_qty l))) (cart ?st)"
    by blast
  from t have "o_total_amount header = 120"
    by (simp add: cashier_with_def scenario_cart_def fl_numeral)
  with o have "map o_total_amount (orders (snd ?r)) = [120]"
    by (simp add: till_world_def)
  moreover from up have "map ol_unit_price lines = [50, 20]"
    by (simp add: cashier_with_def scenario_cart_def fl_numeral)
  with l have "map ol_unit_price (order_lines (snd ?r)) = [50, 20]"
    by (simp add: till_world_def)
  moreover from lt have "map ol_line_total lines = [100, 20]"
    by (simp add: cashier_with_def scenario_cart_def fl_numeral)
  with l have "map ol_line_total (order_lines (snd ?r)) = [100, 20]"
    by (simp add: till_world_def)
  ultimately show ?thesis
    using saved cent by simp
qed

text \<open>
  C7, as stated: every invocation of \<open>placeOrder\<close> with an empty cart fails with a
  validation error reported to the user. With an empty cart the function returns on its
  first line; nothing is shown (and nothing is sent), whether or not a branch is set.
\<close>

theorem placeOrder_empty_cart_counterexample:
  "cart (cashier_with [] (Some ''b1'')) = []
   \<and> placeOrder (cashier_with [] (Some ''b1'')) till_world = (cashier_with [] (Some ''b1''), till_world)
   \<and> alerts (snd (placeOrder (cashier_with [] (Some ''b1'')) till_world)) = []"
  by (simp add: placeOrder_def cashier_with_def till_world_def)

text \<open>
  C7, amended. An invocation of \<open>placeOrder\<close> with an empty cart returns without any
  message and without any backend request. An invocation with a non-empty cart and no
  resolved branch for the cashier shows "No branch assigned to this cashier." and
  issues no backend request. In both cases neither an order header nor an order line is
  written, and the page state is unchanged.
\<close>

theorem placeOrder_guards:
  "(cart st = [] \<longrightarrow> placeOrder st w = (st, w))
   \<and> (cart st \<noteq> [] \<and> falsy (branchId st) \<longrightarrow>
        placeOrder st w = (st, alert NoBranchAssigned w)
        \<and> alerts (snd (placeOrder st w)) = alerts w @ [NoBranchAssigned])
   \<and> (cart st = [] \<or> falsy (branchId st) \<longrightarrow>
        fst (placeOrder st w) = st
        \<and> requests (snd (placeOrder st w)) = requests w
        \<and> writes (snd (placeOrder st w)) = writes w
        \<and> orders (snd (placeOrder st w)) = orders w
        \<and> order_lines (snd (placeOrder st w)) = order_lines w)"
  by (auto simp: placeOrder_def falsy_def alert_def writes_def split: option.splits)

theorem placeOrder_guards_witness:
  "cart (cashier_with scenario_cart None) \<noteq> [] \<and> falsy (branchId (cashier_with scenario_cart None))
   \<and> alerts (snd (placeOrder (cashier_with scenario_cart None) till_world)) = [NoBranchAssigned]
   \<and> writes (snd (placeOrder (cashier_with scenario_cart None) till_world)) = []
   \<and> orders (snd (placeOrder (cashier_with scenario_cart None) till_world)) = []"
proof -
  let ?st = "cashier_with scenario_cart None"
  have h: "cart ?st \<noteq> []" "falsy (branchId ?st)"
    by (simp_all add: cashier_with_def scenario_cart_def falsy_def)
  have w0: "alerts till_world = []" "writes till_world = []" "orders till_world = []"
    by (simp_all add: till_world_def writes_def)
  from placeOrder_guards [of ?st till_world] h
  have "alerts (snd (placeOrder ?st till_world)) = alerts till_world @ [NoBranchAssigned]"
    and "writes (snd (placeOrder ?st till_world)) = writes till_world"
    and "orders (snd (placeOrder ?st till_world)) = orders till_world"
    by blast+
  with h w0 show ?thesis
    by simp
qed

section \<open>Status codes of the password-reset endpoint\<close>

text \<open>
  \<^verbatim>\<open>getBearer\<close> yields a non-empty token exactly when the header is present, starts with
  \<^verbatim>\<open>bearer\<close> and a space in any mix of cases, and is followed by more than white space.
\<close>

lemma trim_empty: "(trim s = []) = list_all is_space s"
proof
  assume "trim s = []"
  then have "dropWhile is_space (rev (dropWhile is_space s)) = []"
    by (simp add: trim_def)
  then have all: "\<forall>x\<in>set (dropWhile is_space s). is_space x"
    by simp
  have "dropWhile is_space s = []"
  proof (rule ccontr)
    assume ne: "dropWhile is_space s \<noteq> []"
    then have "\<not> is_space (hd (dropWhile is_space s))"
      by (rule hd_dropWhile)
    moreover from ne have "hd (dropWhile is_space s) \<in> set (dropWhile is_space s)"
      by simp
    ultimately show False
      using all by blast
  qed
  then show "list_all is_space s"
    by (simp add: list_all_iff)
next
  assume "list_all is_space s"
  then show "trim s = []"
    by (auto simp: trim_def list_all_iff dest: set_dropWhileD)
qed

lemma startsWith_bearer: "startsWith s ''bearer '' = (take 7 s = ''bearer '')"
proof -
  have "length ''bearer '' = 7"
    by simp
  then show ?thesis
    unfolding startsWith_def by (rule arg_cong)
qed

lemma falsy_getBearer: "falsy (getBearer req) = (\<not> has_token req)"
proof (cases "authorization req")
  case None
  have "take 7 (toLowerCase []) \<noteq> ''bearer ''"
    by (simp add: toLowerCase_def)
  with None show ?thesis
    by (simp add: getBearer_def has_token_def startsWith_bearer falsy_def)
next
  case (Some h)
  have "take 7 (toLowerCase h) = toLowerCase (take 7 h)"
    by (simp add: toLowerCase_def take_map)
  with Some show ?thesis
    by (simp add: getBearer_def has_token_def startsWith_bearer falsy_def trim_empty)
qed

lemma getBearer_token:
  assumes "has_token req"
  shows "\<exists>h. authorization req = Some h \<and> getBearer req = Some (trim (drop 7 h))
           \<and> trim (drop 7 h) \<noteq> []"
proof -
  from assms obtain h where h: "authorization req = Some h"
    "toLowerCase (take 7 h) = ''bearer ''" "\<not> list_all is_space (drop 7 h)"
    by (cases "authorization req") (auto simp: has_token_def)
  have "take 7 (toLowerCase h) = toLowerCase (take 7 h)"
    by (simp add: toLowerCase_def take_map)
  with h show ?thesis
    by (simp add: getBearer_def startsWith_bearer trim_empty)
qed

lemma bearer_good: "getBearer good_request = Some ''abc.def''"
  by code_simp

lemma POST_no_token: "\<not> has_token req \<Longrightarrow> POST env req = (json_error ''Missing auth token'' 401, [])"
  by (simp add: POST_def falsy_getBearer Let_def)

lemma POST_not_configured:
  "has_token req \<Longrightarrow> \<not> configured env \<Longrightarrow>
   POST env req = (json_error ''Missing public env vars'' 500, [])"
  by (simp add: POST_def falsy_getBearer Let_def configured_def)

lemma POST_invalid_session:
  "has_token req \<Longrightarrow> configured env \<Longrightarrow> \<not> valid_session env \<Longrightarrow>
   POST env req = (json_error ''Invalid session'' 401, [])"
  by (cases "userErr env"; cases "user_id env")
    (simp_all add: POST_def falsy_getBearer Let_def configured_def valid_session_def)

lemma POST_profile_error:
  "has_token req \<Longrightarrow> configured env \<Longrightarrow> valid_session env \<Longrightarrow> profErr env = Some m \<Longrightarrow>
   POST env req = (json_error m 500, [])"
  by (auto simp: POST_def falsy_getBearer Let_def configured_def valid_session_def)

lemma POST_forbidden:
  "has_token req \<Longrightarrow> configured env \<Longrightarrow> valid_session env \<Longrightarrow> profErr env = None \<Longrightarrow>
   prof_role env \<noteq> Some ''owner'' \<Longrightarrow> POST env req = (json_error ''Forbidden'' 403, [])"
  by (auto simp: POST_def falsy_getBearer Let_def configured_def valid_session_def)

text \<open>Past the four checks the answer depends on the body, the settings and the update only.\<close>

lemma POST_owner:
  assumes "has_token req" "configured env" "valid_session env" "caller_is_owner env"
  shows "\<exists>callerId. user_id env = Some callerId \<and> POST env req =
     (case json_body req of
        Inl m \<Rightarrow> (json_error m 500, [])
      | Inr b \<Rightarrow>
          (case (case b of None \<Rightarrow> None | Some f \<Rightarrow> mode f,
                 case b of None \<Rightarrow> None | Some f \<Rightarrow> newPassword f) of
             (Some md, Some pw) \<Rightarrow>
               if md = [] \<or> pw = []
                 then (json_error ''Missing mode or newPassword'' 400, [])
               else if length pw < 8
                 then (json_error ''Password must be at least 8 characters'' 400, [])
               else if md = ''cashier''
                 then (case sErr env of
                         Some m \<Rightarrow> (json_error m 500, [])
                       | None \<Rightarrow>
                           (case s_value env of
                              None \<Rightarrow> (json_error ''cashier_user_id not set in app_settings'' 500, [])
                            | Some v \<Rightarrow>
                                if v = []
                                then (json_error ''cashier_user_id not set in app_settings'' 500, [])
                                else updateUserById env v pw))
               else updateUserById env callerId pw
           | _ \<Rightarrow> (json_error ''Missing mode or newPassword'' 400, [])))"
  using assms
  by (auto simp: POST_def falsy_getBearer Let_def configured_def valid_session_def caller_is_owner_def)

lemma POST_200:
  "status (fst (POST env req)) = 200 \<longrightarrow>
   fst (POST env req) = \<lparr>status = 200, body = OkTrue\<rparr> \<and> updErr env = None"
  by (simp add: POST_def updateUserById_def json_error_def Let_def split: option.splits sum.splits)

lemma POST_statuses: "status (fst (POST env req)) \<in> {200, 400, 401, 403, 500}"
  by (simp add: POST_def updateUserById_def json_error_def Let_def split: option.splits sum.splits)

lemma POST_body_null:
  assumes "has_token req" "configured env" "valid_session env" "caller_is_owner env"
    and "json_body req = Inr None"
  shows "status (fst (POST env req)) = 400"
  using POST_owner [OF assms(1-4)] assms(5) by (auto simp: json_error_def)

lemma POST_body_missing:
  assumes "has_token req" "configured env" "valid_session env" "caller_is_owner env"
    and "json_body req = Inr (Some b)" and "falsy (mode b) \<or> falsy (newPassword b)"
  shows "status (fst (POST env req)) = 400"
proof -
  from POST_owner [OF assms(1-4)] assms(5) obtain callerId where
    eq: "POST env req =
      (case (mode b, newPassword b) of
         (Some md, Some pw) \<Rightarrow>
               if md = [] \<or> pw = []
                 then (json_error ''Missing mode or newPassword'' 400, [])
               else if length pw < 8
                 then (json_error ''Password must be at least 8 characters'' 400, [])
               else if md = ''cashier''
                 then (case sErr env of
                         Some m \<Rightarrow> (json_error m 500, [])
                       | None \<Rightarrow>
                           (case s_value env of
                              None \<Rightarrow> (json_error ''cashier_user_id not set in app_settings'' 500, [])
                            | Some v \<Rightarrow>
                                if v = []
                                then (json_error ''cashier_user_id not set in app_settings'' 500, [])
                                else updateUserById env v pw))
               else updateUserById env callerId pw
       | _ \<Rightarrow> (json_error ''Missing mode or newPassword'' 400, []))"
    by auto
  show ?thesis
  proof (cases "mode b")
    case None
    then show ?thesis
      by (simp add: eq json_error_def)
  next
    case md: (Some md)
    show ?thesis
    proof (cases "newPassword b")
      case None
      with md show ?thesis
        by (simp add: eq json_error_def)
    next
      case (Some pw)
      with md assms(6) have "md = [] \<or> pw = []"
        by (simp add: falsy_def)
      with md Some show ?thesis
        by (simp add: eq json_error_def)
    qed
  qed
qed

lemma POST_body_given:
  assumes "has_token req" "configured env" "valid_session env" "caller_is_owner env"
    and "json_body req = Inr (Some b)" and "\<not> falsy (mode b)" and "newPassword b = Some pw"
  shows "pw \<noteq> [] \<Longrightarrow> length pw < 8 \<Longrightarrow> status (fst (POST env req)) = 400"
    and "8 \<le> length pw \<Longrightarrow> mode b = Some ''cashier'' \<Longrightarrow> sErr env \<noteq> None \<Longrightarrow>
         status (fst (POST env req)) = 500"
    and "8 \<le> length pw \<Longrightarrow> (mode b = Some ''cashier'' \<longrightarrow> sErr env = None \<and> \<not> falsy (s_value env)) \<Longrightarrow>
         updErr env \<noteq> None \<Longrightarrow> status (fst (POST env req)) = 400"
    and "8 \<le> length pw \<Longrightarrow> (mode b = Some ''cashier'' \<longrightarrow> sErr env = None \<and> \<not> falsy (s_value env)) \<Longrightarrow>
         updErr env = None \<Longrightarrow> fst (POST env req) = \<lparr>status = 200, body = OkTrue\<rparr>"
proof -
  from assms(6) obtain md where md: "mode b = Some md" "md \<noteq> []"
    by (cases "mode b") (auto simp: falsy_def)
  from POST_owner [OF assms(1-4)] assms(5) assms(7) md obtain callerId where
    eq: "pw \<noteq> [] \<Longrightarrow> POST env req =
      (if length pw < 8
         then (json_error ''Password must be at least 8 characters'' 400, [])
       else if md = ''cashier''
         then (case sErr env of
                 Some m \<Rightarrow> (json_error m 500, [])
               | None \<Rightarrow>
                   (case s_value env of
                      None \<Rightarrow> (json_error ''cashier_user_id not set in app_settings'' 500, [])
                    | Some v \<Rightarrow>
                        if v = []
                        then (json_error ''cashier_user_id not set in app_settings'' 500, [])
                        else updateUserById env v pw))
       else updateUserById env callerId pw)"
    by auto
  have ne: "8 \<le> length pw \<Longrightarrow> pw \<noteq> []"
    by auto
  show "pw \<noteq> [] \<Longrightarrow> length pw < 8 \<Longrightarrow> status (fst (POST env req)) = 400"
    by (simp add: eq json_error_def)
  show "8 \<le> length pw \<Longrightarrow> mode b = Some ''cashier'' \<Longrightarrow> sErr env \<noteq> None \<Longrightarrow>
         status (fst (POST env req)) = 500"
    using md eq ne by (cases "sErr env") (auto simp: json_error_def)
  show "8 \<le> length pw \<Longrightarrow> (mode b = Some ''cashier'' \<longrightarrow> sErr env = None \<and> \<not> falsy (s_value env)) \<Longrightarrow>
         updErr env \<noteq> None \<Longrightarrow> status (fst (POST env req)) = 400"
    using md eq ne
    by (cases "s_value env"; cases "updErr env")
      (auto simp: json_error_def updateUserById_def falsy_def)
  show "8 \<le> length pw \<Longrightarrow> (mode b = Some ''cashier'' \<longrightarrow> sErr env = None \<and> \<not> falsy (s_value env)) \<Longrightarrow>
         updErr env = None \<Longrightarrow> fst (POST env req) = \<lparr>status = 200, body = OkTrue\<rparr>"
    using md eq ne
    by (cases "s_value env") (auto simp: updateUserById_def falsy_def)
qed

lemma POST_200_only:
  assumes "status (fst (POST env req)) = 200"
  shows "body (fst (POST env req)) = OkTrue \<and> has_token req \<and> configured env
        \<and> valid_session env \<and> caller_is_owner env \<and> updErr env = None"
proof -
  from POST_200 assms have r: "fst (POST env req) = \<lparr>status = 200, body = OkTrue\<rparr>" "updErr env = None"
    by blast+
  have t: "has_token req"
  proof (rule ccontr)
    assume "\<not> has_token req"
    from POST_no_token [OF this, of env] assms show False
      by (simp add: json_error_def)
  qed
  have c: "configured env"
  proof (rule ccontr)
    assume "\<not> configured env"
    from POST_not_configured [OF t this] assms show False
      by (simp add: json_error_def)
  qed
  have v: "valid_session env"
  proof (rule ccontr)
    assume "\<not> valid_session env"
    from POST_invalid_session [OF t c this] assms show False
      by (simp add: json_error_def)
  qed
  have p: "profErr env = None"
  proof (cases "profErr env")
    case (Some m)
    from POST_profile_error [OF t c v this] assms show ?thesis
      by (simp add: json_error_def)
  qed simp
  have "prof_role env = Some ''owner''"
  proof (rule ccontr)
    assume "prof_role env \<noteq> Some ''owner''"
    from POST_forbidden [OF t c v p this] assms show False
      by (simp add: json_error_def)
  qed
  with p have "caller_is_owner env"
    by (simp add: caller_is_owner_def)
  with r t c v show ?thesis
    by simp
qed

text \<open>
  C9. The handler checks in a fixed order and answers at the first check that fails:
  \<^item> 401 when the bearer token is missing: there is no \<^verbatim>\<open>authorization\<close> header, or its
    first seven characters are not \<^verbatim>\<open>bearer\<close> (in any mix of cases) and a space, or
    only white space follows them; and, with a token and the configuration present,
    when the session is invalid (the user lookup errs or finds no user);
  \<^item> 500 when a token is given and an environment variable is missing, when the profile
    lookup errs and, for mode \<open>cashier\<close>, when the \<open>app_settings\<close> lookup errs;
  \<^item> 403 when the authenticated caller's profile role is not owner (or there is no
    profile);
  \<^item> 400, for an owner, when \<open>mode\<close> or \<open>newPassword\<close> is missing, when \<open>newPassword\<close>
    has fewer than 8 characters, and when the credential update fails;
  \<^item> 200 with body \<open>{ok: true}\<close> when every check passes and the update succeeds, and
    only then.
  No other status is ever answered.
\<close>

theorem POST_status_codes:
  "(authorization req = None \<longrightarrow> status (fst (POST env req)) = 401)
   \<and> (authorization req = Some h \<and> toLowerCase (take 7 h) \<noteq> ''bearer '' \<longrightarrow>
        status (fst (POST env req)) = 401)
   \<and> (authorization req = Some h \<and> list_all is_space (drop 7 h) \<longrightarrow>
        status (fst (POST env req)) = 401)
   \<and> (has_token req \<and> \<not> configured env \<longrightarrow> status (fst (POST env req)) = 500)
   \<and> (has_token req \<and> configured env \<and> \<not> valid_session env \<longrightarrow>
        status (fst (POST env req)) = 401)
   \<and> (has_token req \<and> configured env \<and> valid_session env \<and> profErr env \<noteq> None \<longrightarrow>
        status (fst (POST env req)) = 500)
   \<and> (has_token req \<and> configured env \<and> valid_session env \<and> profErr env = None
        \<and> prof_role env \<noteq> Some ''owner'' \<longrightarrow>
        status (fst (POST env req)) = 403)
   \<and> (has_token req \<and> configured env \<and> valid_session env \<and> caller_is_owner env
        \<and> json_body req = Inr None \<longrightarrow>
        status (fst (POST env req)) = 400)
   \<and> (has_token req \<and> configured env \<and> valid_session env \<and> caller_is_owner env
        \<and> json_body req = Inr (Some b) \<and> (falsy (mode b) \<or> falsy (newPassword b)) \<longrightarrow>
        status (fst (POST env req)) = 400)
   \<and> (has_token req \<and> configured env \<and> valid_session env \<and> caller_is_owner env
        \<and> json_body req = Inr (Some b) \<and> \<not> falsy (mode b) \<and> newPassword b = Some pw
        \<and> pw \<noteq> [] \<and> length pw < 8 \<longrightarrow>
        status (fst (POST env req)) = 400)
   \<and> (has_token req \<and> configured env \<and> valid_session env \<and> caller_is_owner env
        \<and> json_body req = Inr (Some b) \<and> mode b = Some ''cashier'' \<and> newPassword b = Some pw
        \<and> 8 \<le> length pw \<and> sErr env \<noteq> None \<longrightarrow>
        status (fst (POST env req)) = 500)
   \<and> (has_token req \<and> configured env \<and> valid_session env \<and> caller_is_owner env
        \<and> json_body req = Inr (Some b) \<and> \<not> falsy (mode b) \<and> newPassword b = Some pw
        \<and> 8 \<le> length pw
        \<and> (mode b = Some ''cashier'' \<longrightarrow> sErr env = None \<and> \<not> falsy (s_value env))
        \<and> updErr env \<noteq> None \<longrightarrow>
        status (fst (POST env req)) = 400)
   \<and> (has_token req \<and> configured env \<and> valid_session env \<and> caller_is_owner env
        \<and> json_body req = Inr (Some b) \<and> \<not> falsy (mode b) \<and> newPassword b = Some pw
        \<and> 8 \<le> length pw
        \<and> (mode b = Some ''cashier'' \<longrightarrow> sErr env = None \<and> \<not> falsy (s_value env))
        \<and> updErr env = None \<longrightarrow>
        fst (POST env req) = \<lparr>status = 200, body = OkTrue\<rparr>)
   \<and> status (fst (POST env req)) \<in> {200, 400, 401, 403, 500}
   \<and> (status (fst (POST env req)) = 200 \<longrightarrow>
        body (fst (POST env req)) = OkTrue \<and> has_token req \<and> configured env
        \<and> valid_session env \<and> caller_is_owner env \<and> updErr env = None)"
proof (intro conjI impI)
  show "status (fst (POST env req)) \<in> {200, 400, 401, 403, 500}"
    by (rule POST_statuses)
next
  assume "authorization req = None"
  then have "\<not> has_token req"
    by (simp add: has_token_def)
  then show "status (fst (POST env req)) = 401"
    by (simp add: POST_no_token json_error_def)
next
  assume "authorization req = Some h \<and> toLowerCase (take 7 h) \<noteq> ''bearer ''"
  then have "\<not> has_token req"
    by (simp add: has_token_def)
  then show "status (fst (POST env req)) = 401"
    by (simp add: POST_no_token json_error_def)
next
  assume "authorization req = Some h \<and> list_all is_space (drop 7 h)"
  then have "\<not> has_token req"
    by (simp add: has_token_def)
  then show "status (fst (POST env req)) = 401"
    by (simp add: POST_no_token json_error_def)
next
  assume "has_token req \<and> \<not> configured env"
  then show "status (fst (POST env req)) = 500"
    by (simp add: POST_not_configured json_error_def)
next
  assume "has_token req \<and> configured env \<and> \<not> valid_session env"
  then show "status (fst (POST env req)) = 401"
    by (simp add: POST_invalid_session json_error_def)
next
  assume "has_token req \<and> configured env \<and> valid_session env \<and> profErr env \<noteq> None"
  then show "status (fst (POST env req)) = 500"
    by (cases "profErr env") (simp_all add: POST_profile_error json_error_def)
next
  assume "has_token req \<and> configured env \<and> valid_session env \<and> profErr env = None
        \<and> prof_role env \<noteq> Some ''owner''"
  then show "status (fst (POST env req)) = 403"
    by (simp add: POST_forbidden json_error_def)
next
  assume "has_token req \<and> configured env \<and> valid_session env \<and> caller_is_owner env
        \<and> json_body req = Inr None"
  then show "status (fst (POST env req)) = 400"
    using POST_body_null by blast
next
  assume "has_token req \<and> configured env \<and> valid_session env \<and> caller_is_owner env
        \<and> json_body req = Inr (Some b) \<and> (falsy (mode b) \<or> falsy (newPassword b))"
  then show "status (fst (POST env req)) = 400"
    using POST_body_missing by blast
next
  assume "has_token req \<and> configured env \<and> valid_session env \<and> caller_is_owner env
        \<and> json_body req = Inr (Some b) \<and> \<not> falsy (mode b) \<and> newPassword b = Some pw
        \<and> pw \<noteq> [] \<and> length pw < 8"
  then show "status (fst (POST env req)) = 400"
    using POST_body_given(1) by blast
next
  assume h: "has_token req \<and> configured env \<and> valid_session env \<and> caller_is_owner env
        \<and> json_body req = Inr (Some b) \<and> mode b = Some ''cashier'' \<and> newPassword b = Some pw
        \<and> 8 \<le> length pw \<and> sErr env \<noteq> None"
  then have "\<not> falsy (mode b)"
    by (simp add: falsy_def)
  with h show "status (fst (POST env req)) = 500"
    using POST_body_given(2) by blast
next
  assume "has_token req \<and> configured env \<and> valid_session env \<and> caller_is_owner env
        \<and> json_body req = Inr (Some b) \<and> \<not> falsy (mode b) \<and> newPassword b = Some pw
        \<and> 8 \<le> length pw
        \<and> (mode b = Some ''cashier'' \<longrightarrow> sErr env = None \<and> \<not> falsy (s_value env))
        \<and> updErr env \<noteq> None"
  then show "status (fst (POST env req)) = 400"
    using POST_body_given(3) by blast
next
  assume "has_token req \<and> configured env \<and> valid_session env \<and> caller_is_owner env
        \<and> json_body req = Inr (Some b) \<and> \<not> falsy (mode b) \<and> newPassword b = Some pw
        \<and> 8 \<le> length pw
        \<and> (mode b = Some ''cashier'' \<longrightarrow> sErr env = None \<and> \<not> falsy (s_value env))
        \<and> updErr env = None"
  then show "fst (POST env req) = \<lparr>status = 200, body = OkTrue\<rparr>"
    using POST_body_given(4) by blast
next
  assume "status (fst (POST env req)) = 200"
  from POST_200_only [OF this]
  show "body (fst (POST env req)) = OkTrue" "has_token req" "configured env"
    "valid_session env" "caller_is_owner env" "updErr env = None"
    by simp_all
qed

theorem POST_status_codes_witness:
  "has_token good_request \<and> configured good_env \<and> valid_session good_env
   \<and> caller_is_owner good_env
   \<and> fst (POST good_env good_request) = \<lparr>status = 200, body = OkTrue\<rparr>
   \<and> status (fst (POST good_env (good_request\<lparr>authorization := None\<rparr>))) = 401
   \<and> status (fst (POST good_env (good_request\<lparr>authorization := Some ''Basic abc.def''\<rparr>))) = 401
   \<and> status (fst (POST good_env
         (good_request\<lparr>authorization := Some [CHR ''B'', CHR ''e'', CHR ''a'', CHR ''r'', CHR ''e'',
                                               CHR ''r'', CHR '' '', CHR 0xA0, CHR '' '']\<rparr>))) = 401"
proof -
  let ?b = "\<lparr>mode = Some ''cashier'', newPassword = Some ''s3cret-pass''\<rparr>"
  let ?basic = "good_request\<lparr>authorization := Some ''Basic abc.def''\<rparr>"
  let ?blank = "[CHR ''B'', CHR ''e'', CHR ''a'', CHR ''r'', CHR ''e'', CHR ''r'', CHR '' '',
                 CHR 0xA0, CHR '' '']"
  have tok: "has_token good_request"
    by code_simp
  have cfg: "configured good_env" "valid_session good_env" "caller_is_owner good_env"
    "sErr good_env = None" "\<not> falsy (s_value good_env)" "updErr good_env = None"
    by (simp_all add: good_env_def falsy_def configured_def valid_session_def caller_is_owner_def)
  have bd: "json_body good_request = Inr (Some ?b)" "\<not> falsy (mode ?b)"
    "newPassword ?b = Some ''s3cret-pass''" "8 \<le> length ''s3cret-pass''"
    by (simp_all add: good_request_def falsy_def)
  have fm: "\<not> falsy (Some ''cashier'')"
    by (simp add: falsy_def)
  note codes = POST_status_codes [of good_request good_env "[]" ?b "''s3cret-pass''"]
  note success = codes [THEN conjunct2, THEN conjunct2, THEN conjunct2, THEN conjunct2,
    THEN conjunct2, THEN conjunct2, THEN conjunct2, THEN conjunct2, THEN conjunct2,
    THEN conjunct2, THEN conjunct2, THEN conjunct2, THEN conjunct1, rule_format]
  have ok: "fst (POST good_env good_request) = \<lparr>status = 200, body = OkTrue\<rparr>"
    by (rule success) (simp add: tok cfg bd fm)
  note no_header =
    POST_status_codes [of "good_request\<lparr>authorization := None\<rparr>" good_env "[]",
      THEN conjunct1, rule_format]
  have missing: "status (fst (POST good_env (good_request\<lparr>authorization := None\<rparr>))) = 401"
    by (rule no_header) simp
  note no_prefix =
    POST_status_codes [of ?basic good_env "''Basic abc.def''",
      THEN conjunct2, THEN conjunct1, rule_format]
  have low: "toLowerCase ''Basic a'' \<noteq> ''bearer ''"
    by code_simp
  have basic: "status (fst (POST good_env ?basic)) = 401"
    by (rule no_prefix) (simp add: low)
  note no_token =
    POST_status_codes [of "good_request\<lparr>authorization := Some ?blank\<rparr>" good_env ?blank,
      THEN conjunct2, THEN conjunct2, THEN conjunct1, rule_format]
  have sp: "is_space (CHR 0xA0)" "is_space CHR '' ''"
    by (simp_all add: is_space_def)
  have blank: "status (fst (POST good_env (good_request\<lparr>authorization := Some ?blank\<rparr>))) = 401"
    by (rule no_token) (simp add: sp)
  from tok cfg ok missing basic blank show ?thesis
    by simp
qed

section \<open>Shape of the exported CSV\<close>

lemma linesByOrder_fold:
  "(case foldl (\<lambda>m l. m(ln_order_id l \<mapsto> (case m (ln_order_id l) of None \<Rightarrow> [] | Some arr \<Rightarrow> arr) @ [l]))
            m ls i of None \<Rightarrow> [] | Some arr \<Rightarrow> arr) =
   (case m i of None \<Rightarrow> [] | Some arr \<Rightarrow> arr) @ filter (\<lambda>l. ln_order_id l = i) ls"
  by (induction ls arbitrary: m) simp_all

lemma linesByOrder_filter:
  "(case linesByOrder ls i of Some arr \<Rightarrow> arr | None \<Rightarrow> []) = filter (\<lambda>l. ln_order_id l = i) ls"
  unfolding linesByOrder_def by (simp add: linesByOrder_fold)

lemma set_insert_desc: "set (insert_desc a bs) = insert a (set bs)"
  by (induction bs) auto

lemma set_ordersSorted_fold: "set (foldl (\<lambda>acc a. insert_desc a acc) acc os) = set acc \<union> set os"
  by (induction os arbitrary: acc) (simp_all add: set_insert_desc)

lemma set_ordersSorted: "set (ordersSorted os) = set os"
  by (simp add: ordersSorted_def set_ordersSorted_fold)

lemma length_insert_desc: "length (insert_desc a bs) = Suc (length bs)"
  by (induction bs) simp_all

lemma length_ordersSorted_fold:
  "length (foldl (\<lambda>acc a. insert_desc a acc) acc os) = length acc + length os"
  by (induction os arbitrary: acc) (simp_all add: length_insert_desc)

lemma order_fields_filter:
  "order_fields bs ls ord =
     (if filter (\<lambda>l. ln_order_id l = ord_id ord) ls = []
      then [placeholder_fields ord
              (case branchNameById bs (ord_branch_id ord) of Some nm \<Rightarrow> nm | None \<Rightarrow> ord_branch_id ord)]
      else map (line_fields ord
              (case branchNameById bs (ord_branch_id ord) of Some nm \<Rightarrow> nm | None \<Rightarrow> ord_branch_id ord))
             (filter (\<lambda>l. ln_order_id l = ord_id ord) ls))"
  by (simp add: order_fields_def linesByOrder_filter Let_def)

lemma order_fields_shape:
  assumes "fs \<in> set (order_fields bs ls ord)"
  shows "length fs = 8 \<and> fs ! 0 = escapeCsv (ord_id ord)"
  using assms
  by (auto simp: order_fields_filter placeholder_fields_def line_fields_def split: if_splits)

lemma line_fields_described:
  "tl (line_fields ord branch l) = map (\<lambda>name. described_value name ord branch (Some l)) header"
  by (simp add: line_fields_def header_def described_value_def)

lemma placeholder_fields_described:
  "tl (placeholder_fields ord branch) = map (\<lambda>name. described_value name ord branch None) header"
  by (simp add: placeholder_fields_def header_def described_value_def)

text \<open>
  C10, as stated, ends: each data value sits one column to the left of the header name
  that describes it. It is the other way round. In the row of the sample line the first
  column holds the order id, not the branch that the header's second name announces;
  the creation time, announced by the header's first name, is in the second column.
\<close>

theorem exportCsv_columns_counterexample:
  "header ! 0 = ''order_created_at'' \<and> header ! 1 = ''branch''
   \<and> line_fields sample_order ''Main'' sample_line ! 0 = ''o1''
   \<and> described_value (header ! 1) sample_order ''Main'' (Some sample_line) = ''Main''
   \<and> line_fields sample_order ''Main'' sample_line ! 0 \<noteq>
       described_value (header ! 1) sample_order ''Main'' (Some sample_line)
   \<and> line_fields sample_order ''Main'' sample_line ! 1 =
       described_value (header ! 0) sample_order ''Main'' (Some sample_line)"
  by (simp add: header_def line_fields_def described_value_def sample_order_def sample_line_def
      escapeCsv_def)

text \<open>
  C10, amended. The header row has exactly 7 names (order_created_at, branch,
  payment_type, order_total, item_name, qty, line_total). Every data row, whether the
  row of a line or the placeholder row of an order without lines, is the join with
  commas of exactly 8 fields, one more than the header, and its first field is the
  (escaped) id of an exported order. The other 7 fields are, in order, the values that
  the 7 header names describe: each data value sits one column to the right of the
  header name that describes it. An order without lines gives one placeholder row, an
  order with lines one row per line.
\<close>

theorem exportCsv_columns:
  "header = [''order_created_at'', ''branch'', ''payment_type'', ''order_total'', ''item_name'',
            ''qty'', ''line_total'']
   \<and> length header = 7
   \<and> snd (exportCsv bs os ls startDate endDate) =
       join [CHR 0x0A] (join '','' header # map (join '','') (data_fields bs os ls))
   \<and> (\<forall>fs \<in> set (data_fields bs os ls).
         length fs = 8 \<and> length fs = length header + 1
         \<and> (\<exists>ord \<in> set os. fs ! 0 = escapeCsv (ord_id ord)))
   \<and> data_fields bs os ls =
       concat (map (\<lambda>ord. if filter (\<lambda>l. ln_order_id l = ord_id ord) ls = []
                           then [placeholder_fields ord
                                   (case branchNameById bs (ord_branch_id ord) of
                                      Some nm \<Rightarrow> nm | None \<Rightarrow> ord_branch_id ord)]
                           else map (line_fields ord
                                   (case branchNameById bs (ord_branch_id ord) of
                                      Some nm \<Rightarrow> nm | None \<Rightarrow> ord_branch_id ord))
                                  (filter (\<lambda>l. ln_order_id l = ord_id ord) ls))
                   (ordersSorted os))
   \<and> set (ordersSorted os) = set os \<and> length (ordersSorted os) = length os
   \<and> length (line_fields ord branch l) = 8 \<and> length (placeholder_fields ord branch) = 8
   \<and> hd (line_fields ord branch l) = escapeCsv (ord_id ord)
   \<and> hd (placeholder_fields ord branch) = escapeCsv (ord_id ord)
   \<and> tl (line_fields ord branch l) =
       map (\<lambda>name. described_value name ord branch (Some l)) header
   \<and> tl (placeholder_fields ord branch) =
       map (\<lambda>name. described_value name ord branch None) header"
proof (intro conjI)
  show "header = [''order_created_at'', ''branch'', ''payment_type'', ''order_total'',
            ''item_name'', ''qty'', ''line_total'']"
    by (simp add: header_def)
  show "length header = 7"
    by (simp add: header_def)
  show "snd (exportCsv bs os ls startDate endDate) =
       join [CHR 0x0A] (join '','' header # map (join '','') (data_fields bs os ls))"
    by (simp add: exportCsv_def Let_def)
  show "\<forall>fs \<in> set (data_fields bs os ls).
         length fs = 8 \<and> length fs = length header + 1
         \<and> (\<exists>ord \<in> set os. fs ! 0 = escapeCsv (ord_id ord))"
  proof
    fix fs
    assume "fs \<in> set (data_fields bs os ls)"
    then obtain ord where ord: "ord \<in> set (ordersSorted os)" "fs \<in> set (order_fields bs ls ord)"
      by (auto simp: data_fields_def)
    from order_fields_shape [OF ord(2)] ord(1)
    show "length fs = 8 \<and> length fs = length header + 1
         \<and> (\<exists>ord \<in> set os. fs ! 0 = escapeCsv (ord_id ord))"
      by (auto simp: set_ordersSorted header_def)
  qed
  show "data_fields bs os ls =
       concat (map (\<lambda>ord. if filter (\<lambda>l. ln_order_id l = ord_id ord) ls = []
                           then [placeholder_fields ord
                                   (case branchNameById bs (ord_branch_id ord) of
                                      Some nm \<Rightarrow> nm | None \<Rightarrow> ord_branch_id ord)]
                           else map (line_fields ord
                                   (case branchNameById bs (ord_branch_id ord) of
                                      Some nm \<Rightarrow> nm | None \<Rightarrow> ord_branch_id ord))
                                  (filter (\<lambda>l. ln_order_id l = ord_id ord) ls))
                   (ordersSorted os))"
    unfolding data_fields_def by (simp add: order_fields_filter cong: map_cong)
  show "set (ordersSorted os) = set os"
    by (rule set_ordersSorted)
  show "length (ordersSorted os) = length os"
    by (simp add: ordersSorted_def length_ordersSorted_fold)
  show "length (line_fields ord branch l) = 8" "length (placeholder_fields ord branch) = 8"
    "hd (line_fields ord branch l) = escapeCsv (ord_id ord)"
    "hd (placeholder_fields ord branch) = escapeCsv (ord_id ord)"
    by (simp_all add: line_fields_def placeholder_fields_def)
  show "tl (line_fields ord branch l) =
       map (\<lambda>name. described_value name ord branch (Some l)) header"
    by (rule line_fields_described)
  show "tl (placeholder_fields ord branch) =
       map (\<lambda>name. described_value name ord branch None) header"
    by (rule placeholder_fields_described)
qed

theorem exportCsv_columns_witness:
  "data_fields [(''b1'', ''Main'')] [sample_order] [sample_line] =
     [[''o1'', ''2024-03-01T02:00:00+00:00'', ''Main'', ''GCASH'', ''120.00'',
       ''\"Burger, large\"'', ''2'', ''100.00'']]
   \<and> map length (data_fields [(''b1'', ''Main'')] [sample_order] [sample_line]) = [8]
   \<and> length header + 1 = 8
   \<and> snd (exportCsv [(''b1'', ''Main'')] [sample_order] [sample_line] ''2024-03-01'' ''2024-03-01'') =
     ''order_created_at,branch,payment_type,order_total,item_name,qty,line_total'' @ [CHR 0x0A] @
     ''o1,2024-03-01T02:00:00+00:00,Main,GCASH,120.00,\"Burger, large\",2,100.00''"
proof -
  note inst = exportCsv_columns [of "[(''b1'', ''Main'')]" "[sample_order]" "[sample_line]"
    "''2024-03-01''" "''2024-03-01''" sample_order "''Main''" sample_line]
  have digits: "dec_digits 12000 = ''12000''" "dec_digits 10000 = ''10000''" "dec_digits 2 = ''2''"
    by (simp_all add: dec_digits.simps)
  have amounts: "toFixed2 120 = ''120.00''" "toFixed2 100 = ''100.00''" "String_int 2 = ''2''"
    by (simp_all add: toFixed2_def String_int_def digits padStart0_def Let_def floor_rat_numeral
        fl_numeral)
  have rows: "data_fields [(''b1'', ''Main'')] [sample_order] [sample_line] =
     [[''o1'', ''2024-03-01T02:00:00+00:00'', ''Main'', ''GCASH'', ''120.00'',
       ''\"Burger, large\"'', ''2'', ''100.00'']]"
    by (simp add: data_fields_def ordersSorted_def order_fields_def linesByOrder_def
        branchNameById_def line_fields_def sample_order_def sample_line_def Let_def
        escapeCsv_def payment_text_def amounts)
  note shape = inst [THEN conjunct2, THEN conjunct2, THEN conjunct2, THEN conjunct1]
  note joined = inst [THEN conjunct2, THEN conjunct2, THEN conjunct1]
  note seven = inst [THEN conjunct2, THEN conjunct1]
  have member: "hd (data_fields [(''b1'', ''Main'')] [sample_order] [sample_line])
      \<in> set (data_fields [(''b1'', ''Main'')] [sample_order] [sample_line])"
    unfolding rows by simp
  from shape [rule_format, OF member]
  have "length (hd (data_fields [(''b1'', ''Main'')] [sample_order] [sample_line])) = 8"
    by (rule conjunct1)
  then have lens: "map length (data_fields [(''b1'', ''Main'')] [sample_order] [sample_line]) = [8]"
    unfolding rows by simp
  have more: "length header + 1 = 8"
    unfolding seven by simp
  have csv: "snd (exportCsv [(''b1'', ''Main'')] [sample_order] [sample_line] ''2024-03-01'' ''2024-03-01'') =
     ''order_created_at,branch,payment_type,order_total,item_name,qty,line_total'' @ [CHR 0x0A] @
     ''o1,2024-03-01T02:00:00+00:00,Main,GCASH,120.00,\"Burger, large\",2,100.00''"
    unfolding joined rows by (simp add: header_def)
  show ?thesis
    by (rule conjI [OF rows conjI [OF lens conjI [OF more csv]]])
qed

section \<open>The time range of a pair of dates\<close>

text \<open>The range of March 2024, and of a single day at the end of a year.\<close>

lemma phDateRangeToUtcIso_march:
  "phDateRangeToUtcIso ''2024-03-01'' ''2024-03-31'' =
     Inr \<lparr>startUtc = ''2024-02-29T16:00:00.000Z'', endUtc = ''2024-03-31T16:00:00.000Z''\<rparr>"
  by code_simp

lemma phDateRangeToUtcIso_new_years_eve:
  "phDateRangeToUtcIso ''2023-12-31'' ''2023-12-31'' =
     Inr \<lparr>startUtc = ''2023-12-30T16:00:00.000Z'', endUtc = ''2023-12-31T16:00:00.000Z''\<rparr>"
  by code_simp

lemma local_midnight_utc_examples:
  "local_midnight_utc (50, 1, 1) = ''0049-12-31T16:00:00.000Z''"
  "local_midnight_utc (next_day (50, 1, 1)) = ''0050-01-01T16:00:00.000Z''"
  "local_midnight_utc (2024, 3, 1) = ''2024-02-29T16:00:00.000Z''"
  "local_midnight_utc (next_day (2024, 3, 31)) = ''2024-03-31T16:00:00.000Z''"
  by code_simp+

text \<open>
  C5 says that for every pair of \<^verbatim>\<open>YYYY-MM-DD\<close> dates \<open>s \<le> e\<close> the result is the UTC
  instant of local midnight of \<open>s\<close> and of the day after \<open>e\<close>. For the years 0000 to
  0099 the code answers for the years 1900 to 1999 instead, because \<^verbatim>\<open>Date.UTC\<close> reads a
  year between 0 and 99 as 1900 plus that year. For the single day 0050-01-01 the claim
  asks for 0049-12-31T16:00:00.000Z and 0050-01-01T16:00:00.000Z; the code returns the
  range of 1 January 1950.
\<close>

theorem phDateRangeToUtcIso_two_digit_year:
  "valid_date (50, 1, 1) \<and> ymd_text (50, 1, 1) = ''0050-01-01''
   \<and> phDateRangeToUtcIso ''0050-01-01'' ''0050-01-01'' =
       Inr \<lparr>startUtc = ''1949-12-31T16:00:00.000Z'', endUtc = ''1950-01-01T16:00:00.000Z''\<rparr>
   \<and> phDateRangeToUtcIso ''0050-01-01'' ''0050-01-01'' \<noteq>
       Inr \<lparr>startUtc = local_midnight_utc (50, 1, 1),
            endUtc = local_midnight_utc (next_day (50, 1, 1))\<rparr>"
  by code_simp

section \<open>Properties of the replacement editor\<close>

lemma find_first_None: "find_first p xs = None \<longleftrightarrow> (\<forall>x \<in> set xs. \<not> p x)"
  by (induction xs) auto

lemma find_first_Some: "find_first p xs = Some x \<Longrightarrow> x \<in> set xs \<and> p x"
  by (induction xs) (auto split: if_splits)








text \<open>
  What \<^verbatim>\<open>repAdd\<close> does with an item it finds in the catalogue: it increments the line of
  that item when there is one, and appends a line with quantity 1 otherwise.
\<close>

lemma repAdd_merge:
  assumes "find_first (\<lambda>m. m_id m = i) cat = Some it"
    and "\<exists>l \<in> set ls. rl_menu_item_id l = i"
  shows "repAdd cat i ls = repInc i ls"
proof -
  from assms(2) have "find_first (\<lambda>l. rl_menu_item_id l = i) ls \<noteq> None"
    by (simp add: find_first_None)
  then obtain e where "find_first (\<lambda>l. rl_menu_item_id l = i) ls = Some e"
    by auto
  with assms(1) show ?thesis
    by (simp add: repAdd_def repInc_def)
qed

lemma repAdd_create:
  assumes "find_first (\<lambda>m. m_id m = i) cat = Some it"
    and "\<forall>l \<in> set ls. rl_menu_item_id l \<noteq> i"
  shows "repAdd cat i ls = ls @ [\<lparr>rl_id = m_id it, rl_menu_item_id = m_id it, rl_name = m_name it,
                                  rl_unit_price = m_price it, rl_qty = 1\<rparr>]"
proof -
  from assms(2) have "find_first (\<lambda>l. rl_menu_item_id l = i) ls = None"
    by (simp add: find_first_None)
  with assms(1) show ?thesis
    by (simp add: repAdd_def)
qed


text \<open>
  The page never fills \<^verbatim>\<open>menuAll\<close>: it starts empty and none of the workflow's
  operations touches it.
\<close>

lemma menuAll_cancelReplacement: "menuAll (cancelReplacement ok st) = menuAll st"
  by (simp add: cancelReplacement_def)

lemma menuAll_saveReplacementDraft: "menuAll (fst (saveReplacementDraft st w)) = menuAll st"
  by (simp add: saveReplacementDraft_def split: option.splits prod.splits)

lemma menuAll_startVoidAndReplace: "menuAll (fst (startVoidAndReplace ok oid st w)) = menuAll st"
  by (simp add: startVoidAndReplace_def startVoidAndReplace_try_def Let_def
        split: option.splits prod.splits sum.splits)

lemma menuAll_finalizeReplacement: "menuAll (fst (finalizeReplacement ok st w)) = menuAll st"
proof -
  have "menuAll (fst (saveReplacementDraft st' w')) = menuAll st'" for st' w'
    by (rule menuAll_saveReplacementDraft)
  then have s: "saveReplacementDraft st' w' = (st1, w1) \<Longrightarrow> menuAll st1 = menuAll st'" for st' w' st1 w1
    by (metis fst_conv)
  show ?thesis
    by (auto simp: finalizeReplacement_def finalizeReplacement_try_def dest!: s
          split: option.splits prod.splits sum.splits if_splits)
qed




end
